theory Spec2Isabelle
  imports Main
begin

section \<open>Machine integers\<close>

text \<open>
  The C++ sources compute with \<open>int\<close> (32 bits, two's complement). The model keeps the
  values in \<open>int\<close> and writes the conversion to 32 bits out: \<open>int32 x\<close> is the value an
  \<open>int\<close> holds after \<open>x\<close> was stored into it (a cast \<open>(int) v.size()\<close>, or an addition
  that left the range).
\<close>

definition int32 :: "int \<Rightarrow> int" where
  "int32 x = (x + 2147483648) mod 4294967296 - 2147483648"

definition INT_MAX :: int where
  "INT_MAX = 2147483647"

section \<open>Failures and state passing\<close>

text \<open>
  What a call can end with instead of returning: \<open>throw n\<close> of an \<open>int\<close>, an exception
  object of the standard library (\<open>std::runtime_error\<close>, \<open>std::length_error\<close>,
  \<open>std::invalid_argument\<close>, ...), a failed \<open>assert\<close>, or \<open>std::terminate\<close> (a
  \<open>throw;\<close> with no exception in flight).
\<close>

datatype thrown = ThrowInt int | StdException string | AssertFailed | Terminate

text \<open>
  Effects are written as state passing. A call returns \<open>(None, s)\<close> when it returns
  normally in state \<open>s\<close>, and \<open>(Some e, s)\<close> when it ends with \<open>e\<close>: the state \<open>s\<close>
  then holds what had been written before the failure.
\<close>

definition seq :: "thrown option \<times> 's \<Rightarrow> ('s \<Rightarrow> thrown option \<times> 's) \<Rightarrow> thrown option \<times> 's" where
  "seq r f = (case r of (None, s) \<Rightarrow> f s | (Some e, s) \<Rightarrow> (Some e, s))"

definition newline :: char where
  "newline = CHR 0x0A"

section \<open>The Plot3D parser\<close>

subsection \<open>Input streams\<close>

text \<open>
  A \<open>std::ifstream\<close>: the characters not yet read, and whether the stream is still good
  (no state flag set; the sources never clear a flag). An operation on a stream that is
  not good reads nothing. The stream also remembers which operations were performed on
  it, oldest first; the parser never reads that history.
\<close>

datatype io_event = Getline | Extract | Unpack nat | RecordOpen int | RecordClose int

record istream =
  chars :: string
  good :: bool
  history :: "io_event list"

definition new_istream :: "string \<Rightarrow> istream" where
  "new_istream cs = \<lparr>chars = cs, good = True, history = []\<rparr>"

definition isspace :: "char \<Rightarrow> bool" where
  "isspace c = (c \<in> set [CHR '' '', CHR 0x09, CHR 0x0A, CHR 0x0B, CHR 0x0C, CHR 0x0D])"

definition isdigit :: "char \<Rightarrow> bool" where
  "isdigit c = (c \<in> set ''0123456789'')"

text \<open>
  \<open>std::getline (stream, str)\<close>. On a stream that is not good, \<open>str\<close> keeps its old
  value. Otherwise \<open>str\<close> becomes the characters up to the next newline, which is read
  and dropped; when the input ends first, \<open>str\<close> is what was left and the stream is no
  longer good.
\<close>

definition getline :: "istream \<Rightarrow> string \<Rightarrow> string \<times> istream" where
  "getline s str =
     (let s1 = s\<lparr>history := history s @ [Getline]\<rparr>
      in if \<not> good s then (str, s1)
         else if newline \<in> set (chars s)
           then (takeWhile (\<lambda>c. c \<noteq> newline) (chars s),
                 s1\<lparr>chars := tl (dropWhile (\<lambda>c. c \<noteq> newline) (chars s))\<rparr>)
           else (chars s, s1\<lparr>chars := [], good := False\<rparr>))"

text \<open>
  \<open>double tmp_val = 0; input_stream >> tmp_val;\<close> and the value of \<open>tmp_val\<close> afterwards.
  The conversion of decimal text to a \<open>double\<close> is \<open>num_get\<close>, taken from outside: it
  returns the value, if the text starts with a number, and the characters it left
  unread. A stream that is not good, or that ends in white space, leaves \<open>tmp_val\<close> at
  0; a text that is no number stores 0 and the stream is no longer good. No exception
  is raised (the sources never enable stream exceptions).
\<close>

definition extract_double ::
  "(string \<Rightarrow> 'd option \<times> string) \<Rightarrow> istream \<Rightarrow> ('d::zero) \<times> istream" where
  "extract_double num_get s =
     (let s1 = s\<lparr>history := history s @ [Extract]\<rparr>
      in if \<not> good s then (0, s1)
         else (let cs = dropWhile isspace (chars s)
               in if cs = [] then (0, s1\<lparr>chars := [], good := False\<rparr>)
                  else (case num_get cs of
                          (None, rest) \<Rightarrow> (0, s1\<lparr>chars := rest, good := False\<rparr>)
                        | (Some v, rest) \<Rightarrow> (v, s1\<lparr>chars := rest, good := (rest \<noteq> [])\<rparr>))))"

subsection \<open>Text to integers\<close>

fun digits_value :: "string \<Rightarrow> int \<Rightarrow> int" where
  "digits_value [] acc = acc"
| "digits_value (c # cs) acc =
     (if isdigit c then digits_value cs (10 * acc + (int (of_char c) - 48)) else acc)"

definition skip_sign :: "string \<Rightarrow> string" where
  "skip_sign cs = (case cs of [] \<Rightarrow> [] | c # rest \<Rightarrow> if c = CHR ''-'' \<or> c = CHR ''+'' then rest else cs)"

definition is_negative :: "string \<Rightarrow> bool" where
  "is_negative cs = (case cs of [] \<Rightarrow> False | c # rest \<Rightarrow> c = CHR ''-'')"

text \<open>
  \<open>std::strtol\<close> in base 10: white space, an optional sign, decimal digits; 0 when there
  is no digit. The result is a \<open>long\<close> of 64 bits; a number beyond its range is cut to
  \<open>LONG_MAX\<close> or \<open>LONG_MIN\<close>.
\<close>

definition strtol :: "string \<Rightarrow> int" where
  "strtol str =
     (let cs = dropWhile isspace str; v = digits_value (skip_sign cs) 0
      in max (- 9223372036854775808) (min 9223372036854775807 (if is_negative cs then - v else v)))"

text \<open>
  \<open>std::atoi\<close>: the C library returns \<open>(int) strtol (str, NULL, 10)\<close>, and the conversion
  to \<open>int\<close> keeps the low 32 bits: \<open>4294967297\<close> gives 1 and \<open>2147483648\<close> gives
  \<open>INT_MIN\<close>. (The C standard leaves the result undefined when the number does not fit
  an \<open>int\<close>.)
\<close>

definition atoi :: "string \<Rightarrow> int" where
  "atoi str = int32 (strtol str)"

text \<open>
  \<open>std::stoi\<close>: as \<open>atoi\<close>, but \<open>std::invalid_argument\<close> when there is no digit and
  \<open>std::out_of_range\<close> when the number does not fit an \<open>int\<close>.
\<close>

definition stoi :: "string \<Rightarrow> thrown + int" where
  "stoi str =
     (let cs = dropWhile isspace str; ds = skip_sign cs;
          v = (if is_negative cs then - digits_value ds 0 else digits_value ds 0)
      in if ds = [] \<or> \<not> isdigit (hd ds) then Inl (StdException ''invalid_argument'')
         else if v < - 2147483648 \<or> INT_MAX < v then Inl (StdException ''out_of_range'')
         else Inr v)"

text \<open>Four bytes, least significant first, as an \<open>int\<close>.\<close>

fun le_value :: "string \<Rightarrow> nat" where
  "le_value [] = 0"
| "le_value (c # cs) = of_char c + 256 * le_value cs"

definition int_of_bytes :: "string \<Rightarrow> int" where
  "int_of_bytes bytes = int32 (int (le_value bytes))"

subsection \<open>What the parser takes from outside the sources\<close>

text \<open>
  \<open>tokenise\<close> is a function of the repository that is not among the sources; \<open>num_get\<close>
  and \<open>stod\<close> are the standard library's conversions of decimal text to a \<open>double\<close>
  (\<open>stod\<close> is \<open>None\<close> where \<open>std::stod\<close> throws); \<open>double_of_bytes\<close> reads the eight
  bytes of a \<open>double\<close>. The type \<open>'d\<close> stands for \<open>double\<close>.
\<close>

record 'd conversions =
  tokenise :: "string \<Rightarrow> string list"
  num_get :: "string \<Rightarrow> 'd option \<times> string"
  stod :: "string \<Rightarrow> 'd option"
  double_of_bytes :: "string \<Rightarrow> 'd"

subsection \<open>Mesh blocks\<close>

text \<open>
  Modelled from the spec: the classes \<open>StructuredMeshBlock3D\<close> and \<open>StructuredMeshBlock2D\<close>
  are not among the sources. A block is a rectangular grid of coordinate tuples indexed
  by integer position \<open>(i, j, k)\<close> (or \<open>(i, j)\<close>) within its extents; a new block holds
  zeros. The parser reads and writes positions within the extents only.
\<close>

record 'd StructuredMeshBlock3D =
  extent3 :: "int \<times> int \<times> int"
  coords3 :: "int \<times> int \<times> int \<Rightarrow> 'd list"

record 'd StructuredMeshBlock2D =
  extent2 :: "int \<times> int"
  coords2 :: "int \<times> int \<Rightarrow> 'd list"

definition new_block3 :: "('d::zero) StructuredMeshBlock3D" where
  "new_block3 = \<lparr>extent3 = (0, 0, 0), coords3 = (\<lambda>ijk. [0, 0, 0])\<rparr>"

definition new_block2 :: "('d::zero) StructuredMeshBlock2D" where
  "new_block2 = \<lparr>extent2 = (0, 0), coords2 = (\<lambda>ij. [0, 0])\<rparr>"

definition set_extent3 :: "int \<times> int \<times> int \<Rightarrow> 'd StructuredMeshBlock3D \<Rightarrow> 'd StructuredMeshBlock3D" where
  "set_extent3 e m = m\<lparr>extent3 := e\<rparr>"

definition set_extent2 :: "int \<times> int \<Rightarrow> 'd StructuredMeshBlock2D \<Rightarrow> 'd StructuredMeshBlock2D" where
  "set_extent2 e m = m\<lparr>extent2 := e\<rparr>"

definition coord3 :: "'d StructuredMeshBlock3D \<Rightarrow> int \<times> int \<times> int \<Rightarrow> 'd list" where
  "coord3 m ijk = coords3 m ijk"

definition set_coord3 :: "int \<times> int \<times> int \<Rightarrow> 'd list \<Rightarrow> 'd StructuredMeshBlock3D \<Rightarrow> 'd StructuredMeshBlock3D" where
  "set_coord3 ijk c m = m\<lparr>coords3 := (coords3 m)(ijk := c)\<rparr>"

definition set_coord2 :: "int \<times> int \<Rightarrow> 'd list \<Rightarrow> 'd StructuredMeshBlock2D \<Rightarrow> 'd StructuredMeshBlock2D" where
  "set_coord2 ij c m = m\<lparr>coords2 := (coords2 m)(ij := c)\<rparr>"

subsection \<open>Consumers\<close>

text \<open>
  A registered function, \<open>std::function<bool(Block)>\<close>: it takes the block by value and
  may change whatever it captured. In the model it takes the block and the state \<open>'w\<close> of
  everything the registered functions can reach, and returns its flag, the value its own
  parameter had when it returned, and the new state. (A function that throws is not
  modelled.)
\<close>

type_synonym ('b, 'w) consumer = "'b \<Rightarrow> 'w \<Rightarrow> bool \<times> 'b \<times> 'w"

record ('d, 'w) Plot3DParser =
  single_block :: bool
  parse_as_binary :: bool
  number_of_dimensions :: int
  m_mesh_2d_functions :: "('d StructuredMeshBlock2D, 'w) consumer list"
  m_mesh_3d_functions :: "('d StructuredMeshBlock3D, 'w) consumer list"

text \<open>The constructor, and the two registration methods.\<close>

definition new_Plot3DParser :: "('d, 'w) Plot3DParser" where
  "new_Plot3DParser = \<lparr>single_block = False, parse_as_binary = True, number_of_dimensions = - 1,
     m_mesh_2d_functions = [], m_mesh_3d_functions = []\<rparr>"

definition add_2D_block_function ::
  "('d StructuredMeshBlock2D, 'w) consumer \<Rightarrow> ('d, 'w) Plot3DParser \<Rightarrow> ('d, 'w) Plot3DParser" where
  "add_2D_block_function func P = P\<lparr>m_mesh_2d_functions := m_mesh_2d_functions P @ [func]\<rparr>"

definition add_3D_block_function ::
  "('d StructuredMeshBlock3D, 'w) consumer \<Rightarrow> ('d, 'w) Plot3DParser \<Rightarrow> ('d, 'w) Plot3DParser" where
  "add_3D_block_function func P = P\<lparr>m_mesh_3d_functions := m_mesh_3d_functions P @ [func]\<rparr>"

text \<open>\<open>for (auto & function : functions) { if (!function(mesh)) break; }\<close>\<close>

fun run_functions :: "('b, 'w) consumer list \<Rightarrow> 'b \<Rightarrow> 'w \<Rightarrow> 'w" where
  "run_functions [] mesh w = w"
| "run_functions (function # functions) mesh w =
     (case function mesh w of
        (continue, parameter, w') \<Rightarrow> if \<not> continue then w' else run_functions functions mesh w')"

subsection \<open>Loops over a block\<close>

fun for_each :: "('a \<Rightarrow> 's \<Rightarrow> thrown option \<times> 's) \<Rightarrow> 'a list \<Rightarrow> 's \<Rightarrow> thrown option \<times> 's" where
  "for_each f [] s = (None, s)"
| "for_each f (x # xs) s = seq (f x s) (for_each f xs)"

text \<open>
  The positions in the order of the three nested loops of
  \<open>apply_function_to_input_array\<close>: \<open>k\<close> outermost, \<open>j\<close> in the middle, \<open>i\<close> innermost.
\<close>

definition kji_order :: "int \<Rightarrow> int \<Rightarrow> int \<Rightarrow> (int \<times> int \<times> int) list" where
  "kji_order i_ext j_ext k_ext =
     concat (map (\<lambda>k. concat (map (\<lambda>j. map (\<lambda>i. (i, j, k)) [0..i_ext - 1]) [0..j_ext - 1]))
               [0..k_ext - 1])"

definition apply_function_to_input_array ::
  "int \<Rightarrow> int \<Rightarrow> int \<Rightarrow> (int \<times> int \<times> int \<Rightarrow> 's \<Rightarrow> thrown option \<times> 's) \<Rightarrow> 's \<Rightarrow> thrown option \<times> 's" where
  "apply_function_to_input_array i_ext j_ext k_ext func s =
     for_each func (kji_order i_ext j_ext k_ext) s"

text \<open>
  The 2D block of a 3D block: \<open>i\<close> outermost, \<open>j\<close> innermost,
  \<open>mesh2d.coord({i, j}) = {coord[0], coord[1]}\<close> with \<open>coord = mesh.coord({i, j, 0})\<close>.
\<close>

definition ij_order :: "int \<Rightarrow> int \<Rightarrow> (int \<times> int) list" where
  "ij_order i_ext j_ext = concat (map (\<lambda>i. map (\<lambda>j. (i, j)) [0..j_ext - 1]) [0..i_ext - 1])"

definition project_2d :: "int \<Rightarrow> int \<Rightarrow> 'd StructuredMeshBlock3D \<Rightarrow> ('d::zero) StructuredMeshBlock2D" where
  "project_2d i_ext j_ext mesh =
     fold (\<lambda>(i, j) mesh2d. set_coord2 (i, j) [coord3 mesh (i, j, 0) ! 0, coord3 mesh (i, j, 0) ! 1] mesh2d)
       (ij_order i_ext j_ext) (set_extent2 (i_ext, j_ext) new_block2)"

text \<open>
  What both \<open>parse_ascii\<close> and \<open>parse_binary\<close> do with a block that has been read: the 3D
  functions get the block, or the 2D functions get its 2D block.
\<close>

definition dispatch ::
  "('d::zero, 'w) Plot3DParser \<Rightarrow> int \<Rightarrow> int \<Rightarrow> int \<Rightarrow> 'd StructuredMeshBlock3D \<Rightarrow> 'w \<Rightarrow> 'w" where
  "dispatch P dimensions i_ext j_ext mesh w =
     (if dimensions = 3 then run_functions (m_mesh_3d_functions P) mesh w
      else run_functions (m_mesh_2d_functions P) (project_2d i_ext j_ext mesh) w)"

subsection \<open>The local variables of a parse\<close>

text \<open>
  The stream, the record length kept by the \<open>FortranSequentialInputStream\<close> of
  \<open>parse_binary\<close>, and the line counter and the line buffer of \<open>parse_ascii\<close>. The loop
  over the blocks has, beside them, the state \<open>'w\<close> of what the registered functions
  can reach.
\<close>

record locals =
  input_stream :: istream
  fortran_input :: int
  line_number :: int
  this_line :: string

definition new_locals :: "istream \<Rightarrow> locals" where
  "new_locals s = \<lparr>input_stream = s, fortran_input = 0, line_number = 1, this_line = []\<rparr>"

subsection \<open>\<open>parse_ascii\<close> (src/Plot3DParser.cpp)\<close>

text \<open>\<open>std::getline(input_stream, this_line); line_number++;\<close>\<close>

definition next_line :: "locals \<Rightarrow> locals" where
  "next_line st =
     (case getline (input_stream st) (this_line st) of
        (line, s) \<Rightarrow> st\<lparr>input_stream := s, this_line := line, line_number := line_number st + 1\<rparr>)"

definition ascii_number_of_blocks :: "('d, 'w) Plot3DParser \<Rightarrow> locals \<Rightarrow> int \<times> locals" where
  "ascii_number_of_blocks P st =
     (if single_block P then (1, st)
      else (let st1 = next_line st in (atoi (this_line st1), st1)))"

fun stoi_all :: "string list \<Rightarrow> thrown + int list" where
  "stoi_all [] = Inr []"
| "stoi_all (str # strs) =
     (case stoi str of
        Inl e \<Rightarrow> Inl e
      | Inr v \<Rightarrow> (case stoi_all strs of Inl e \<Rightarrow> Inl e | Inr vs \<Rightarrow> Inr (v # vs)))"

text \<open>
  One turn of the loop over the extents lines; the result is the column
  \<open>extents[0][n], ..., extents[dimensions - 1][n]\<close>.
\<close>

definition ascii_extents_line ::
  "'d conversions \<Rightarrow> int \<Rightarrow> locals \<Rightarrow> (thrown + int list) \<times> locals" where
  "ascii_extents_line L dimensions st =
     (let st1 = next_line st; strings = tokenise L (this_line st1)
      in if int32 (int (length strings)) < dimensions then (Inl (ThrowInt (line_number st1)), st1)
         else (stoi_all (take (nat dimensions) strings), st1))"

fun ascii_extents ::
  "'d conversions \<Rightarrow> int \<Rightarrow> nat \<Rightarrow> locals \<Rightarrow> (thrown + int list list) \<times> locals" where
  "ascii_extents L dimensions 0 st = (Inr [], st)"
| "ascii_extents L dimensions (Suc n) st =
     (case ascii_extents_line L dimensions st of
        (Inl e, st1) \<Rightarrow> (Inl e, st1)
      | (Inr ext, st1) \<Rightarrow>
          (case ascii_extents L dimensions n st1 of
             (Inl e, st2) \<Rightarrow> (Inl e, st2)
           | (Inr exts, st2) \<Rightarrow> (Inr (ext # exts), st2)))"

text \<open>The lambda \<open>read_bin\<close> of \<open>parse_ascii\<close>.\<close>

definition read_bin_ascii ::
  "('d::zero) conversions \<Rightarrow> nat \<Rightarrow> int \<times> int \<times> int \<Rightarrow> istream \<times> 'd StructuredMeshBlock3D
     \<Rightarrow> thrown option \<times> (istream \<times> 'd StructuredMeshBlock3D)" where
  "read_bin_ascii L xyz_idx ijk s =
     (case s of (input, mesh) \<Rightarrow>
        (case extract_double (num_get L) input of
           (tmp_val, input') \<Rightarrow>
             (let coord = coord3 mesh ijk
              in (None, (input', set_coord3 ijk (coord[xyz_idx := tmp_val]) mesh)))))"

text \<open>
  One turn of the loop over the blocks, up to the point where the block is complete:
  the extents, \<open>set_extent\<close>, and the two or three passes over the positions.
\<close>

definition ascii_read_block ::
  "('d::zero) conversions \<Rightarrow> int \<Rightarrow> int list \<Rightarrow> locals
     \<Rightarrow> thrown option \<times> (locals \<times> 'd StructuredMeshBlock3D)" where
  "ascii_read_block L dimensions ext st =
     (let i_ext = ext ! 0; j_ext = ext ! 1; k_ext = (if dimensions = 3 then ext ! 2 else 1);
          mesh = set_extent3 (i_ext, j_ext, k_ext) new_block3
      in case seq (seq (apply_function_to_input_array i_ext j_ext k_ext (read_bin_ascii L 0)
                          (input_stream st, mesh))
                       (apply_function_to_input_array i_ext j_ext k_ext (read_bin_ascii L 1)))
                  (if dimensions = 3
                   then apply_function_to_input_array i_ext j_ext k_ext (read_bin_ascii L 2)
                   else (\<lambda>s. (None, s)))
         of (r, (s, mesh')) \<Rightarrow> (r, (st\<lparr>input_stream := s\<rparr>, mesh')))"

text \<open>One turn of the loop over the blocks: the complete block goes to the functions.\<close>

definition ascii_block ::
  "('d::zero) conversions \<Rightarrow> ('d, 'w) Plot3DParser \<Rightarrow> int \<Rightarrow> int list \<Rightarrow> locals \<times> 'w
     \<Rightarrow> thrown option \<times> (locals \<times> 'w)" where
  "ascii_block L P dimensions ext stw =
     (case ascii_read_block L dimensions ext (fst stw) of
        (Some e, (st, mesh)) \<Rightarrow> (Some e, (st, snd stw))
      | (None, (st, mesh)) \<Rightarrow>
          (None, (st, dispatch P dimensions (ext ! 0) (ext ! 1) mesh (snd stw))))"

text \<open>
  \<open>parse_ascii\<close>. The two \<open>assert\<close>s on \<open>dimensions\<close> come first. Everything else is
  inside \<open>try { ... } catch (...) { throw line_number; }\<close>: \<open>resize\<close> with a negative
  count converts it to an unsigned size beyond \<open>max_size()\<close> and throws
  \<open>std::length_error\<close>.
\<close>

definition parse_ascii ::
  "('d::zero) conversions \<Rightarrow> ('d, 'w) Plot3DParser \<Rightarrow> int \<Rightarrow> istream \<times> 'w
     \<Rightarrow> thrown option \<times> (istream \<times> 'w)" where
  "parse_ascii L P dimensions sw =
     (if \<not> (dimensions \<le> 3 \<and> 2 \<le> dimensions) then (Some AssertFailed, sw)
      else
        (case ascii_number_of_blocks P (new_locals (fst sw)) of
           (number_of_blocks, st1) \<Rightarrow>
             (case (if number_of_blocks < 0
                    then (Some (StdException ''length_error''), (st1, snd sw))
                    else (case ascii_extents L dimensions (nat number_of_blocks) st1 of
                            (Inl e, st2) \<Rightarrow> (Some e, (st2, snd sw))
                          | (Inr extents, st2) \<Rightarrow>
                              for_each (ascii_block L P dimensions) extents (st2, snd sw)))
              of (Some e, (st, w)) \<Rightarrow> (Some (ThrowInt (line_number st)), (input_stream st, w))
               | (None, (st, w)) \<Rightarrow> (None, (input_stream st, w)))))"

subsection \<open>\<open>parse_ascii\<close> (HBTK/Plot3DParser.cpp)\<close>

text \<open>
  The older source file reads every coordinate with \<open>std::getline\<close> and \<open>std::stod\<close>:
  \<open>std::getline(input_stream, this_line); line_number++;
   auto coord = mesh.coord(i, j, k); std::get<c>(coord) = std::stod(this_line);\<close>
  with \<open>c = 0\<close> in the first pass, \<open>c = 1\<close> in the second and, again, \<open>c = 1\<close> in the
  third. Whether an assignment to \<open>coord\<close> reaches the block depends on the return type
  of \<open>coord\<close>, which is not among the sources: \<open>by_reference\<close> says that it does (a
  tuple of references); otherwise \<open>coord\<close> is a copy and the block is left as it was.
\<close>

definition read_line_HBTK ::
  "'d conversions \<Rightarrow> bool \<Rightarrow> nat \<Rightarrow> int \<times> int \<times> int \<Rightarrow> locals \<times> 'd StructuredMeshBlock3D
     \<Rightarrow> thrown option \<times> (locals \<times> 'd StructuredMeshBlock3D)" where
  "read_line_HBTK L by_reference c ijk s =
     (case s of (st, mesh) \<Rightarrow>
        (let st1 = next_line st; coord = coord3 mesh ijk
         in case stod L (this_line st1) of
              None \<Rightarrow> (Some (StdException ''invalid_argument''), (st1, mesh))
            | Some v \<Rightarrow>
                (None, (st1, if by_reference then set_coord3 ijk (coord[c := v]) mesh else mesh))))"

definition ascii_read_block_HBTK ::
  "('d::zero) conversions \<Rightarrow> bool \<Rightarrow> int \<Rightarrow> int list \<Rightarrow> locals
     \<Rightarrow> thrown option \<times> (locals \<times> 'd StructuredMeshBlock3D)" where
  "ascii_read_block_HBTK L by_reference dimensions ext st =
     (let i_ext = ext ! 0; j_ext = ext ! 1; k_ext = (if dimensions = 3 then ext ! 2 else 1);
          mesh = set_extent3 (i_ext, j_ext, k_ext) new_block3
      in seq (seq (for_each (read_line_HBTK L by_reference 0) (kji_order i_ext j_ext k_ext)
                     (st, mesh))
                  (for_each (read_line_HBTK L by_reference 1) (kji_order i_ext j_ext k_ext)))
             (if dimensions = 3
              then for_each (read_line_HBTK L by_reference 1) (kji_order i_ext j_ext k_ext)
              else (\<lambda>s. (None, s))))"

definition ascii_block_HBTK ::
  "('d::zero) conversions \<Rightarrow> bool \<Rightarrow> ('d, 'w) Plot3DParser \<Rightarrow> int \<Rightarrow> int list \<Rightarrow> locals \<times> 'w
     \<Rightarrow> thrown option \<times> (locals \<times> 'w)" where
  "ascii_block_HBTK L by_reference P dimensions ext stw =
     (case ascii_read_block_HBTK L by_reference dimensions ext (fst stw) of
        (Some e, (st, mesh)) \<Rightarrow> (Some e, (st, snd stw))
      | (None, (st, mesh)) \<Rightarrow>
          (None, (st, dispatch P dimensions (ext ! 0) (ext ! 1) mesh (snd stw))))"

definition parse_ascii_HBTK ::
  "('d::zero) conversions \<Rightarrow> bool \<Rightarrow> ('d, 'w) Plot3DParser \<Rightarrow> int \<Rightarrow> istream \<times> 'w
     \<Rightarrow> thrown option \<times> (istream \<times> 'w)" where
  "parse_ascii_HBTK L by_reference P dimensions sw =
     (if \<not> (dimensions \<le> 3 \<and> 2 \<le> dimensions) then (Some AssertFailed, sw)
      else
        (case ascii_number_of_blocks P (new_locals (fst sw)) of
           (number_of_blocks, st1) \<Rightarrow>
             (case (if number_of_blocks < 0
                    then (Some (StdException ''length_error''), (st1, snd sw))
                    else (case ascii_extents L dimensions (nat number_of_blocks) st1 of
                            (Inl e, st2) \<Rightarrow> (Some e, (st2, snd sw))
                          | (Inr extents, st2) \<Rightarrow>
                              for_each (ascii_block_HBTK L by_reference P dimensions) extents
                                (st2, snd sw)))
              of (Some e, (st, w)) \<Rightarrow> (Some (ThrowInt (line_number st)), (input_stream st, w))
               | (None, (st, w)) \<Rightarrow> (None, (input_stream st, w)))))"

subsection \<open>Binary input and record framing\<close>

text \<open>
  Modelled from the spec: \<open>unpack_binary_to_struct\<close> is not among the sources. It reads
  as many bytes as its packed struct has (4 for \<open>int_buffer\<close>, 8 for \<open>double_buffer\<close>);
  a short read is a fatal malformed-stream condition.
\<close>

definition unpack_binary_to_struct :: "nat \<Rightarrow> istream \<Rightarrow> (thrown + string) \<times> istream" where
  "unpack_binary_to_struct n s =
     (let s1 = s\<lparr>history := history s @ [Unpack n]\<rparr>
      in if good s \<and> n \<le> length (chars s)
         then (Inr (take n (chars s)), s1\<lparr>chars := drop n (chars s)\<rparr>)
         else (Inl (StdException ''unpack_binary_to_struct''), s1\<lparr>good := False\<rparr>))"

text \<open>
  Modelled from the spec: the class \<open>FortranSequentialInputStream\<close> is not among the
  sources. \<open>record_open\<close> reads a fixed-width (4-byte) integer, the number of payload
  bytes that follow, and stores it as the expected record length. \<open>record_close\<close> reads
  the trailing integer and fails if it is not the value read at \<open>record_open\<close>. The
  reads in between are not looked at. A short read is a fatal malformed-stream
  condition.
\<close>

definition record_open :: "locals \<Rightarrow> thrown option \<times> locals" where
  "record_open st =
     (let s = input_stream st
      in if good s \<and> 4 \<le> length (chars s)
         then (let len = int_of_bytes (take 4 (chars s))
               in (None, st\<lparr>input_stream := s\<lparr>chars := drop 4 (chars s),
                                                history := history s @ [RecordOpen len]\<rparr>,
                             fortran_input := len\<rparr>))
         else (Some (StdException ''record_open''), st\<lparr>input_stream := s\<lparr>good := False\<rparr>\<rparr>))"

definition record_close :: "locals \<Rightarrow> thrown option \<times> locals" where
  "record_close st =
     (let s = input_stream st
      in if good s \<and> 4 \<le> length (chars s)
         then (let len = int_of_bytes (take 4 (chars s));
                   st1 = st\<lparr>input_stream := s\<lparr>chars := drop 4 (chars s),
                                                 history := history s @ [RecordClose len]\<rparr>\<rparr>
               in if len = fortran_input st then (None, st1)
                  else (Some (StdException ''record_close''), st1))
         else (Some (StdException ''record_close''), st\<lparr>input_stream := s\<lparr>good := False\<rparr>\<rparr>))"

subsection \<open>\<open>parse_binary\<close> (src/Plot3DParser.cpp)\<close>

text \<open>\<open>unpack_binary_to_struct(input_stream, int_buffer)\<close> and the value of \<open>int_buffer.value\<close>.\<close>

definition read_int :: "locals \<Rightarrow> (thrown + int) \<times> locals" where
  "read_int st =
     (case unpack_binary_to_struct 4 (input_stream st) of
        (Inl e, s) \<Rightarrow> (Inl e, st\<lparr>input_stream := s\<rparr>)
      | (Inr bytes, s) \<Rightarrow> (Inr (int_of_bytes bytes), st\<lparr>input_stream := s\<rparr>))"

definition binary_number_of_blocks ::
  "('d, 'w) Plot3DParser \<Rightarrow> locals \<Rightarrow> (thrown + int) \<times> locals" where
  "binary_number_of_blocks P st =
     (if single_block P then (Inr 1, st)
      else (case record_open st of
              (Some e, st1) \<Rightarrow> (Inl e, st1)
            | (None, st1) \<Rightarrow>
                (case read_int st1 of
                   (Inl e, st2) \<Rightarrow> (Inl e, st2)
                 | (Inr number_of_blocks, st2) \<Rightarrow>
                     (case record_close st2 of
                        (Some e, st3) \<Rightarrow> (Inl e, st3)
                      | (None, st3) \<Rightarrow>
                          if number_of_blocks < 1 then (Inl (ThrowInt (- 1)), st3)
                          else (Inr number_of_blocks, st3)))))"

text \<open>The inner loop over \<open>m\<close>, and the outer loop over \<open>n\<close>, of the extents table.\<close>

fun read_ints :: "nat \<Rightarrow> locals \<Rightarrow> (thrown + int list) \<times> locals" where
  "read_ints 0 st = (Inr [], st)"
| "read_ints (Suc m) st =
     (case read_int st of
        (Inl e, st1) \<Rightarrow> (Inl e, st1)
      | (Inr v, st1) \<Rightarrow>
          (case read_ints m st1 of
             (Inl e, st2) \<Rightarrow> (Inl e, st2)
           | (Inr vs, st2) \<Rightarrow> (Inr (v # vs), st2)))"

fun binary_extents :: "int \<Rightarrow> nat \<Rightarrow> locals \<Rightarrow> (thrown + int list list) \<times> locals" where
  "binary_extents dimensions 0 st = (Inr [], st)"
| "binary_extents dimensions (Suc n) st =
     (case read_ints (nat dimensions) st of
        (Inl e, st1) \<Rightarrow> (Inl e, st1)
      | (Inr ext, st1) \<Rightarrow>
          (case binary_extents dimensions n st1 of
             (Inl e, st2) \<Rightarrow> (Inl e, st2)
           | (Inr exts, st2) \<Rightarrow> (Inr (ext # exts), st2)))"

text \<open>The lambda \<open>read_bin\<close> of \<open>parse_binary\<close>.\<close>

definition read_bin_binary ::
  "'d conversions \<Rightarrow> nat \<Rightarrow> int \<times> int \<times> int \<Rightarrow> istream \<times> 'd StructuredMeshBlock3D
     \<Rightarrow> thrown option \<times> (istream \<times> 'd StructuredMeshBlock3D)" where
  "read_bin_binary L xyz_idx ijk s =
     (case s of (input, mesh) \<Rightarrow>
        (case unpack_binary_to_struct 8 input of
           (Inl e, input') \<Rightarrow> (Some e, (input', mesh))
         | (Inr bytes, input') \<Rightarrow>
             (let coord = coord3 mesh ijk
              in (None, (input', set_coord3 ijk (coord[xyz_idx := double_of_bytes L bytes]) mesh)))))"

text \<open>
  One turn of the loop over the blocks, up to the point where the block is complete:
  the extents, \<open>set_extent\<close>, \<open>record_open\<close>, and the two or three passes.
\<close>

definition binary_read_block ::
  "('d::zero) conversions \<Rightarrow> int \<Rightarrow> int list \<Rightarrow> locals
     \<Rightarrow> thrown option \<times> (locals \<times> 'd StructuredMeshBlock3D)" where
  "binary_read_block L dimensions ext st =
     (let i_ext = ext ! 0; j_ext = ext ! 1; k_ext = (if dimensions = 3 then ext ! 2 else 1);
          mesh = set_extent3 (i_ext, j_ext, k_ext) new_block3
      in case record_open st of
           (Some e, st1) \<Rightarrow> (Some e, (st1, mesh))
         | (None, st1) \<Rightarrow>
             (case seq (seq (apply_function_to_input_array i_ext j_ext k_ext (read_bin_binary L 0)
                               (input_stream st1, mesh))
                            (apply_function_to_input_array i_ext j_ext k_ext (read_bin_binary L 1)))
                       (if dimensions = 3
                        then apply_function_to_input_array i_ext j_ext k_ext (read_bin_binary L 2)
                        else (\<lambda>s. (None, s)))
              of (r, (s, mesh')) \<Rightarrow> (r, (st1\<lparr>input_stream := s\<rparr>, mesh'))))"

text \<open>
  One turn of the loop over the blocks: the complete block goes to the functions, and
  then the record is closed.
\<close>

definition binary_block ::
  "('d::zero) conversions \<Rightarrow> ('d, 'w) Plot3DParser \<Rightarrow> int \<Rightarrow> int list \<Rightarrow> locals \<times> 'w
     \<Rightarrow> thrown option \<times> (locals \<times> 'w)" where
  "binary_block L P dimensions ext stw =
     (case binary_read_block L dimensions ext (fst stw) of
        (Some e, (st, mesh)) \<Rightarrow> (Some e, (st, snd stw))
      | (None, (st, mesh)) \<Rightarrow>
          (let w = dispatch P dimensions (ext ! 0) (ext ! 1) mesh (snd stw)
           in case record_close st of (r, st1) \<Rightarrow> (r, (st1, w))))"

text \<open>
  \<open>parse_binary\<close>. Only the loop over the blocks is inside
  \<open>try { ... } catch (...) { throw 1; }\<close>; a failure before it leaves as it is.
\<close>

definition parse_binary ::
  "('d::zero) conversions \<Rightarrow> ('d, 'w) Plot3DParser \<Rightarrow> int \<Rightarrow> istream \<times> 'w
     \<Rightarrow> thrown option \<times> (istream \<times> 'w)" where
  "parse_binary L P dimensions sw =
     (if \<not> (1 < dimensions \<and> dimensions \<le> 3) then (Some AssertFailed, sw)
      else
        (case binary_number_of_blocks P (new_locals (fst sw)) of
           (Inl e, st1) \<Rightarrow> (Some e, (input_stream st1, snd sw))
         | (Inr number_of_blocks, st1) \<Rightarrow>
             (case record_open st1 of
                (Some e, st2) \<Rightarrow> (Some e, (input_stream st2, snd sw))
              | (None, st2) \<Rightarrow>
                  (case binary_extents dimensions (nat number_of_blocks) st2 of
                     (Inl e, st3) \<Rightarrow> (Some e, (input_stream st3, snd sw))
                   | (Inr extents, st3) \<Rightarrow>
                       (case record_close st3 of
                          (Some e, st4) \<Rightarrow> (Some e, (input_stream st4, snd sw))
                        | (None, st4) \<Rightarrow>
                            (case for_each (binary_block L P dimensions) extents (st4, snd sw) of
                               (Some e, (st5, w)) \<Rightarrow> (Some (ThrowInt 1), (input_stream st5, w))
                             | (None, (st5, w)) \<Rightarrow> (None, (input_stream st5, w))))))))"

section \<open>The unstructured mesh handed to the VTK writer\<close>

text \<open>
  \<open>VtkUnstructuredMeshHolder\<close>: an ordered list of points and an ordered list of cells,
  each cell a cell-type tag and the ordered list of its node indices.
\<close>

record cell =
  cell_type :: int
  node_ids :: "int list"

record 'p VtkUnstructuredMeshHolder =
  points :: "'p list"
  cells :: "cell list"

subsection \<open>The three scratch arrays of \<open>vtk_unstructured_cells\<close>\<close>

text \<open>
  \<open>for (int i = 0; i < (int)mesh.cells.size(); i++) scratch[i] = mesh.cells[i].cell_type;\<close>
\<close>

function types_loop :: "cell list \<Rightarrow> int \<Rightarrow> int list \<Rightarrow> int list" where
  "types_loop cs i scratch =
     (if 0 \<le> i \<and> i < int32 (int (length cs))
      then types_loop cs (i + 1) (scratch[nat i := cell_type (cs ! nat i)])
      else scratch)"
  by pat_completeness auto
termination
  by (relation "measure (\<lambda>(cs, i, scratch). nat (int32 (int (length cs)) - i))") auto

text \<open>
  \<open>int offset_counter = 0;
  for (int i = 0; i < (int)mesh.cells.size(); i++) {
    offset_counter += (int)mesh.cells[i].node_ids.size();
    scratch[i] = offset_counter; }\<close>
\<close>

function offsets_loop :: "cell list \<Rightarrow> int \<Rightarrow> int \<Rightarrow> int list \<Rightarrow> int list" where
  "offsets_loop cs i offset_counter scratch =
     (if 0 \<le> i \<and> i < int32 (int (length cs))
      then (let offset_counter' =
                  int32 (offset_counter + int32 (int (length (node_ids (cs ! nat i)))))
            in offsets_loop cs (i + 1) offset_counter' (scratch[nat i := offset_counter']))
      else scratch)"
  by pat_completeness auto
termination
  by (relation "measure (\<lambda>(cs, i, c, scratch). nat (int32 (int (length cs)) - i))") auto

text \<open>
  \<open>scratch.clear();
  for (auto & cell : mesh.cells) for (auto & node : cell.node_ids) scratch.push_back(node);\<close>
\<close>

fun push_nodes :: "int list \<Rightarrow> int list \<Rightarrow> int list" where
  "push_nodes [] scratch = scratch"
| "push_nodes (node # nodes) scratch = push_nodes nodes (scratch @ [node])"

fun connectivity_loop :: "cell list \<Rightarrow> int list \<Rightarrow> int list" where
  "connectivity_loop [] scratch = scratch"
| "connectivity_loop (c # cs) scratch = connectivity_loop cs (push_nodes (node_ids c) scratch)"

text \<open>
  The arrays that \<open>vtk_unstructured_cells\<close> passes to \<open>vtk_data_array\<close> under the names
  \<open>types\<close>, \<open>offsets\<close> and \<open>connectivity\<close>. The scratch vector is created with one entry
  per cell (value-initialised to 0), filled with the types, overwritten in place with
  the offsets, then cleared and refilled with the node indices.
\<close>

definition cells_types :: "'p VtkUnstructuredMeshHolder \<Rightarrow> int list" where
  "cells_types mesh = types_loop (cells mesh) 0 (replicate (length (cells mesh)) 0)"

definition cells_offsets :: "'p VtkUnstructuredMeshHolder \<Rightarrow> int list" where
  "cells_offsets mesh = offsets_loop (cells mesh) 0 0 (cells_types mesh)"

definition cells_connectivity :: "'p VtkUnstructuredMeshHolder \<Rightarrow> int list" where
  "cells_connectivity mesh = connectivity_loop (cells mesh) []"

text \<open>The number of nodes of the cells \<open>0..i\<close> (inclusive), as a mathematical integer.\<close>

definition nodes_upto :: "cell list \<Rightarrow> nat \<Rightarrow> int" where
  "nodes_upto cs i = int (sum_list (map (\<lambda>c. length (node_ids c)) (take (Suc i) cs)))"

definition total_nodes :: "cell list \<Rightarrow> nat" where
  "total_nodes cs = sum_list (map (\<lambda>c. length (node_ids c)) cs)"

declare types_loop.simps [simp del] offsets_loop.simps [simp del]

section \<open>The VTK writer\<close>

subsection \<open>Output and the tag writer\<close>

text \<open>
  The output stream is the list of what was written to it, oldest first: the XML
  declaration, an opening tag with its attributes, a closing tag, or one character.
\<close>

datatype xml_item =
    XmlHeader string string
  | OpenTag string "(string \<times> string) list"
  | CloseTag string
  | Ch char

text \<open>
  Modelled from the spec: the class of \<open>m_xml_writer\<close> (the tag writer adapter, which
  emits nested, attributed markup) is not among the sources. Its state is the stack of
  the tags that are open, innermost first; \<open>close_tag\<close> closes the innermost one, and
  writes nothing when no tag is open.
\<close>

type_synonym xml_writer = "string list"

definition xml_header_item :: "string \<Rightarrow> string \<Rightarrow> xml_item list \<Rightarrow> xml_item list" where
  "xml_header_item version encoding out = out @ [XmlHeader version encoding]"

definition xml_open_tag ::
  "string \<Rightarrow> (string \<times> string) list \<Rightarrow> xml_writer \<times> xml_item list \<Rightarrow> xml_writer \<times> xml_item list" where
  "xml_open_tag name attrs s = (case s of (stack, out) \<Rightarrow> (name # stack, out @ [OpenTag name attrs]))"

definition xml_close_tag :: "xml_writer \<times> xml_item list \<Rightarrow> xml_writer \<times> xml_item list" where
  "xml_close_tag s =
     (case s of (stack, out) \<Rightarrow>
        (case stack of [] \<Rightarrow> ([], out) | name # rest \<Rightarrow> (rest, out @ [CloseTag name])))"

subsection \<open>Decimal text and raw bytes\<close>

definition digit_char :: "nat \<Rightarrow> char" where
  "digit_char n = ''0123456789'' ! n"

function nat_to_string :: "nat \<Rightarrow> string" where
  "nat_to_string n =
     (if n < 10 then [digit_char n] else nat_to_string (n div 10) @ [digit_char (n mod 10)])"
  by pat_completeness auto
termination
  by (relation "measure (\<lambda>n. n)") auto

declare nat_to_string.simps [simp del]

text \<open>\<open>std::to_string\<close> of an \<open>int\<close>, and \<open>out << i\<close> for an \<open>int\<close>.\<close>

definition to_string :: "int \<Rightarrow> string" where
  "to_string i = (if i < 0 then CHR ''-'' # nat_to_string (nat (- i)) else nat_to_string (nat i))"

text \<open>The \<open>n\<close> low bytes of \<open>v\<close>, least significant first (the host is little-endian).\<close>

fun le_bytes :: "nat \<Rightarrow> nat \<Rightarrow> string" where
  "le_bytes 0 v = []"
| "le_bytes (Suc n) v = char_of (v mod 256) # le_bytes n (v div 256)"

text \<open>The eight bytes of an \<open>int64_t\<close> / \<open>uint64_t\<close> holding \<open>x\<close>.\<close>

definition int64_bytes :: "int \<Rightarrow> string" where
  "int64_bytes x = le_bytes 8 (nat (x mod 18446744073709551616))"

text \<open>
  What the writer takes from outside the sources: how a \<open>double\<close> is printed at a
  precision (\<open>out << std::setprecision(p) << d\<close>), the eight bytes of a \<open>double\<close> in
  memory, and \<open>HBTK::encode_base64 (data, n_bytes)\<close>, of which only the declaration
  is among the sources. The type \<open>'d\<close> stands for \<open>double\<close>.
\<close>

record 'd codec =
  put_double :: "int \<Rightarrow> 'd \<Rightarrow> string"
  double_bytes :: "'d \<Rightarrow> string"
  encode_base64 :: "string \<Rightarrow> int \<Rightarrow> string"

subsection \<open>The writer object and the dataset\<close>

datatype vtk_file_type = NoFileType | UnstructuredGrid | OtherFileType

record VtkWriter =
  m_written_xml_header :: bool
  m_file_type :: vtk_file_type
  ascii :: bool
  appended :: bool
  write_precision :: int
  m_appended_data :: "string list"
  m_xml_writer :: xml_writer

text \<open>The constructor.\<close>

definition new_VtkWriter :: VtkWriter where
  "new_VtkWriter = \<lparr>m_written_xml_header = False, m_file_type = NoFileType, ascii = False,
     appended = True, write_precision = 6, m_appended_data = [], m_xml_writer = []\<rparr>"

text \<open>
  The four overloads of \<open>vtk_data_array\<close> and of \<open>vtk_data_array_generate_buffer\<close> differ
  in the type of the vector they take; the model has one function and a constructor for
  each overload. A point and a vector are their three components (\<open>as_array()\<close>).
\<close>

datatype 'd data_array =
    Scalars "'d list"
  | Integers "int list"
  | Vectors "('d \<times> 'd \<times> 'd) list"
  | Points "('d \<times> 'd \<times> 'd) list"

record 'd VtkUnstructuredDataset =
  mesh :: "('d \<times> 'd \<times> 'd) VtkUnstructuredMeshHolder"
  integer_point_data :: "(string \<times> int list) list"
  scalar_point_data :: "(string \<times> 'd list) list"
  vector_point_data :: "(string \<times> ('d \<times> 'd \<times> 'd) list) list"
  integer_cell_data :: "(string \<times> int list) list"
  scalar_cell_data :: "(string \<times> 'd list) list"
  vector_cell_data :: "(string \<times> ('d \<times> 'd \<times> 'd) list) list"

type_synonym wstate = "VtkWriter \<times> xml_item list"

text \<open>Calls of \<open>m_xml_writer\<close> from the writer's methods.\<close>

definition open_tag :: "string \<Rightarrow> (string \<times> string) list \<Rightarrow> wstate \<Rightarrow> wstate" where
  "open_tag name attrs s =
     (case s of (w, out) \<Rightarrow>
        (case xml_open_tag name attrs (m_xml_writer w, out) of
           (x, out') \<Rightarrow> (w\<lparr>m_xml_writer := x\<rparr>, out')))"

definition close_tag :: "wstate \<Rightarrow> wstate" where
  "close_tag s =
     (case s of (w, out) \<Rightarrow>
        (case xml_close_tag (m_xml_writer w, out) of
           (x, out') \<Rightarrow> (w\<lparr>m_xml_writer := x\<rparr>, out')))"

definition put_chars :: "string \<Rightarrow> wstate \<Rightarrow> wstate" where
  "put_chars cs s = (case s of (w, out) \<Rightarrow> (w, out @ map Ch cs))"

subsection \<open>Data arrays\<close>

text \<open>\<open>int acc = 0; for (auto & arr : m_appended_data) acc += (int)arr.size();\<close>\<close>

fun bytelength_loop :: "string list \<Rightarrow> int \<Rightarrow> int" where
  "bytelength_loop [] acc = acc"
| "bytelength_loop (arr # arrs) acc = bytelength_loop arrs (int32 (acc + int32 (int (length arr))))"

definition appended_data_bytelength :: "VtkWriter \<Rightarrow> int" where
  "appended_data_bytelength w = bytelength_loop (m_appended_data w) 0"

definition vtk_data_array_format_options :: "VtkWriter \<Rightarrow> thrown + (string \<times> string) list" where
  "vtk_data_array_format_options w =
     (if appended w then
        (if ascii w then Inl Terminate
         else Inr [(''format'', ''appended''),
                   (''Offset'', to_string (appended_data_bytelength w))])
      else (if ascii w then Inr [(''format'', ''ascii'')] else Inr [(''format'', ''binary'')]))"

definition triple_list :: "'d \<times> 'd \<times> 'd \<Rightarrow> 'd list" where
  "triple_list p = (case p of (x, y, z) \<Rightarrow> [x, y, z])"

text \<open>The text of an array in ascii mode: the first branch of each overload.\<close>

definition ascii_buffer :: "'d codec \<Rightarrow> int \<Rightarrow> 'd data_array \<Rightarrow> string" where
  "ascii_buffer E prec arr =
     (case arr of
        Scalars scalars \<Rightarrow> concat (map (\<lambda>sca. put_double E prec sca @ [newline]) scalars)
      | Integers integers \<Rightarrow> concat (map (\<lambda>sca. to_string sca @ [newline]) integers)
      | Vectors vectors \<Rightarrow>
          concat (map (\<lambda>vect. concat (map (\<lambda>doub. put_double E prec doub @ '' '')
                                             (triple_list vect)) @ [newline]) vectors)
      | Points pnts \<Rightarrow>
          concat (map (\<lambda>pnt. concat (map (\<lambda>doub. put_double E prec doub @ '' '')
                                           (triple_list pnt)) @ [newline]) pnts))"

text \<open>
  The bytes of an array in binary mode, before the base64 encoding: the length of the
  payload in bytes as a \<open>uint64_t\<close>, then the values, eight bytes each.
\<close>

definition raw_buffer :: "'d codec \<Rightarrow> 'd data_array \<Rightarrow> string" where
  "raw_buffer E arr =
     (case arr of
        Scalars scalars \<Rightarrow>
          int64_bytes (8 * int (length scalars)) @ concat (map (double_bytes E) scalars)
      | Integers integers \<Rightarrow>
          int64_bytes (8 * int (length integers)) @ concat (map int64_bytes integers)
      | Vectors vectors \<Rightarrow>
          int64_bytes (8 * int (length vectors) * 3)
            @ concat (map (\<lambda>vec. concat (map (double_bytes E) (triple_list vec))) vectors)
      | Points pnts \<Rightarrow>
          int64_bytes (8 * int (length pnts) * 3)
            @ concat (map (\<lambda>pnt. concat (map (double_bytes E) (triple_list pnt))) pnts))"

definition vtk_data_array_generate_buffer ::
  "'d codec \<Rightarrow> 'd data_array \<Rightarrow> VtkWriter \<Rightarrow> string \<times> VtkWriter" where
  "vtk_data_array_generate_buffer E arr w =
     (let buffer =
            (if ascii w then ascii_buffer E (write_precision w) arr
             else encode_base64 E (raw_buffer E arr) (int32 (int (length (raw_buffer E arr)))))
      in (buffer,
          if appended w then w\<lparr>m_appended_data := m_appended_data w @ [buffer]\<rparr> else w))"

definition array_type :: "'d data_array \<Rightarrow> string" where
  "array_type arr = (case arr of Integers _ \<Rightarrow> ''Int64'' | _ \<Rightarrow> ''Float64'')"

definition array_components :: "'d data_array \<Rightarrow> string" where
  "array_components arr =
     (case arr of Scalars _ \<Rightarrow> ''1'' | Integers _ \<Rightarrow> ''1'' | Vectors _ \<Rightarrow> ''3'' | Points _ \<Rightarrow> ''3'')"

definition vtk_data_array ::
  "'d codec \<Rightarrow> string \<Rightarrow> 'd data_array \<Rightarrow> wstate \<Rightarrow> thrown option \<times> wstate" where
  "vtk_data_array E name arr s =
     (let xml_params = [(''type'', array_type arr), (''Name'', name),
                        (''NumberOfComponents'', array_components arr)]
      in case vtk_data_array_format_options (fst s) of
           Inl e \<Rightarrow> (Some e, s)
         | Inr format_params \<Rightarrow>
             (case open_tag ''DataArray'' (xml_params @ format_params) s of
                (w1, out1) \<Rightarrow>
                  (case vtk_data_array_generate_buffer E arr w1 of
                     (data, w2) \<Rightarrow>
                       (None, close_tag (if \<not> appended w2 then put_chars data (w2, out1)
                                         else (w2, out1))))))"

fun data_arrays ::
  "'d codec \<Rightarrow> (string \<times> 'd data_array) list \<Rightarrow> wstate \<Rightarrow> thrown option \<times> wstate" where
  "data_arrays E [] s = (None, s)"
| "data_arrays E (entry # entries) s =
     seq (vtk_data_array E (fst entry) (snd entry) s) (data_arrays E entries)"

subsection \<open>Pieces\<close>

definition vtk_unstructured_piece :: "int \<Rightarrow> int \<Rightarrow> wstate \<Rightarrow> wstate" where
  "vtk_unstructured_piece num_points num_cells s =
     open_tag ''Piece'' [(''NumberOfPoints'', to_string num_points),
                         (''NumberOfCells'', to_string num_cells)] s"

definition vtk_unstructured_cells ::
  "'d codec \<Rightarrow> ('d \<times> 'd \<times> 'd) VtkUnstructuredMeshHolder \<Rightarrow> wstate \<Rightarrow> thrown option \<times> wstate" where
  "vtk_unstructured_cells E m s =
     seq (seq (seq (vtk_data_array E ''types'' (Integers (cells_types m)) (open_tag ''Cells'' [] s))
                   (vtk_data_array E ''offsets'' (Integers (cells_offsets m))))
              (vtk_data_array E ''connectivity'' (Integers (cells_connectivity m))))
         (\<lambda>s. (None, close_tag s))"

definition vtk_unstructured_mesh ::
  "'d codec \<Rightarrow> ('d \<times> 'd \<times> 'd) VtkUnstructuredMeshHolder \<Rightarrow> wstate \<Rightarrow> thrown option \<times> wstate" where
  "vtk_unstructured_mesh E m s =
     seq (seq (vtk_data_array E ''Points'' (Points (points m)) (open_tag ''Points'' [] s))
              (\<lambda>s. (None, close_tag s)))
         (vtk_unstructured_cells E m)"

definition vtk_unstructured_point_data ::
  "'d codec \<Rightarrow> 'd VtkUnstructuredDataset \<Rightarrow> wstate \<Rightarrow> thrown option \<times> wstate" where
  "vtk_unstructured_point_data E data s =
     seq (seq (seq (data_arrays E (map (\<lambda>(n, a). (n, Integers a)) (integer_point_data data))
                      (open_tag ''PointData'' [] s))
                   (data_arrays E (map (\<lambda>(n, a). (n, Scalars a)) (scalar_point_data data))))
              (data_arrays E (map (\<lambda>(n, a). (n, Vectors a)) (vector_point_data data))))
         (\<lambda>s. (None, close_tag s))"

definition vtk_unstructured_cell_data ::
  "'d codec \<Rightarrow> 'd VtkUnstructuredDataset \<Rightarrow> wstate \<Rightarrow> thrown option \<times> wstate" where
  "vtk_unstructured_cell_data E data s =
     seq (seq (seq (data_arrays E (map (\<lambda>(n, a). (n, Integers a)) (integer_cell_data data))
                      (open_tag ''CellData'' [] s))
                   (data_arrays E (map (\<lambda>(n, a). (n, Scalars a)) (scalar_cell_data data))))
              (data_arrays E (map (\<lambda>(n, a). (n, Vectors a)) (vector_cell_data data))))
         (\<lambda>s. (None, close_tag s))"

text \<open>
  \<open>write_piece\<close>. The two \<open>assert\<close>s stop a build with assertions (\<open>ndebug = False\<close>) and
  are no code in a build without them (\<open>ndebug = True\<close>).
\<close>

definition write_piece ::
  "bool \<Rightarrow> 'd codec \<Rightarrow> 'd VtkUnstructuredDataset \<Rightarrow> wstate \<Rightarrow> thrown option \<times> wstate" where
  "write_piece ndebug E data s =
     (if \<not> ndebug \<and> m_file_type (fst s) = NoFileType then (Some AssertFailed, s)
      else if \<not> ndebug \<and> ascii (fst s) \<and> appended (fst s) then (Some AssertFailed, s)
      else if m_file_type (fst s) \<noteq> UnstructuredGrid then
        (Some (StdException ''HBTK::Vtk::VtkWriter::write_piece''), s)
      else
        seq (seq (seq (vtk_unstructured_mesh E (mesh data)
                         (vtk_unstructured_piece (int32 (int (length (points (mesh data)))))
                            (int32 (int (length (cells (mesh data))))) s))
                      (vtk_unstructured_point_data E data))
                 (vtk_unstructured_cell_data E data))
            (\<lambda>s. (None, close_tag s)))"

subsection \<open>Opening and closing a file\<close>

definition xml_header :: "wstate \<Rightarrow> wstate" where
  "xml_header s = (case s of (w, out) \<Rightarrow> (w, xml_header_item ''1.0'' ''UTF-8'' out))"

definition vtk_unstructured_file_header :: "wstate \<Rightarrow> wstate" where
  "vtk_unstructured_file_header s =
     open_tag ''UnstructuredGrid'' []
       (open_tag ''VTKFile'' [(''type'', ''UnstructuredGrid''), (''version'', ''1.0''),
                              (''byte_order'', ''LittleEndian''), (''header_type'', ''UInt64'')] s)"

definition open_file :: "vtk_file_type \<Rightarrow> wstate \<Rightarrow> thrown option \<times> wstate" where
  "open_file file_type s =
     (let s1 = (if \<not> m_written_xml_header (fst s) then xml_header s else s)
      in case file_type of
           UnstructuredGrid \<Rightarrow>
             (case vtk_unstructured_file_header s1 of
                (w, out) \<Rightarrow> (None, (w\<lparr>m_file_type := file_type\<rparr>, out)))
         | _ \<Rightarrow> (Some (StdException ''HBTK::Vtk::VtkWriter::open_file''), s1))"

definition close_file :: "wstate \<Rightarrow> wstate" where
  "close_file s =
     (let s1 = close_tag s;
          s2 = (if int32 (int (length (m_appended_data (fst s1)))) \<noteq> 0 then
                  close_tag
                    (put_chars (concat (m_appended_data (fst s1)))
                       (put_chars ''_''
                          (open_tag ''AppendedData''
                             [(''encoding'', if ascii (fst s1) then ''ascii'' else ''base64'')] s1)))
                else s1)
      in close_tag s2)"

section \<open>Observations and concrete inputs\<close>

text \<open>
  The characters at the head of an output, up to the first item that is no character;
  and the payload of the first \<open>DataArray\<close> element of an output whose \<open>Name\<close> attribute
  is \<open>name\<close>: the characters written between its opening tag and the next tag.
\<close>

fun payload_chars :: "xml_item list \<Rightarrow> string" where
  "payload_chars (Ch c # items) = c # payload_chars items"
| "payload_chars items = []"

fun array_text :: "string \<Rightarrow> xml_item list \<Rightarrow> string option" where
  "array_text name [] = None"
| "array_text name (OpenTag tag attrs # items) =
     (if tag = ''DataArray'' \<and> map_of attrs ''Name'' = Some name then Some (payload_chars items)
      else array_text name items)"
| "array_text name (item # items) = array_text name items"

text \<open>Integers as text, one to a line.\<close>

definition int_lines :: "int list \<Rightarrow> string" where
  "int_lines xs = concat (map (\<lambda>x. to_string x @ [newline]) xs)"

text \<open>
  The payload of an array of integers: its text, or the base64 encoding of its bytes
  (the length of the values in bytes, then the values, eight bytes each).
\<close>

definition integers_payload :: "'d codec \<Rightarrow> VtkWriter \<Rightarrow> int list \<Rightarrow> string" where
  "integers_payload E w xs =
     (if ascii w then int_lines xs
      else encode_base64 E (int64_bytes (8 * int (length xs)) @ concat (map int64_bytes xs))
             (int32 (int (length (int64_bytes (8 * int (length xs)) @ concat (map int64_bytes xs))))))"

text \<open>The items that one array written inline adds to the output.\<close>

definition inline_items :: "'d codec \<Rightarrow> VtkWriter \<Rightarrow> string \<Rightarrow> 'd data_array \<Rightarrow> xml_item list" where
  "inline_items E w name arr =
     OpenTag ''DataArray''
       [(''type'', array_type arr), (''Name'', name),
        (''NumberOfComponents'', array_components arr),
        (''format'', if ascii w then ''ascii'' else ''binary'')]
     # map Ch (fst (vtk_data_array_generate_buffer E arr w)) @ [CloseTag ''DataArray'']"

text \<open>The running totals of the node counts, and all node indices in order.\<close>

definition running_totals :: "cell list \<Rightarrow> int list" where
  "running_totals cs = map (nodes_upto cs) [0..<length cs]"

definition all_nodes :: "cell list \<Rightarrow> int list" where
  "all_nodes cs = concat (map node_ids cs)"

text \<open>
  A step that, in appended mode (and not ascii), returns normally and puts the buffers
  \<open>bs\<close> behind those that the writer holds, changing nothing else of the writer.
\<close>

definition submits :: "(wstate \<Rightarrow> thrown option \<times> wstate) \<Rightarrow> (VtkWriter \<Rightarrow> string list) \<Rightarrow> bool" where
  "submits f bs \<longleftrightarrow>
     (\<forall>w out. appended w \<and> \<not> ascii w \<longrightarrow>
        (\<exists>out'. f (w, out) = (None, (w\<lparr>m_appended_data := m_appended_data w @ bs w\<rparr>, out'))))"

text \<open>Buffers that depend on the encoding settings of the writer only.\<close>

definition settings_only :: "(VtkWriter \<Rightarrow> string list) \<Rightarrow> bool" where
  "settings_only bs \<longleftrightarrow>
     (\<forall>w x y. bs (w\<lparr>m_appended_data := x\<rparr>) = bs w \<and> bs (w\<lparr>m_xml_writer := y\<rparr>) = bs w)"

text \<open>
  A stand-in for what the writer takes from outside the sources, on \<open>int\<close> in the place
  of \<open>double\<close>: numbers print as integers, take eight bytes, and the encoder returns its
  input (so the length of a buffer is the length of its raw bytes).
\<close>

definition demo_codec :: "int codec" where
  "demo_codec = \<lparr>put_double = (\<lambda>prec d. to_string d), double_bytes = int64_bytes,
                  encode_base64 = (\<lambda>data n_bytes. take (nat n_bytes) data)\<rparr>"

definition demo_dataset :: "int VtkUnstructuredDataset" where
  "demo_dataset = \<lparr>mesh = \<lparr>points = [(0, 0, 0), (1, 0, 0), (0, 1, 0)],
                           cells = [\<lparr>cell_type = 5, node_ids = [0, 1, 2]\<rparr>]\<rparr>,
                    integer_point_data = [], scalar_point_data = [], vector_point_data = [],
                    integer_cell_data = [], scalar_cell_data = [], vector_cell_data = []\<rparr>"

text \<open>
  A dataset of four points and two cells, a triangle and a line, and a writer that is
  open and writes its arrays inline as text.
\<close>

definition two_cells :: "int VtkUnstructuredDataset" where
  "two_cells = \<lparr>mesh = \<lparr>points = [(0, 0, 0), (1, 0, 0), (0, 1, 0), (1, 1, 0)],
                        cells = [\<lparr>cell_type = 5, node_ids = [0, 1, 2]\<rparr>,
                                 \<lparr>cell_type = 3, node_ids = [2, 3]\<rparr>]\<rparr>,
                 integer_point_data = [(''offsets'', [9, 9, 9, 9])],
                 scalar_point_data = [], vector_point_data = [],
                 integer_cell_data = [], scalar_cell_data = [], vector_cell_data = []\<rparr>"

definition text_writer :: VtkWriter where
  "text_writer = new_VtkWriter\<lparr>m_file_type := UnstructuredGrid, ascii := True, appended := False\<rparr>"

text \<open>The \<open>Offset\<close> attribute of every \<open>DataArray\<close> tag of an output, in order.\<close>

fun data_array_offsets :: "xml_item list \<Rightarrow> string option list" where
  "data_array_offsets [] = []"
| "data_array_offsets (OpenTag name attrs # items) =
     (if name = ''DataArray'' then map_of attrs ''Offset'' # data_array_offsets items
      else data_array_offsets items)"
| "data_array_offsets (item # items) = data_array_offsets items"

text \<open>Whether an item is a \<open>DataArray\<close> tag or a character of a payload.\<close>

fun is_array_output :: "xml_item \<Rightarrow> bool" where
  "is_array_output (OpenTag name attrs) = (name = ''DataArray'')"
| "is_array_output (Ch c) = True"
| "is_array_output item = False"

text \<open>The total length of a list of buffers, as a mathematical integer.\<close>

definition buffers_bytes :: "string list \<Rightarrow> nat" where
  "buffers_bytes bufs = sum_list (map length bufs)"

text \<open>A session: a new writer, \<open>open_file\<close>, one \<open>write_piece\<close>.\<close>

definition demo_session :: wstate where
  "demo_session =
     snd (write_piece True demo_codec demo_dataset
            (snd (open_file UnstructuredGrid (new_VtkWriter, []))))"

text \<open>
  The same writer object used for a second file: the first session is closed, and the
  writer opens a second file on a new output stream; then it writes the same piece
  again.
\<close>

definition first_session :: wstate where
  "first_session = close_file demo_session"

definition second_open :: wstate where
  "second_open = snd (open_file UnstructuredGrid (fst first_session, []))"

definition second_session :: wstate where
  "second_session = snd (write_piece True demo_codec demo_dataset second_open)"

definition demo_ascii_appended :: VtkWriter where
  "demo_ascii_appended = new_VtkWriter\<lparr>m_file_type := UnstructuredGrid, ascii := True\<rparr>"

text \<open>
  The output and the writer agree on the offsets: the \<open>DataArray\<close> tags written so far
  are as many as the buffers submitted so far, and the \<open>k\<close>-th of them carries the total
  length of the \<open>k\<close> buffers submitted before it.
\<close>

definition offsets_consistent :: "wstate \<Rightarrow> bool" where
  "offsets_consistent s \<longleftrightarrow>
     data_array_offsets (snd s) =
       map (\<lambda>k. Some (to_string (int (buffers_bytes (take k (m_appended_data (fst s)))))))
         [0..<length (m_appended_data (fst s))]"

text \<open>
  What every step of a piece does in appended, non-ascii mode: it stays in that mode,
  it only adds buffers behind those submitted before, and it keeps output and writer
  in agreement on the offsets as long as all buffers together are no longer than an
  \<open>int\<close> holds.
\<close>

definition appended_step :: "(wstate \<Rightarrow> thrown option \<times> wstate) \<Rightarrow> bool" where
  "appended_step f \<longleftrightarrow>
     (\<forall>s. appended (fst s) \<and> \<not> ascii (fst s) \<longrightarrow>
        appended (fst (snd (f s))) \<and> \<not> ascii (fst (snd (f s)))
        \<and> take (length (m_appended_data (fst s))) (m_appended_data (fst (snd (f s))))
            = m_appended_data (fst s)
        \<and> (offsets_consistent s
             \<and> int (buffers_bytes (m_appended_data (fst (snd (f s))))) \<le> INT_MAX
             \<longrightarrow> offsets_consistent (snd (f s))))"

text \<open>A step that, when it returns normally, leaves the stack of open tags as it was.\<close>

definition balanced :: "(wstate \<Rightarrow> thrown option \<times> wstate) \<Rightarrow> bool" where
  "balanced f \<longleftrightarrow>
     (\<forall>s. fst (f s) = None \<longrightarrow> m_xml_writer (fst (snd (f s))) = m_xml_writer (fst s))"

text \<open>
  A stand-in for what the parser takes from outside the sources, on \<open>int\<close> in the place
  of \<open>double\<close>: tokens are separated by white space, and a number is a run of decimal
  digits.
\<close>

fun split_tokens :: "string \<Rightarrow> string \<Rightarrow> string list" where
  "split_tokens [] tok = (if tok = [] then [] else [tok])"
| "split_tokens (c # cs) tok =
     (if isspace c then (if tok = [] then split_tokens cs [] else tok # split_tokens cs [])
      else split_tokens cs (tok @ [c]))"

definition demo_conversions :: "int conversions" where
  "demo_conversions =
     \<lparr>tokenise = (\<lambda>line. split_tokens line []),
      num_get = (\<lambda>cs. if takeWhile isdigit cs = [] then (None, cs)
                       else (Some (digits_value (takeWhile isdigit cs) 0), dropWhile isdigit cs)),
      stod = (\<lambda>line. if takeWhile isdigit line = [] then None
                       else Some (digits_value (takeWhile isdigit line) 0)),
      double_of_bytes = (\<lambda>bytes. int (le_value bytes))\<rparr>"

text \<open>
  A registered function that writes down its number and the block it was given,
  returns what \<open>p\<close> says of the block, and leaves its own parameter as \<open>g\<close> makes it.
\<close>

definition logger :: "nat \<Rightarrow> ('b \<Rightarrow> bool) \<Rightarrow> ('b \<Rightarrow> 'b) \<Rightarrow> ('b, (nat \<times> 'b) list) consumer" where
  "logger n p g = (\<lambda>block w. (p block, g block, w @ [(n, block)]))"

text \<open>Lines of text, each ended by a newline.\<close>

definition text_lines :: "string list \<Rightarrow> string" where
  "text_lines ls = concat (map (\<lambda>l. l @ [newline]) ls)"

text \<open>
  A function wrapped so that it also writes down the block it was given: the state
  gets a second component, the list of the blocks seen.
\<close>

definition spy :: "('b, 'w) consumer \<Rightarrow> ('b, 'w \<times> 'b list) consumer" where
  "spy f = (\<lambda>block ws. case f block (fst ws) of
                          (continue, parameter, w) \<Rightarrow> (continue, parameter, (w, snd ws @ [block])))"

text \<open>How many of the functions the loop of \<open>run_functions\<close> calls.\<close>

fun invocations :: "('b, 'w) consumer list \<Rightarrow> 'b \<Rightarrow> 'w \<Rightarrow> nat" where
  "invocations [] block w = 0"
| "invocations (f # fs) block w =
     (case f block w of
        (continue, parameter, w') \<Rightarrow> if continue then Suc (invocations fs block w') else 1)"

text \<open>
  The functions \<open>logger 0 p\<^sub>0 g\<close>, \<open>logger 1 p\<^sub>1 g\<close>, ... in the order of registration, and
  how many of them are called for a block: all up to and including the first whose
  \<open>p\<close> is false of the block.
\<close>

definition loggers :: "('b \<Rightarrow> bool) list \<Rightarrow> ('b \<Rightarrow> 'b) \<Rightarrow> ('b, (nat \<times> 'b) list) consumer list" where
  "loggers ps g = map (\<lambda>n. logger n (ps ! n) g) [0..<length ps]"

definition called :: "('b \<Rightarrow> bool) list \<Rightarrow> 'b \<Rightarrow> nat" where
  "called ps block = min (length ps) (Suc (length (takeWhile (\<lambda>p. p block) ps)))"

text \<open>
  The parser after the functions \<open>fs2\<close> were registered with \<open>add_2D_block_function\<close> and
  the functions \<open>fs3\<close> with \<open>add_3D_block_function\<close>, one call for each function, in the
  order of the lists.
\<close>

definition registered ::
  "('d StructuredMeshBlock2D, 'w) consumer list \<Rightarrow> ('d StructuredMeshBlock3D, 'w) consumer list
     \<Rightarrow> ('d, 'w) Plot3DParser \<Rightarrow> ('d, 'w) Plot3DParser" where
  "registered fs2 fs3 P = fold add_3D_block_function fs3 (fold add_2D_block_function fs2 P)"

text \<open>
  One run of the loop over the functions of the block's kind, from the first function
  of the list: \<open>fs2\<close> for a 2D block, \<open>fs3\<close> for a 3D block.
\<close>

definition fan_out ::
  "('d StructuredMeshBlock2D, 'w) consumer list \<Rightarrow> ('d StructuredMeshBlock3D, 'w) consumer list
     \<Rightarrow> 'd StructuredMeshBlock2D + 'd StructuredMeshBlock3D \<Rightarrow> 'w \<Rightarrow> 'w" where
  "fan_out fs2 fs3 block w =
     (case block of
        Inl mesh2d \<Rightarrow> run_functions fs2 mesh2d w
      | Inr mesh3d \<Rightarrow> run_functions fs3 mesh3d w)"

text \<open>The block that \<open>dispatch\<close> hands on: the 3D block, or its 2D block.\<close>

definition given ::
  "int \<Rightarrow> int list \<Rightarrow> 'd StructuredMeshBlock3D \<Rightarrow> ('d::zero) StructuredMeshBlock2D + 'd StructuredMeshBlock3D" where
  "given d ext blk = (if d = 3 then Inr blk else Inl (project_2d (ext ! 0) (ext ! 1) blk))"

text \<open>
  The blocks that the loop over the blocks completes, in order, as the reading code of
  the parser yields them: no registered function takes part. In \<open>parse_ascii\<close> a block
  is complete after its passes; in \<open>parse_binary\<close> it is complete after its passes too,
  before the record is closed, where the turn can still fail.
\<close>

fun ascii_read_blocks ::
  "('d::zero) conversions \<Rightarrow> int \<Rightarrow> int list list \<Rightarrow> locals
     \<Rightarrow> thrown option \<times> locals \<times> ('d StructuredMeshBlock2D + 'd StructuredMeshBlock3D) list" where
  "ascii_read_blocks L d [] st = (None, st, [])"
| "ascii_read_blocks L d (ext # exts) st =
     (case ascii_read_block L d ext st of
        (Some e, (st1, blk)) \<Rightarrow> (Some e, st1, [])
      | (None, (st1, blk)) \<Rightarrow>
          (case ascii_read_blocks L d exts st1 of
             (r, st2, blks) \<Rightarrow> (r, st2, given d ext blk # blks)))"

fun binary_read_blocks ::
  "('d::zero) conversions \<Rightarrow> int \<Rightarrow> int list list \<Rightarrow> locals
     \<Rightarrow> thrown option \<times> locals \<times> ('d StructuredMeshBlock2D + 'd StructuredMeshBlock3D) list" where
  "binary_read_blocks L d [] st = (None, st, [])"
| "binary_read_blocks L d (ext # exts) st =
     (case binary_read_block L d ext st of
        (Some e, (st1, blk)) \<Rightarrow> (Some e, st1, [])
      | (None, (st1, blk)) \<Rightarrow>
          (case record_close st1 of
             (Some e, st2) \<Rightarrow> (Some e, st2, [given d ext blk])
           | (None, st2) \<Rightarrow>
               (case binary_read_blocks L d exts st2 of
                  (r, st3, blks) \<Rightarrow> (r, st3, given d ext blk # blks))))"

text \<open>
  The blocks of a whole input: the header is read as \<open>parse_ascii\<close> and \<open>parse_binary\<close>
  read it, by a parser with the single-block setting \<open>single\<close> and no registered
  function. An input whose header fails has no block.
\<close>

definition settings :: "bool \<Rightarrow> ('d, unit) Plot3DParser" where
  "settings single = new_Plot3DParser\<lparr>single_block := single\<rparr>"

definition ascii_blocks ::
  "('d::zero) conversions \<Rightarrow> bool \<Rightarrow> int \<Rightarrow> istream
     \<Rightarrow> ('d StructuredMeshBlock2D + 'd StructuredMeshBlock3D) list" where
  "ascii_blocks L single d s =
     (if \<not> (d \<le> 3 \<and> 2 \<le> d) then []
      else
        (case ascii_number_of_blocks (settings single :: ('d, unit) Plot3DParser) (new_locals s) of
           (number_of_blocks, st1) \<Rightarrow>
             if number_of_blocks < 0 then []
             else (case ascii_extents L d (nat number_of_blocks) st1 of
                     (Inl e, st2) \<Rightarrow> []
                   | (Inr extents, st2) \<Rightarrow> snd (snd (ascii_read_blocks L d extents st2)))))"

definition binary_blocks ::
  "('d::zero) conversions \<Rightarrow> bool \<Rightarrow> int \<Rightarrow> istream
     \<Rightarrow> ('d StructuredMeshBlock2D + 'd StructuredMeshBlock3D) list" where
  "binary_blocks L single d s =
     (if \<not> (1 < d \<and> d \<le> 3) then []
      else
        (case binary_number_of_blocks (settings single :: ('d, unit) Plot3DParser) (new_locals s) of
           (Inl e, st1) \<Rightarrow> []
         | (Inr number_of_blocks, st1) \<Rightarrow>
             (case record_open st1 of
                (Some e, st2) \<Rightarrow> []
              | (None, st2) \<Rightarrow>
                  (case binary_extents d (nat number_of_blocks) st2 of
                     (Inl e, st3) \<Rightarrow> []
                   | (Inr extents, st3) \<Rightarrow>
                       (case record_close st3 of
                          (Some e, st4) \<Rightarrow> []
                        | (None, st4) \<Rightarrow> snd (snd (binary_read_blocks L d extents st4)))))))"

text \<open>
  An ascii file of two 2D blocks of one point each, \<open>(5, 6)\<close> and \<open>(7, 8)\<close>, and a
  parser for it with two registered 2D functions, of which the first returns false.
\<close>

definition two_blocks_2d :: string where
  "two_blocks_2d = text_lines [''2'', ''1 1'', ''1 1'', ''5'', ''6'', ''7'', ''8'']"

definition two_loggers_2d :: "(int, (nat \<times> int StructuredMeshBlock2D) list) Plot3DParser" where
  "two_loggers_2d =
     \<lparr>single_block = False, parse_as_binary = False, number_of_dimensions = 2,
      m_mesh_2d_functions = loggers [\<lambda>block. False, \<lambda>block. True] (\<lambda>block. block),
      m_mesh_3d_functions = []\<rparr>"

text \<open>
  Three 2D functions, of which the second returns false for a block whose first point
  is \<open>(5, 6)\<close>; and the two blocks of \<open>two_blocks_2d\<close> as a binary file.
\<close>

definition three_loggers ::
  "(int StructuredMeshBlock2D, (nat \<times> int StructuredMeshBlock2D) list) consumer list" where
  "three_loggers =
     loggers [\<lambda>block. True, \<lambda>block. coords2 block (0, 0) \<noteq> [5, 6], \<lambda>block. True]
       (\<lambda>block. block)"

definition binary_two_blocks :: string where
  "binary_two_blocks =
     le_bytes 4 4 @ le_bytes 4 2 @ le_bytes 4 4
     @ le_bytes 4 16 @ le_bytes 4 1 @ le_bytes 4 1 @ le_bytes 4 1 @ le_bytes 4 1 @ le_bytes 4 16
     @ le_bytes 4 16 @ le_bytes 8 5 @ le_bytes 8 6 @ le_bytes 4 16
     @ le_bytes 4 16 @ le_bytes 8 7 @ le_bytes 8 8 @ le_bytes 4 16"

text \<open>How many times \<open>std::getline\<close> was called on a stream.\<close>

definition getline_count :: "istream \<Rightarrow> nat" where
  "getline_count s = length (filter (\<lambda>ev. ev = Getline) (history s))"

text \<open>
  The line counter of \<open>parse_ascii\<close> is one more than the number of calls of
  \<open>std::getline\<close>.
\<close>

definition line_inv :: "locals \<Rightarrow> bool" where
  "line_inv st \<longleftrightarrow> line_number st = 1 + int (getline_count (input_stream st))"

text \<open>
  Ascii inputs: a file that announces two 2D blocks and has the extents of one; a file
  whose block count is 0; a file whose block count is negative; a single-block 3D file
  whose first line holds a token that is no number; a file of one 2D block whose second
  line holds such a token.
\<close>

definition short_header :: string where
  "short_header = text_lines [''2'', ''3 3'']"

definition bad_first_line :: string where
  "bad_first_line = text_lines [''1 x 1'']"

definition bad_second_line :: string where
  "bad_second_line = text_lines [''1'', ''1 x'', ''5'', ''6'']"

definition zero_blocks :: string where
  "zero_blocks = text_lines [''0'']"

definition negative_blocks :: string where
  "negative_blocks = text_lines [''-1'', ''1 1'', ''5'', ''6'']"

text \<open>
  Binary inputs (for a parser that is not in single-block mode): a block count of 0 in
  a well-formed record; one 2D block of one point in well-formed records; the same
  with a wrong trailing length of the block's record.
\<close>

definition binary_zero_blocks :: string where
  "binary_zero_blocks = le_bytes 4 4 @ le_bytes 4 0 @ le_bytes 4 4"



text \<open>
  A single-block 3D ascii file of one point \<open>(1, 2, 3)\<close>, and a single-block parser with
  one registered 3D function.
\<close>

definition one_point_3d :: string where
  "one_point_3d = text_lines [''1 1 1'', ''1'', ''2'', ''3'']"

definition one_logger_3d :: "(int, (nat \<times> int StructuredMeshBlock3D) list) Plot3DParser" where
  "one_logger_3d =
     \<lparr>single_block = True, parse_as_binary = False, number_of_dimensions = 3,
      m_mesh_2d_functions = [],
      m_mesh_3d_functions = loggers [\<lambda>block. True] (\<lambda>block. block)\<rparr>"


text \<open>
  The values of \<open>n\<close> extractions \<open>input_stream >> tmp_val\<close> in a row, and the stream
  after them.
\<close>

fun extract_n :: "(string \<Rightarrow> 'd option \<times> string) \<Rightarrow> nat \<Rightarrow> istream \<Rightarrow> ('d::zero) list \<times> istream" where
  "extract_n f 0 s = ([], s)"
| "extract_n f (Suc n) s =
     (case extract_double f s of
        (v, s1) \<Rightarrow> (case extract_n f n s1 of (vs, s2) \<Rightarrow> (v # vs, s2)))"

text \<open>
  A block after the values \<open>vs\<close> were stored, one after the other, into component \<open>c\<close>
  at the positions \<open>idxs\<close>.
\<close>

definition store_pass ::
  "nat \<Rightarrow> (int \<times> int \<times> int) list \<Rightarrow> 'd list \<Rightarrow> 'd StructuredMeshBlock3D \<Rightarrow> 'd StructuredMeshBlock3D" where
  "store_pass c idxs vs blk =
     fold (\<lambda>(ijk, v) b. set_coord3 ijk ((coord3 b ijk)[c := v]) b) (zip idxs vs) blk"

section \<open>The cell arrays\<close>

lemma int32_id: "- 2147483648 \<le> x \<Longrightarrow> x \<le> 2147483647 \<Longrightarrow> int32 x = x"
  by (simp add: int32_def)

lemma sum_take_le:
  "sum_list (map f (take k xs)) \<le> sum_list (map (f::'a \<Rightarrow> nat) xs)"
proof -
  have "sum_list (map f xs) = sum_list (map f (take k xs)) + sum_list (map f (drop k xs))"
    by (metis append_take_drop_id map_append sum_list_append)
  then show ?thesis by simp
qed

lemma nodes_upto_Suc:
  "i < length cs \<Longrightarrow>
   int (sum_list (map (\<lambda>c. length (node_ids c)) (take i cs))) + int (length (node_ids (cs ! i)))
     = nodes_upto cs i"
  by (simp add: nodes_upto_def take_Suc_conv_app_nth)

lemma nodes_upto_le: "nodes_upto cs i \<le> int (total_nodes cs)"
  unfolding nodes_upto_def total_nodes_def using sum_take_le[of "\<lambda>c. length (node_ids c)" "Suc i" cs] by simp

lemma node_count_le: "i < length cs \<Longrightarrow> int (length (node_ids (cs ! i))) \<le> int (total_nodes cs)"
  using nodes_upto_Suc[of i cs] nodes_upto_le[of cs i] by linarith

lemma offsets_loop_inv:
  assumes "int (length cs) \<le> INT_MAX" "int (total_nodes cs) \<le> INT_MAX"
  shows "length scratch = length cs \<Longrightarrow> i \<le> length cs \<Longrightarrow> k = length cs - i \<Longrightarrow>
     c = int (sum_list (map (\<lambda>c. length (node_ids c)) (take i cs))) \<Longrightarrow>
     offsets_loop cs (int i) c scratch = take i scratch @ map (nodes_upto cs) [i..<length cs]"
proof (induction k arbitrary: i c scratch)
  case 0
  then have "i = length cs" by simp
  moreover have "int32 (int (length cs)) = int (length cs)"
    using assms(1) by (simp add: int32_id INT_MAX_def)
  ultimately show ?case using 0 by (subst offsets_loop.simps) simp
next
  case (Suc k)
  then have lt: "i < length cs" by simp
  have M: "int32 (int (length cs)) = int (length cs)"
    using assms(1) by (simp add: int32_id INT_MAX_def)
  have n1: "int32 (int (length (node_ids (cs ! i)))) = int (length (node_ids (cs ! i)))"
    using node_count_le[OF lt] assms(2) by (simp add: int32_id INT_MAX_def)
  have n2: "int32 (c + int (length (node_ids (cs ! i)))) = nodes_upto cs i"
    using nodes_upto_Suc[OF lt] nodes_upto_le[of cs i] assms(2) Suc.prems(4)
    by (simp add: int32_id INT_MAX_def nodes_upto_def)
  have step: "offsets_loop cs (int i) c scratch =
      offsets_loop cs (int (Suc i)) (nodes_upto cs i) (scratch[i := nodes_upto cs i])"
    using lt M n1 n2 by (subst offsets_loop.simps) (simp add: Let_def add.commute)
  have IH: "offsets_loop cs (int (Suc i)) (nodes_upto cs i) (scratch[i := nodes_upto cs i]) =
      take (Suc i) (scratch[i := nodes_upto cs i]) @ map (nodes_upto cs) [Suc i..<length cs]"
    using Suc.prems lt by (intro Suc.IH) (auto simp: nodes_upto_def)
  have "take (Suc i) (scratch[i := nodes_upto cs i]) = take i scratch @ [nodes_upto cs i]"
    using lt Suc.prems(1) by (simp add: take_Suc_conv_app_nth)
  moreover have "[i..<length cs] = i # [Suc i..<length cs]"
    using lt by (simp add: upt_conv_Cons)
  ultimately show ?case using step IH by simp
qed

lemma types_loop_length: "length (types_loop cs i scratch) = length scratch"
  by (induction cs i scratch rule: types_loop.induct) (subst types_loop.simps, simp)

lemma push_nodes_eq: "push_nodes ns scratch = scratch @ ns"
  by (induction ns arbitrary: scratch) auto

lemma connectivity_loop_eq: "connectivity_loop cs scratch = scratch @ concat (map node_ids cs)"
  by (induction cs arbitrary: scratch) (auto simp: push_nodes_eq)

lemma length_concat_nodes: "length (concat (map node_ids cs)) = total_nodes cs"
  by (simp add: total_nodes_def length_concat comp_def)

lemma cells_offsets_eq:
  assumes "int (length (cells m)) \<le> INT_MAX" "int (total_nodes (cells m)) \<le> INT_MAX"
  shows "cells_offsets m = map (nodes_upto (cells m)) [0..<length (cells m)]"
  using offsets_loop_inv[OF assms, of "cells_types m" 0 "length (cells m)" 0]
  by (simp add: cells_offsets_def cells_types_def types_loop_length)


lemma nodes_upto_mono: "i \<le> j \<Longrightarrow> nodes_upto cs i \<le> nodes_upto cs j"
proof -
  assume "i \<le> j"
  then have "take (Suc i) cs = take (Suc i) (take (Suc j) cs)" by (simp add: min_def)
  then show ?thesis
    unfolding nodes_upto_def
    using sum_take_le[of "\<lambda>c. length (node_ids c)" "Suc i" "take (Suc j) cs"] by simp
qed

lemma nodes_upto_last: "cs \<noteq> [] \<Longrightarrow> nodes_upto cs (length cs - 1) = int (total_nodes cs)"
  by (simp add: nodes_upto_def total_nodes_def)

lemma types_loop_inv:
  assumes "int (length cs) \<le> INT_MAX"
  shows "length scratch = length cs \<Longrightarrow> i \<le> length cs \<Longrightarrow> k = length cs - i \<Longrightarrow>
     types_loop cs (int i) scratch = take i scratch @ map cell_type (drop i cs)"
proof (induction k arbitrary: i scratch)
  case 0
  then have "i = length cs" by simp
  moreover have "int32 (int (length cs)) = int (length cs)"
    using assms by (simp add: int32_id INT_MAX_def)
  ultimately show ?case using 0 by (subst types_loop.simps) simp
next
  case (Suc k)
  then have lt: "i < length cs" by simp
  have M: "int32 (int (length cs)) = int (length cs)"
    using assms by (simp add: int32_id INT_MAX_def)
  have step: "types_loop cs (int i) scratch =
      types_loop cs (int (Suc i)) (scratch[i := cell_type (cs ! i)])"
    using lt M by (subst types_loop.simps) (simp add: add.commute)
  have IH: "types_loop cs (int (Suc i)) (scratch[i := cell_type (cs ! i)]) =
      take (Suc i) (scratch[i := cell_type (cs ! i)]) @ map cell_type (drop (Suc i) cs)"
    using Suc.prems lt by (intro Suc.IH) auto
  have "take (Suc i) (scratch[i := cell_type (cs ! i)]) = take i scratch @ [cell_type (cs ! i)]"
    using lt Suc.prems(1) by (simp add: take_Suc_conv_app_nth)
  moreover have "drop i cs = cs ! i # drop (Suc i) cs"
    using lt by (simp add: Cons_nth_drop_Suc)
  ultimately show ?case using step IH by simp
qed

lemma cells_types_eq:
  "int (length (cells m)) \<le> INT_MAX \<Longrightarrow> cells_types m = map cell_type (cells m)"
  using types_loop_inv[of "cells m" "replicate (length (cells m)) 0" 0 "length (cells m)"]
  by (simp add: cells_types_def)

lemma cells_connectivity_eq: "cells_connectivity m = all_nodes (cells m)"
  by (simp add: cells_connectivity_def connectivity_loop_eq all_nodes_def)

lemma running_totals_sorted: "sorted (running_totals cs)"
  unfolding running_totals_def by (simp add: sorted_iff_nth_mono nodes_upto_mono)

lemma running_totals_last:
  "cs \<noteq> [] \<Longrightarrow> last (running_totals cs) = int (length (all_nodes cs))"
  using nodes_upto_last[of cs]
  by (simp add: running_totals_def all_nodes_def last_conv_nth length_concat_nodes)

section \<open>The cell arrays in the output\<close>

lemma generate_buffer_integers:
  "fst (vtk_data_array_generate_buffer E (Integers xs) w) = integers_payload E w xs"
  by (simp add: vtk_data_array_generate_buffer_def integers_payload_def ascii_buffer_def
      raw_buffer_def int_lines_def Let_def)

lemma generate_buffer_stack:
  "fst (vtk_data_array_generate_buffer E arr (w\<lparr>m_xml_writer := x\<rparr>))
     = fst (vtk_data_array_generate_buffer E arr w)"
  by (simp add: vtk_data_array_generate_buffer_def Let_def)

lemma generate_buffer_buffers:
  "fst (vtk_data_array_generate_buffer E arr (w\<lparr>m_appended_data := x\<rparr>))
     = fst (vtk_data_array_generate_buffer E arr w)"
  by (simp add: vtk_data_array_generate_buffer_def Let_def)

lemma inline_items_stack: "inline_items E (w\<lparr>m_xml_writer := x\<rparr>) name arr = inline_items E w name arr"
  by (simp add: inline_items_def generate_buffer_stack)

lemma inline_array:
  "\<not> appended w \<Longrightarrow>
   vtk_data_array E name arr (w, out) = (None, (w, out @ inline_items E w name arr))"
  by (simp add: vtk_data_array_def vtk_data_array_format_options_def open_tag_def xml_open_tag_def
      close_tag_def xml_close_tag_def put_chars_def vtk_data_array_generate_buffer_def
      inline_items_def Let_def)

lemma inline_data_arrays:
  "\<not> appended w \<Longrightarrow>
   data_arrays E entries (w, out) =
     (None, (w, out @ concat (map (\<lambda>e. inline_items E w (fst e) (snd e)) entries)))"
  by (induction entries arbitrary: out) (simp_all add: inline_array seq_def)

lemma inline_cells:
  assumes "\<not> appended w"
  shows "vtk_unstructured_cells E m (w, out) =
     (None, (w, out @ OpenTag ''Cells'' []
                    # inline_items E w ''types'' (Integers (cells_types m))
                    @ inline_items E w ''offsets'' (Integers (cells_offsets m))
                    @ inline_items E w ''connectivity'' (Integers (cells_connectivity m))
                    @ [CloseTag ''Cells'']))"
proof -
  define w1 where "w1 = w\<lparr>m_xml_writer := ''Cells'' # m_xml_writer w\<rparr>"
  have o: "open_tag ''Cells'' [] (w, out) = (w1, out @ [OpenTag ''Cells'' []])"
    by (simp add: open_tag_def xml_open_tag_def w1_def)
  have a: "\<not> appended w1" using assms by (simp add: w1_def)
  have i: "inline_items E w1 name arr = inline_items E w name arr" for name arr
    by (simp add: w1_def inline_items_stack)
  have c: "close_tag (w1, out') = (w, out' @ [CloseTag ''Cells''])" for out'
    by (simp add: close_tag_def xml_close_tag_def w1_def)
  show ?thesis
    by (simp add: vtk_unstructured_cells_def o inline_array[OF a] seq_def i c)
qed

lemma inline_bracket:
  assumes "\<And>w' out'. \<not> appended w' \<Longrightarrow> f (w', out') = (None, (w', out' @ items w'))"
    and "\<And>x. items (w\<lparr>m_xml_writer := x\<rparr>) = items w"
    and "\<not> appended w"
  shows "seq (f (open_tag tag [] (w, out))) (\<lambda>s. (None, close_tag s)) =
           (None, (w, out @ OpenTag tag [] # items w @ [CloseTag tag]))"
proof -
  define w1 where "w1 = w\<lparr>m_xml_writer := tag # m_xml_writer w\<rparr>"
  have o: "open_tag tag [] (w, out) = (w1, out @ [OpenTag tag []])"
    by (simp add: open_tag_def xml_open_tag_def w1_def)
  have a: "\<not> appended w1" using assms(3) by (simp add: w1_def)
  have i: "items w1 = items w" by (simp add: w1_def assms(2))
  have c: "close_tag (w1, out') = (w, out' @ [CloseTag tag])" for out'
    by (simp add: close_tag_def xml_close_tag_def w1_def)
  show ?thesis
    by (simp add: o assms(1)[OF a] seq_def i c)
qed

lemma inline_three:
  assumes "\<not> appended w"
  shows "seq (seq (data_arrays E xs (w, out)) (data_arrays E ys)) (data_arrays E zs) =
     (None, (w, out @ concat (map (\<lambda>e. inline_items E w (fst e) (snd e)) (xs @ ys @ zs))))"
  by (simp add: inline_data_arrays[OF assms] seq_def)

text \<open>The items of the point data and of the cell data of a dataset, written inline.\<close>

lemma inline_point_data:
  assumes "\<not> appended w"
  shows "\<exists>items. vtk_unstructured_point_data E data (w, out) = (None, (w, out @ items))"
proof -
  define items where "items = (\<lambda>w. concat (map (\<lambda>e. inline_items E w (fst e) (snd e))
      (map (\<lambda>(n, a). (n, Integers a)) (integer_point_data data)
       @ map (\<lambda>(n, a). (n, Scalars a)) (scalar_point_data data)
       @ map (\<lambda>(n, a). (n, Vectors a)) (vector_point_data data))))"
  have "seq (seq (seq (data_arrays E (map (\<lambda>(n, a). (n, Integers a)) (integer_point_data data))
                      (open_tag ''PointData'' [] (w, out)))
                   (data_arrays E (map (\<lambda>(n, a). (n, Scalars a)) (scalar_point_data data))))
              (data_arrays E (map (\<lambda>(n, a). (n, Vectors a)) (vector_point_data data))))
         (\<lambda>s. (None, close_tag s))
        = (None, (w, out @ OpenTag ''PointData'' [] # items w @ [CloseTag ''PointData'']))"
  proof (rule inline_bracket[where f = "\<lambda>s. seq (seq (data_arrays E
          (map (\<lambda>(n, a). (n, Integers a)) (integer_point_data data)) s)
          (data_arrays E (map (\<lambda>(n, a). (n, Scalars a)) (scalar_point_data data))))
          (data_arrays E (map (\<lambda>(n, a). (n, Vectors a)) (vector_point_data data)))"
        and items = items])
    show "\<not> appended w" by (rule assms)
  next
    fix x show "items (w\<lparr>m_xml_writer := x\<rparr>) = items w"
      by (simp add: items_def inline_items_stack)
  next
    fix w' :: VtkWriter and out'
    assume "\<not> appended w'"
    then show "seq (seq (data_arrays E (map (\<lambda>(n, a). (n, Integers a)) (integer_point_data data)) (w', out'))
          (data_arrays E (map (\<lambda>(n, a). (n, Scalars a)) (scalar_point_data data))))
          (data_arrays E (map (\<lambda>(n, a). (n, Vectors a)) (vector_point_data data)))
        = (None, (w', out' @ items w'))"
      unfolding items_def by (rule inline_three)
  qed
  then show ?thesis unfolding vtk_unstructured_point_data_def by blast
qed

lemma inline_cell_data:
  assumes "\<not> appended w"
  shows "\<exists>items. vtk_unstructured_cell_data E data (w, out) = (None, (w, out @ items))"
proof -
  define items where "items = (\<lambda>w. concat (map (\<lambda>e. inline_items E w (fst e) (snd e))
      (map (\<lambda>(n, a). (n, Integers a)) (integer_cell_data data)
       @ map (\<lambda>(n, a). (n, Scalars a)) (scalar_cell_data data)
       @ map (\<lambda>(n, a). (n, Vectors a)) (vector_cell_data data))))"
  have "seq (seq (seq (data_arrays E (map (\<lambda>(n, a). (n, Integers a)) (integer_cell_data data))
                      (open_tag ''CellData'' [] (w, out)))
                   (data_arrays E (map (\<lambda>(n, a). (n, Scalars a)) (scalar_cell_data data))))
              (data_arrays E (map (\<lambda>(n, a). (n, Vectors a)) (vector_cell_data data))))
         (\<lambda>s. (None, close_tag s))
        = (None, (w, out @ OpenTag ''CellData'' [] # items w @ [CloseTag ''CellData'']))"
  proof (rule inline_bracket[where f = "\<lambda>s. seq (seq (data_arrays E
          (map (\<lambda>(n, a). (n, Integers a)) (integer_cell_data data)) s)
          (data_arrays E (map (\<lambda>(n, a). (n, Scalars a)) (scalar_cell_data data))))
          (data_arrays E (map (\<lambda>(n, a). (n, Vectors a)) (vector_cell_data data)))"
        and items = items])
    show "\<not> appended w" by (rule assms)
  next
    fix x show "items (w\<lparr>m_xml_writer := x\<rparr>) = items w"
      by (simp add: items_def inline_items_stack)
  next
    fix w' :: VtkWriter and out'
    assume "\<not> appended w'"
    then show "seq (seq (data_arrays E (map (\<lambda>(n, a). (n, Integers a)) (integer_cell_data data)) (w', out'))
          (data_arrays E (map (\<lambda>(n, a). (n, Scalars a)) (scalar_cell_data data))))
          (data_arrays E (map (\<lambda>(n, a). (n, Vectors a)) (vector_cell_data data)))
        = (None, (w', out' @ items w'))"
      unfolding items_def by (rule inline_three)
  qed
  then show ?thesis unfolding vtk_unstructured_cell_data_def by blast
qed

lemma inline_mesh:
  assumes "\<not> appended w"
  shows "vtk_unstructured_mesh E m (w, out) =
     (None, (w, out @ OpenTag ''Points'' [] # inline_items E w ''Points'' (Points (points m))
                    @ CloseTag ''Points'' # OpenTag ''Cells'' []
                    # inline_items E w ''types'' (Integers (cells_types m))
                    @ inline_items E w ''offsets'' (Integers (cells_offsets m))
                    @ inline_items E w ''connectivity'' (Integers (cells_connectivity m))
                    @ [CloseTag ''Cells'']))"
proof -
  have "seq (vtk_data_array E ''Points'' (Points (points m)) (open_tag ''Points'' [] (w, out)))
            (\<lambda>s. (None, close_tag s))
        = (None, (w, out @ OpenTag ''Points'' [] # inline_items E w ''Points'' (Points (points m))
                         @ [CloseTag ''Points'']))"
    by (rule inline_bracket[where f = "vtk_data_array E ''Points'' (Points (points m))"
          and items = "\<lambda>w. inline_items E w ''Points'' (Points (points m))"])
       (simp_all add: inline_array inline_items_stack assms)
  then show ?thesis
    by (simp add: vtk_unstructured_mesh_def seq_def inline_cells[OF assms])
qed

lemma inline_write_piece:
  assumes "m_file_type w = UnstructuredGrid" and "\<not> appended w"
  shows "\<exists>items. write_piece ndebug E data (w, out) =
     (None, (w, out @ OpenTag ''Piece''
                        [(''NumberOfPoints'', to_string (int32 (int (length (points (mesh data)))))),
                         (''NumberOfCells'', to_string (int32 (int (length (cells (mesh data))))))]
                    # OpenTag ''Points'' []
                    # inline_items E w ''Points'' (Points (points (mesh data)))
                    @ CloseTag ''Points'' # OpenTag ''Cells'' []
                    # inline_items E w ''types'' (Integers (cells_types (mesh data)))
                    @ inline_items E w ''offsets'' (Integers (cells_offsets (mesh data)))
                    @ inline_items E w ''connectivity'' (Integers (cells_connectivity (mesh data)))
                    @ CloseTag ''Cells'' # items))"
proof -
  define w1 where "w1 = w\<lparr>m_xml_writer := ''Piece'' # m_xml_writer w\<rparr>"
  define tag where "tag = OpenTag ''Piece''
                        [(''NumberOfPoints'', to_string (int32 (int (length (points (mesh data)))))),
                         (''NumberOfCells'', to_string (int32 (int (length (cells (mesh data))))))]"
  have a: "\<not> appended w1" using assms(2) by (simp add: w1_def)
  have p: "vtk_unstructured_piece (int32 (int (length (points (mesh data)))))
             (int32 (int (length (cells (mesh data))))) (w, out) = (w1, out @ [tag])"
    by (simp add: vtk_unstructured_piece_def open_tag_def xml_open_tag_def w1_def tag_def)
  have i: "inline_items E w1 name arr = inline_items E w name arr" for name arr
    by (simp add: w1_def inline_items_stack)
  have c: "close_tag (w1, out') = (w, out' @ [CloseTag ''Piece''])" for out'
    by (simp add: close_tag_def xml_close_tag_def w1_def)
  obtain pd where pd: "\<And>out'. vtk_unstructured_point_data E data (w1, out') = (None, (w1, out' @ pd out'))"
    using inline_point_data[OF a, of E data] by metis
  obtain cd where cd: "\<And>out'. vtk_unstructured_cell_data E data (w1, out') = (None, (w1, out' @ cd out'))"
    using inline_cell_data[OF a, of E data] by metis
  have "write_piece ndebug E data (w, out) =
          seq (seq (seq (vtk_unstructured_mesh E (mesh data)
                         (vtk_unstructured_piece (int32 (int (length (points (mesh data)))))
                            (int32 (int (length (cells (mesh data))))) (w, out)))
                      (vtk_unstructured_point_data E data))
                 (vtk_unstructured_cell_data E data))
            (\<lambda>s. (None, close_tag s))"
    using assms by (simp add: write_piece_def)
  then show ?thesis
    by (simp add: p inline_mesh[OF a] seq_def pd cd c i tag_def)
qed

lemma payload_chars_stop: "payload_chars (map Ch cs @ CloseTag tag # items) = cs"
  by (induction cs) simp_all

lemma array_text_chars: "array_text name (map Ch cs @ items) = array_text name items"
  by (induction cs) simp_all

lemma array_text_inline:
  "array_text name (inline_items E w name' arr @ items) =
     (if name' = name then Some (fst (vtk_data_array_generate_buffer E arr w))
      else array_text name items)"
  by (simp add: inline_items_def payload_chars_stop array_text_chars)

lemma inline_arrays_found:
  assumes "m_file_type w = UnstructuredGrid" and "\<not> appended w"
  shows "array_text ''offsets'' (drop (length out) (snd (snd (write_piece ndebug E data (w, out)))))
           = Some (integers_payload E w (cells_offsets (mesh data)))"
    and "array_text ''connectivity''
           (drop (length out) (snd (snd (write_piece ndebug E data (w, out)))))
           = Some (integers_payload E w (cells_connectivity (mesh data)))"
    and "fst (write_piece ndebug E data (w, out)) = None"
proof -
  obtain items where r: "write_piece ndebug E data (w, out) =
     (None, (w, out @ OpenTag ''Piece''
                        [(''NumberOfPoints'', to_string (int32 (int (length (points (mesh data)))))),
                         (''NumberOfCells'', to_string (int32 (int (length (cells (mesh data))))))]
                    # OpenTag ''Points'' []
                    # inline_items E w ''Points'' (Points (points (mesh data)))
                    @ CloseTag ''Points'' # OpenTag ''Cells'' []
                    # inline_items E w ''types'' (Integers (cells_types (mesh data)))
                    @ inline_items E w ''offsets'' (Integers (cells_offsets (mesh data)))
                    @ inline_items E w ''connectivity'' (Integers (cells_connectivity (mesh data)))
                    @ CloseTag ''Cells'' # items))"
    using inline_write_piece[OF assms] by blast
  show "array_text ''offsets'' (drop (length out) (snd (snd (write_piece ndebug E data (w, out)))))
           = Some (integers_payload E w (cells_offsets (mesh data)))"
    unfolding r by (simp add: array_text_inline generate_buffer_integers)
  show "array_text ''connectivity''
           (drop (length out) (snd (snd (write_piece ndebug E data (w, out)))))
           = Some (integers_payload E w (cells_connectivity (mesh data)))"
    unfolding r by (simp add: array_text_inline generate_buffer_integers)
  show "fst (write_piece ndebug E data (w, out)) = None"
    unfolding r by simp
qed

section \<open>The cell arrays among the appended buffers\<close>

lemma appended_array:
  assumes "appended w" and "\<not> ascii w"
  shows "\<exists>out'. vtk_data_array E name arr (w, out) =
     (None, (w\<lparr>m_appended_data :=
                 m_appended_data w @ [fst (vtk_data_array_generate_buffer E arr w)]\<rparr>, out'))"
  using assms
  by (simp add: vtk_data_array_def vtk_data_array_format_options_def open_tag_def xml_open_tag_def
      close_tag_def xml_close_tag_def vtk_data_array_generate_buffer_def Let_def)

lemma appended_data_arrays:
  assumes "appended w" and "\<not> ascii w"
  shows "\<exists>out'. data_arrays E entries (w, out) =
     (None, (w\<lparr>m_appended_data :=
                 m_appended_data w
                 @ map (\<lambda>e. fst (vtk_data_array_generate_buffer E (snd e) w)) entries\<rparr>, out'))"
  using assms
proof (induction entries arbitrary: w out)
  case Nil
  then show ?case by simp
next
  case (Cons e es)
  define w1 where "w1 = w\<lparr>m_appended_data :=
                 m_appended_data w @ [fst (vtk_data_array_generate_buffer E (snd e) w)]\<rparr>"
  obtain out1 where 1: "vtk_data_array E (fst e) (snd e) (w, out) = (None, (w1, out1))"
    using appended_array[OF Cons.prems, of E "fst e" "snd e" out] unfolding w1_def by blast
  have m: "appended w1" "\<not> ascii w1" using Cons.prems by (simp_all add: w1_def)
  obtain out2 where 2: "data_arrays E es (w1, out1) =
     (None, (w1\<lparr>m_appended_data :=
                 m_appended_data w1
                 @ map (\<lambda>e. fst (vtk_data_array_generate_buffer E (snd e) w1)) es\<rparr>, out2))"
    using Cons.IH[OF m, of out1] by blast
  have "data_arrays E (e # es) (w, out) =
     (None, (w\<lparr>m_appended_data :=
                 m_appended_data w
                 @ map (\<lambda>e. fst (vtk_data_array_generate_buffer E (snd e) w)) (e # es)\<rparr>, out2))"
    by (simp add: 1 2 seq_def) (simp add: w1_def generate_buffer_buffers)
  then show ?case by blast
qed

lemma submits_array:
  "submits (vtk_data_array E name arr) (\<lambda>w. [fst (vtk_data_array_generate_buffer E arr w)])"
  unfolding submits_def using appended_array by blast

lemma submits_data_arrays:
  "submits (data_arrays E entries)
     (\<lambda>w. map (\<lambda>e. fst (vtk_data_array_generate_buffer E (snd e) w)) entries)"
  unfolding submits_def using appended_data_arrays by blast

lemma settings_only_array:
  "settings_only (\<lambda>w. [fst (vtk_data_array_generate_buffer E arr w)])"
  by (simp add: settings_only_def generate_buffer_buffers generate_buffer_stack)

lemma settings_only_data_arrays:
  "settings_only (\<lambda>w. map (\<lambda>e. fst (vtk_data_array_generate_buffer E (snd e) w)) entries)"
  by (simp add: settings_only_def generate_buffer_buffers generate_buffer_stack)

lemma settings_only_append:
  "settings_only bs1 \<Longrightarrow> settings_only bs2 \<Longrightarrow> settings_only (\<lambda>w. bs1 w @ bs2 w)"
  by (simp add: settings_only_def)

lemma submits_seq:
  assumes "submits f bs1" and "submits g bs2" and "settings_only bs2"
  shows "submits (\<lambda>s. seq (f s) g) (\<lambda>w. bs1 w @ bs2 w)"
  unfolding submits_def
proof (intro allI impI)
  fix w :: VtkWriter and out :: "xml_item list"
  assume m: "appended w \<and> \<not> ascii w"
  define w1 where "w1 = w\<lparr>m_appended_data := m_appended_data w @ bs1 w\<rparr>"
  obtain out1 where 1: "f (w, out) = (None, (w1, out1))"
    using assms(1) m unfolding submits_def w1_def by blast
  have m1: "appended w1 \<and> \<not> ascii w1" using m by (simp add: w1_def)
  obtain out2 where 2: "g (w1, out1) =
      (None, (w1\<lparr>m_appended_data := m_appended_data w1 @ bs2 w1\<rparr>, out2))"
    using assms(2) m1 unfolding submits_def by blast
  have b: "bs2 w1 = bs2 w" using assms(3) by (simp add: settings_only_def w1_def)
  have "seq (f (w, out)) g =
      (None, (w\<lparr>m_appended_data := m_appended_data w @ bs1 w @ bs2 w\<rparr>, out2))"
    by (simp add: 1 2 seq_def b) (simp add: w1_def)
  then show "\<exists>out'. seq (f (w, out)) g =
      (None, (w\<lparr>m_appended_data := m_appended_data w @ bs1 w @ bs2 w\<rparr>, out'))"
    by blast
qed

lemma submits_bracket:
  assumes "submits f bs" and "settings_only bs"
  shows "submits (\<lambda>s. seq (f (open_tag tag attrs s)) (\<lambda>s. (None, close_tag s))) bs"
  unfolding submits_def
proof (intro allI impI)
  fix w :: VtkWriter and out :: "xml_item list"
  assume m: "appended w \<and> \<not> ascii w"
  define w1 where "w1 = w\<lparr>m_xml_writer := tag # m_xml_writer w\<rparr>"
  have o: "open_tag tag attrs (w, out) = (w1, out @ [OpenTag tag attrs])"
    by (simp add: open_tag_def xml_open_tag_def w1_def)
  have m1: "appended w1 \<and> \<not> ascii w1" using m by (simp add: w1_def)
  obtain out1 where 1: "f (w1, out @ [OpenTag tag attrs]) =
      (None, (w1\<lparr>m_appended_data := m_appended_data w1 @ bs w1\<rparr>, out1))"
    using assms(1) m1 unfolding submits_def by blast
  have b: "bs w1 = bs w" using assms(2) by (simp add: settings_only_def w1_def)
  have "seq (f (open_tag tag attrs (w, out))) (\<lambda>s. (None, close_tag s)) =
      (None, (w\<lparr>m_appended_data := m_appended_data w @ bs w\<rparr>, out1 @ [CloseTag tag]))"
    by (simp add: o 1 seq_def b) (simp add: w1_def close_tag_def xml_close_tag_def)
  then show "\<exists>out'. seq (f (open_tag tag attrs (w, out))) (\<lambda>s. (None, close_tag s)) =
      (None, (w\<lparr>m_appended_data := m_appended_data w @ bs w\<rparr>, out'))"
    by blast
qed

lemma submits_cells:
  "submits (vtk_unstructured_cells E m)
     (\<lambda>w. [fst (vtk_data_array_generate_buffer E (Integers (cells_types m)) w),
           fst (vtk_data_array_generate_buffer E (Integers (cells_offsets m)) w),
           fst (vtk_data_array_generate_buffer E (Integers (cells_connectivity m)) w)])"
proof -
  have f: "submits (\<lambda>s. seq (seq (vtk_data_array E ''types'' (Integers (cells_types m)) s)
                              (vtk_data_array E ''offsets'' (Integers (cells_offsets m))))
                         (vtk_data_array E ''connectivity'' (Integers (cells_connectivity m))))
     (\<lambda>w. ([fst (vtk_data_array_generate_buffer E (Integers (cells_types m)) w)]
            @ [fst (vtk_data_array_generate_buffer E (Integers (cells_offsets m)) w)])
           @ [fst (vtk_data_array_generate_buffer E (Integers (cells_connectivity m)) w)])"
    by (intro submits_seq submits_array settings_only_array)
  have s: "settings_only
     (\<lambda>w. ([fst (vtk_data_array_generate_buffer E (Integers (cells_types m)) w)]
            @ [fst (vtk_data_array_generate_buffer E (Integers (cells_offsets m)) w)])
           @ [fst (vtk_data_array_generate_buffer E (Integers (cells_connectivity m)) w)])"
    by (intro settings_only_append settings_only_array)
  have e: "vtk_unstructured_cells E m =
     (\<lambda>s. seq ((\<lambda>s. seq (seq (vtk_data_array E ''types'' (Integers (cells_types m)) s)
                              (vtk_data_array E ''offsets'' (Integers (cells_offsets m))))
                         (vtk_data_array E ''connectivity'' (Integers (cells_connectivity m))))
                 (open_tag ''Cells'' [] s))
              (\<lambda>s. (None, close_tag s)))"
    by (simp add: fun_eq_iff vtk_unstructured_cells_def)
  show ?thesis
    using submits_bracket[OF f s, of "''Cells''" "[]"] unfolding e by simp
qed

lemma settings_only_cells:
  "settings_only
     (\<lambda>w. [fst (vtk_data_array_generate_buffer E (Integers a) w),
           fst (vtk_data_array_generate_buffer E (Integers b) w),
           fst (vtk_data_array_generate_buffer E (Integers c) w)])"
  by (simp add: settings_only_def generate_buffer_buffers generate_buffer_stack)

lemma submits_mesh:
  "submits (vtk_unstructured_mesh E m)
     (\<lambda>w. [fst (vtk_data_array_generate_buffer E (Points (points m)) w),
           fst (vtk_data_array_generate_buffer E (Integers (cells_types m)) w),
           fst (vtk_data_array_generate_buffer E (Integers (cells_offsets m)) w),
           fst (vtk_data_array_generate_buffer E (Integers (cells_connectivity m)) w)])"
proof -
  have p: "submits (\<lambda>s. seq (vtk_data_array E ''Points'' (Points (points m))
                               (open_tag ''Points'' [] s))
                         (\<lambda>s. (None, close_tag s)))
     (\<lambda>w. [fst (vtk_data_array_generate_buffer E (Points (points m)) w)])"
    by (rule submits_bracket[OF submits_array settings_only_array])
  have "submits (\<lambda>s. seq (seq (vtk_data_array E ''Points'' (Points (points m))
                               (open_tag ''Points'' [] s))
                         (\<lambda>s. (None, close_tag s)))
                    (vtk_unstructured_cells E m))
     (\<lambda>w. [fst (vtk_data_array_generate_buffer E (Points (points m)) w)]
           @ [fst (vtk_data_array_generate_buffer E (Integers (cells_types m)) w),
              fst (vtk_data_array_generate_buffer E (Integers (cells_offsets m)) w),
              fst (vtk_data_array_generate_buffer E (Integers (cells_connectivity m)) w)])"
    by (rule submits_seq[OF p submits_cells settings_only_cells])
  moreover have "vtk_unstructured_mesh E m =
     (\<lambda>s. seq (seq (vtk_data_array E ''Points'' (Points (points m)) (open_tag ''Points'' [] s))
                    (\<lambda>s. (None, close_tag s)))
               (vtk_unstructured_cells E m))"
    by (simp add: fun_eq_iff vtk_unstructured_mesh_def)
  ultimately show ?thesis by simp
qed

lemma submits_three:
  "\<exists>bs. settings_only bs \<and>
     submits (\<lambda>s. seq (seq (seq (data_arrays E xs (open_tag tag [] s)) (data_arrays E ys))
                           (data_arrays E zs))
                      (\<lambda>s. (None, close_tag s))) bs"
proof -
  define bs where "bs = (\<lambda>w. (map (\<lambda>e. fst (vtk_data_array_generate_buffer E (snd e) w)) xs
      @ map (\<lambda>e. fst (vtk_data_array_generate_buffer E (snd e) w)) ys)
      @ map (\<lambda>e. fst (vtk_data_array_generate_buffer E (snd e) w)) zs)"
  have f: "submits (\<lambda>s. seq (seq (data_arrays E xs s) (data_arrays E ys)) (data_arrays E zs)) bs"
    unfolding bs_def by (intro submits_seq submits_data_arrays settings_only_data_arrays)
  have s: "settings_only bs"
    unfolding bs_def by (intro settings_only_append settings_only_data_arrays)
  have "submits (\<lambda>s. seq ((\<lambda>s. seq (seq (data_arrays E xs s) (data_arrays E ys)) (data_arrays E zs))
                            (open_tag tag [] s))
                      (\<lambda>s. (None, close_tag s))) bs"
    by (rule submits_bracket[OF f s])
  then show ?thesis using s by auto
qed

lemma submits_point_data:
  "\<exists>bs. settings_only bs \<and> submits (vtk_unstructured_point_data E data) bs"
proof -
  have "vtk_unstructured_point_data E data =
     (\<lambda>s. seq (seq (seq (data_arrays E (map (\<lambda>(n, a). (n, Integers a)) (integer_point_data data))
                      (open_tag ''PointData'' [] s))
                   (data_arrays E (map (\<lambda>(n, a). (n, Scalars a)) (scalar_point_data data))))
              (data_arrays E (map (\<lambda>(n, a). (n, Vectors a)) (vector_point_data data))))
         (\<lambda>s. (None, close_tag s)))"
    by (simp add: fun_eq_iff vtk_unstructured_point_data_def)
  then show ?thesis using submits_three by metis
qed

lemma submits_cell_data:
  "\<exists>bs. settings_only bs \<and> submits (vtk_unstructured_cell_data E data) bs"
proof -
  have "vtk_unstructured_cell_data E data =
     (\<lambda>s. seq (seq (seq (data_arrays E (map (\<lambda>(n, a). (n, Integers a)) (integer_cell_data data))
                      (open_tag ''CellData'' [] s))
                   (data_arrays E (map (\<lambda>(n, a). (n, Scalars a)) (scalar_cell_data data))))
              (data_arrays E (map (\<lambda>(n, a). (n, Vectors a)) (vector_cell_data data))))
         (\<lambda>s. (None, close_tag s)))"
    by (simp add: fun_eq_iff vtk_unstructured_cell_data_def)
  then show ?thesis using submits_three by metis
qed

lemma appended_write_piece:
  assumes "m_file_type w = UnstructuredGrid" and "appended w" and "\<not> ascii w"
  shows "\<exists>entries out'. write_piece ndebug E data (w, out) =
     (None, (w\<lparr>m_appended_data :=
                 m_appended_data w
                 @ fst (vtk_data_array_generate_buffer E (Points (points (mesh data))) w)
                 # fst (vtk_data_array_generate_buffer E (Integers (cells_types (mesh data))) w)
                 # fst (vtk_data_array_generate_buffer E (Integers (cells_offsets (mesh data))) w)
                 # fst (vtk_data_array_generate_buffer E (Integers (cells_connectivity (mesh data))) w)
                 # entries\<rparr>, out'))"
proof -
  define attrs where "attrs = [(''NumberOfPoints'', to_string (int32 (int (length (points (mesh data)))))),
                         (''NumberOfCells'', to_string (int32 (int (length (cells (mesh data))))))]"
  define bm where "bm = (\<lambda>w. [fst (vtk_data_array_generate_buffer E (Points (points (mesh data))) w),
           fst (vtk_data_array_generate_buffer E (Integers (cells_types (mesh data))) w),
           fst (vtk_data_array_generate_buffer E (Integers (cells_offsets (mesh data))) w),
           fst (vtk_data_array_generate_buffer E (Integers (cells_connectivity (mesh data))) w)])"
  obtain bp where bp: "settings_only bp" "submits (vtk_unstructured_point_data E data) bp"
    using submits_point_data by blast
  obtain bc where bc: "settings_only bc" "submits (vtk_unstructured_cell_data E data) bc"
    using submits_cell_data by blast
  have m: "submits (vtk_unstructured_mesh E (mesh data)) bm"
    unfolding bm_def by (rule submits_mesh)
  have sm: "settings_only bm"
    by (simp add: bm_def settings_only_def generate_buffer_buffers generate_buffer_stack)
  have 1: "submits (\<lambda>s. seq (vtk_unstructured_mesh E (mesh data) s)
                              (vtk_unstructured_point_data E data)) (\<lambda>w. bm w @ bp w)"
    by (rule submits_seq[OF m bp(2) bp(1)])
  have 2: "submits (\<lambda>s. seq (seq (vtk_unstructured_mesh E (mesh data) s)
                              (vtk_unstructured_point_data E data))
                         (vtk_unstructured_cell_data E data)) (\<lambda>w. (bm w @ bp w) @ bc w)"
    by (rule submits_seq[OF 1 bc(2) bc(1)])
  have s2: "settings_only (\<lambda>w. (bm w @ bp w) @ bc w)"
    by (intro settings_only_append sm bp(1) bc(1))
  have 3: "submits (\<lambda>s. seq ((\<lambda>s. seq (seq (vtk_unstructured_mesh E (mesh data) s)
                              (vtk_unstructured_point_data E data))
                         (vtk_unstructured_cell_data E data)) (open_tag ''Piece'' attrs s))
                      (\<lambda>s. (None, close_tag s))) (\<lambda>w. (bm w @ bp w) @ bc w)"
    by (rule submits_bracket[OF 2 s2])
  have e: "write_piece ndebug E data (w, out) =
     seq ((\<lambda>s. seq (seq (vtk_unstructured_mesh E (mesh data) s)
                              (vtk_unstructured_point_data E data))
                         (vtk_unstructured_cell_data E data)) (open_tag ''Piece'' attrs (w, out)))
                      (\<lambda>s. (None, close_tag s))"
    using assms by (simp add: write_piece_def vtk_unstructured_piece_def attrs_def)
  obtain out' where "write_piece ndebug E data (w, out) =
      (None, (w\<lparr>m_appended_data := m_appended_data w @ (bm w @ bp w) @ bc w\<rparr>, out'))"
    using 3 assms(2,3) unfolding submits_def e by blast
  then have "write_piece ndebug E data (w, out) =
     (None, (w\<lparr>m_appended_data :=
                 m_appended_data w
                 @ fst (vtk_data_array_generate_buffer E (Points (points (mesh data))) w)
                 # fst (vtk_data_array_generate_buffer E (Integers (cells_types (mesh data))) w)
                 # fst (vtk_data_array_generate_buffer E (Integers (cells_offsets (mesh data))) w)
                 # fst (vtk_data_array_generate_buffer E (Integers (cells_connectivity (mesh data))) w)
                 # (bp w @ bc w)\<rparr>, out'))"
    by (simp add: bm_def)
  then show ?thesis by blast
qed

lemma appended_arrays_found:
  assumes "m_file_type w = UnstructuredGrid" and "appended w" and "\<not> ascii w"
  shows "m_appended_data (fst (snd (write_piece ndebug E data (w, out))))
           ! (length (m_appended_data w) + 2)
           = integers_payload E w (cells_offsets (mesh data))"
    and "m_appended_data (fst (snd (write_piece ndebug E data (w, out))))
           ! (length (m_appended_data w) + 3)
           = integers_payload E w (cells_connectivity (mesh data))"
    and "take (length (m_appended_data w))
           (m_appended_data (fst (snd (write_piece ndebug E data (w, out)))))
           = m_appended_data w"
    and "fst (write_piece ndebug E data (w, out)) = None"
proof -
  obtain entries out' where r: "write_piece ndebug E data (w, out) =
     (None, (w\<lparr>m_appended_data :=
                 m_appended_data w
                 @ fst (vtk_data_array_generate_buffer E (Points (points (mesh data))) w)
                 # fst (vtk_data_array_generate_buffer E (Integers (cells_types (mesh data))) w)
                 # fst (vtk_data_array_generate_buffer E (Integers (cells_offsets (mesh data))) w)
                 # fst (vtk_data_array_generate_buffer E (Integers (cells_connectivity (mesh data))) w)
                 # entries\<rparr>, out'))"
    using appended_write_piece[OF assms] by blast
  show "m_appended_data (fst (snd (write_piece ndebug E data (w, out))))
           ! (length (m_appended_data w) + 2)
           = integers_payload E w (cells_offsets (mesh data))"
    unfolding r by (simp add: nth_append generate_buffer_integers)
  show "m_appended_data (fst (snd (write_piece ndebug E data (w, out))))
           ! (length (m_appended_data w) + 3)
           = integers_payload E w (cells_connectivity (mesh data))"
    unfolding r by (simp add: nth_append generate_buffer_integers numeral_3_eq_3)
  show "take (length (m_appended_data w))
           (m_appended_data (fst (snd (write_piece ndebug E data (w, out)))))
           = m_appended_data w"
    unfolding r by simp
  show "fst (write_piece ndebug E data (w, out)) = None"
    unfolding r by simp
qed

lemma two_cells_lists:
  "running_totals (cells (mesh two_cells)) = [3, 5]"
  "all_nodes (cells (mesh two_cells)) = [0, 1, 2, 2, 3]"
  by code_simp+

text \<open>
  Claim C4. For a dataset with \<open>M\<close> cells (\<open>M\<close> and the total number of node indices
  within the range of \<open>int\<close>, in which the loops of \<open>vtk_unstructured_cells\<close> count):
  \<open>vtk_unstructured_cells\<close> writes, with \<open>vtk_data_array\<close>, the cell types under the name
  \<open>types\<close>, the running totals of the node counts under the name \<open>offsets\<close>, and all node
  indices, cell after cell, under the name \<open>connectivity\<close>. In the output of
  \<open>write_piece\<close> on an open file, when arrays are written inline, the payload of the
  \<open>DataArray\<close> element named \<open>offsets\<close> is the running totals (as text, or base64 encoded)
  and that of the element named \<open>connectivity\<close> is the node indices; in appended mode
  they are the third and the fourth buffer that the piece puts behind those the writer
  held. The running totals are \<open>M\<close> numbers, entry \<open>i\<close> being the number of nodes of the
  cells \<open>0..i\<close>; they are non-decreasing, and the last is the number of node indices,
  which is the sum of the node counts.
\<close>

theorem offsets_and_connectivity:
  assumes "int (length (cells (mesh data))) \<le> INT_MAX"
    and "int (total_nodes (cells (mesh data))) \<le> INT_MAX"
  shows "vtk_unstructured_cells E (mesh data) s =
       seq (seq (seq (vtk_data_array E ''types'' (Integers (map cell_type (cells (mesh data))))
                        (open_tag ''Cells'' [] s))
                     (vtk_data_array E ''offsets''
                        (Integers (running_totals (cells (mesh data))))))
                (vtk_data_array E ''connectivity'' (Integers (all_nodes (cells (mesh data))))))
           (\<lambda>s. (None, close_tag s))
    \<and> (m_file_type w = UnstructuredGrid \<and> \<not> appended w \<longrightarrow>
         fst (write_piece ndebug E data (w, out)) = None
         \<and> array_text ''offsets''
              (drop (length out) (snd (snd (write_piece ndebug E data (w, out)))))
             = Some (integers_payload E w (running_totals (cells (mesh data))))
         \<and> array_text ''connectivity''
              (drop (length out) (snd (snd (write_piece ndebug E data (w, out)))))
             = Some (integers_payload E w (all_nodes (cells (mesh data)))))
    \<and> (m_file_type w = UnstructuredGrid \<and> appended w \<and> \<not> ascii w \<longrightarrow>
         fst (write_piece ndebug E data (w, out)) = None
         \<and> take (length (m_appended_data w))
              (m_appended_data (fst (snd (write_piece ndebug E data (w, out)))))
             = m_appended_data w
         \<and> m_appended_data (fst (snd (write_piece ndebug E data (w, out))))
              ! (length (m_appended_data w) + 2)
             = integers_payload E w (running_totals (cells (mesh data)))
         \<and> m_appended_data (fst (snd (write_piece ndebug E data (w, out))))
              ! (length (m_appended_data w) + 3)
             = integers_payload E w (all_nodes (cells (mesh data))))
    \<and> length (running_totals (cells (mesh data))) = length (cells (mesh data))
    \<and> (\<forall>i < length (cells (mesh data)).
          running_totals (cells (mesh data)) ! i = nodes_upto (cells (mesh data)) i)
    \<and> sorted (running_totals (cells (mesh data)))
    \<and> (cells (mesh data) \<noteq> [] \<longrightarrow>
          last (running_totals (cells (mesh data)))
            = int (length (all_nodes (cells (mesh data)))))
    \<and> all_nodes (cells (mesh data)) = concat (map node_ids (cells (mesh data)))
    \<and> length (all_nodes (cells (mesh data))) = total_nodes (cells (mesh data))"
proof -
  let ?cs = "cells (mesh data)"
  have ty: "cells_types (mesh data) = map cell_type ?cs"
    using assms(1) by (rule cells_types_eq)
  have off: "cells_offsets (mesh data) = running_totals ?cs"
    using cells_offsets_eq[OF assms] by (simp add: running_totals_def)
  have con: "cells_connectivity (mesh data) = all_nodes ?cs"
    by (rule cells_connectivity_eq)
  have 1: "vtk_unstructured_cells E (mesh data) s =
       seq (seq (seq (vtk_data_array E ''types'' (Integers (map cell_type ?cs))
                        (open_tag ''Cells'' [] s))
                     (vtk_data_array E ''offsets'' (Integers (running_totals ?cs))))
                (vtk_data_array E ''connectivity'' (Integers (all_nodes ?cs))))
           (\<lambda>s. (None, close_tag s))"
    by (simp add: vtk_unstructured_cells_def ty off con)
  have 2: "m_file_type w = UnstructuredGrid \<and> \<not> appended w \<longrightarrow>
         fst (write_piece ndebug E data (w, out)) = None
         \<and> array_text ''offsets''
              (drop (length out) (snd (snd (write_piece ndebug E data (w, out)))))
             = Some (integers_payload E w (running_totals ?cs))
         \<and> array_text ''connectivity''
              (drop (length out) (snd (snd (write_piece ndebug E data (w, out)))))
             = Some (integers_payload E w (all_nodes ?cs))"
    using inline_arrays_found[where w = w and ndebug = ndebug and E = E and data = data and out = out]
    by (simp add: off con)
  have 3: "m_file_type w = UnstructuredGrid \<and> appended w \<and> \<not> ascii w \<longrightarrow>
         fst (write_piece ndebug E data (w, out)) = None
         \<and> take (length (m_appended_data w))
              (m_appended_data (fst (snd (write_piece ndebug E data (w, out)))))
             = m_appended_data w
         \<and> m_appended_data (fst (snd (write_piece ndebug E data (w, out))))
              ! (length (m_appended_data w) + 2)
             = integers_payload E w (running_totals ?cs)
         \<and> m_appended_data (fst (snd (write_piece ndebug E data (w, out))))
              ! (length (m_appended_data w) + 3)
             = integers_payload E w (all_nodes ?cs)"
    using appended_arrays_found[where w = w and ndebug = ndebug and E = E and data = data and out = out]
    by (simp add: off con)
  have 4: "length (running_totals ?cs) = length ?cs"
    by (simp add: running_totals_def)
  have 5: "\<forall>i < length ?cs. running_totals ?cs ! i = nodes_upto ?cs i"
    by (simp add: running_totals_def)
  have 6: "sorted (running_totals ?cs)" by (rule running_totals_sorted)
  have 7: "?cs \<noteq> [] \<longrightarrow> last (running_totals ?cs) = int (length (all_nodes ?cs))"
    using running_totals_last by blast
  have 8: "all_nodes ?cs = concat (map node_ids ?cs)" by (simp add: all_nodes_def)
  have 9: "length (all_nodes ?cs) = total_nodes ?cs"
    by (simp add: all_nodes_def length_concat_nodes)
  show ?thesis using 1 2 3 4 5 6 7 8 9 by (intro conjI)
qed

theorem offsets_and_connectivity_witness:
  "int (length (cells (mesh two_cells))) \<le> INT_MAX
   \<and> int (total_nodes (cells (mesh two_cells))) \<le> INT_MAX
   \<and> m_file_type text_writer = UnstructuredGrid \<and> \<not> appended text_writer
   \<and> array_text ''offsets'' (snd (snd (write_piece True demo_codec two_cells (text_writer, []))))
       = Some (int_lines [3, 5])
   \<and> array_text ''connectivity''
        (snd (snd (write_piece True demo_codec two_cells (text_writer, []))))
       = Some (int_lines [0, 1, 2, 2, 3])
   \<and> m_file_type (new_VtkWriter\<lparr>m_file_type := UnstructuredGrid\<rparr>) = UnstructuredGrid
   \<and> appended (new_VtkWriter\<lparr>m_file_type := UnstructuredGrid\<rparr>)
   \<and> \<not> ascii (new_VtkWriter\<lparr>m_file_type := UnstructuredGrid\<rparr>)
   \<and> m_appended_data (fst (snd (write_piece True demo_codec two_cells
                                   (new_VtkWriter\<lparr>m_file_type := UnstructuredGrid\<rparr>, [])))) ! 2
       = int64_bytes 16 @ int64_bytes 3 @ int64_bytes 5
   \<and> cells (mesh two_cells) \<noteq> []
   \<and> last (running_totals (cells (mesh two_cells))) = 5"
proof -
  have a: "int (length (cells (mesh two_cells))) \<le> INT_MAX"
    by (simp add: two_cells_def INT_MAX_def)
  have b: "int (total_nodes (cells (mesh two_cells))) \<le> INT_MAX"
    by (simp add: two_cells_def INT_MAX_def total_nodes_def)
  have t: "m_file_type text_writer = UnstructuredGrid" "\<not> appended text_writer"
    "ascii text_writer"
    by (simp_all add: text_writer_def)
  have n: "m_file_type (new_VtkWriter\<lparr>m_file_type := UnstructuredGrid\<rparr>) = UnstructuredGrid"
    "appended (new_VtkWriter\<lparr>m_file_type := UnstructuredGrid\<rparr>)"
    "\<not> ascii (new_VtkWriter\<lparr>m_file_type := UnstructuredGrid\<rparr>)"
    "m_appended_data (new_VtkWriter\<lparr>m_file_type := UnstructuredGrid\<rparr>) = []"
    by (simp_all add: new_VtkWriter_def)
  have ne: "cells (mesh two_cells) \<noteq> []" by (simp add: two_cells_def)
  have p: "integers_payload demo_codec (new_VtkWriter\<lparr>m_file_type := UnstructuredGrid\<rparr>) [3, 5]
            = int64_bytes 16 @ int64_bytes 3 @ int64_bytes 5"
    by code_simp
  note c = offsets_and_connectivity[OF a b, where E = demo_codec and w = text_writer
      and ndebug = True and out = "[]"]
  note d = offsets_and_connectivity[OF a b, where E = demo_codec
      and w = "new_VtkWriter\<lparr>m_file_type := UnstructuredGrid\<rparr>" and ndebug = True and out = "[]"]
  have 1: "array_text ''offsets''
        (snd (snd (write_piece True demo_codec two_cells (text_writer, []))))
       = Some (int_lines [3, 5])"
    using c t by (simp add: two_cells_lists integers_payload_def)
  have 2: "array_text ''connectivity''
        (snd (snd (write_piece True demo_codec two_cells (text_writer, []))))
       = Some (int_lines [0, 1, 2, 2, 3])"
    using c t by (simp add: two_cells_lists integers_payload_def)
  have 3: "m_appended_data (fst (snd (write_piece True demo_codec two_cells
                                   (new_VtkWriter\<lparr>m_file_type := UnstructuredGrid\<rparr>, [])))) ! 2
       = int64_bytes 16 @ int64_bytes 3 @ int64_bytes 5"
  proof -
    have "m_appended_data (fst (snd (write_piece True demo_codec two_cells
                                   (new_VtkWriter\<lparr>m_file_type := UnstructuredGrid\<rparr>, []))))
            ! (length (m_appended_data (new_VtkWriter\<lparr>m_file_type := UnstructuredGrid\<rparr>)) + 2)
          = integers_payload demo_codec (new_VtkWriter\<lparr>m_file_type := UnstructuredGrid\<rparr>)
              (running_totals (cells (mesh two_cells)))"
      using d n(1,2,3) by blast
    then show ?thesis by (simp add: n(4) two_cells_lists p numeral_2_eq_2)
  qed
  have 4: "last (running_totals (cells (mesh two_cells))) = 5"
    using c ne by (simp add: two_cells_lists)
  show ?thesis using a b t(1,2) n(1,2,3) 1 2 3 ne 4 by (intro conjI)
qed

section \<open>The writer: offsets, trailer, encoding modes\<close>

lemma int32_id_max: "- 2147483648 \<le> x \<Longrightarrow> x \<le> INT_MAX \<Longrightarrow> int32 x = x"
  by (simp add: int32_def INT_MAX_def)

lemma bytelength_loop_eq:
  "0 \<le> acc \<Longrightarrow> acc + int (buffers_bytes bufs) \<le> INT_MAX \<Longrightarrow>
   bytelength_loop bufs acc = acc + int (buffers_bytes bufs)"
proof (induction bufs arbitrary: acc)
  case Nil
  then show ?case by (simp add: buffers_bytes_def)
next
  case (Cons arr arrs)
  have a: "int32 (int (length arr)) = int (length arr)"
    using Cons.prems by (intro int32_id_max) (auto simp: buffers_bytes_def)
  have b: "int32 (acc + int (length arr)) = acc + int (length arr)"
    using Cons.prems by (intro int32_id_max) (auto simp: buffers_bytes_def)
  show ?case
    using Cons.prems Cons.IH[of "acc + int (length arr)"]
    by (simp add: a b buffers_bytes_def)
qed

lemma appended_data_bytelength_eq:
  "int (buffers_bytes (m_appended_data w)) \<le> INT_MAX \<Longrightarrow>
   appended_data_bytelength w = int (buffers_bytes (m_appended_data w))"
  using bytelength_loop_eq[of 0 "m_appended_data w"] by (simp add: appended_data_bytelength_def)

text \<open>
  Claim C5, amended. In appended mode (and not ascii), with the buffers that the writer
  holds (\<open>m_appended_data\<close>) no longer in total than an \<open>int\<close> holds, every call of
  \<open>vtk_data_array\<close> writes a \<open>DataArray\<close> tag whose \<open>Offset\<close> attribute is the decimal text
  of the sum of the lengths of the buffers that the writer holds, writes no payload
  inline, and then puts its own buffer behind them. The writer holds every buffer
  submitted since it was constructed: a new writer holds none (so its first array gets
  offset 0), and neither \<open>open_file\<close> nor \<open>close_file\<close> takes a buffer away, so the
  buffers of an earlier session on the same writer count too.
\<close>

theorem appended_offset:
  assumes "appended w" and "\<not> ascii w"
    and "int (buffers_bytes (m_appended_data w)) \<le> INT_MAX"
  shows "(\<exists>buffer w'.
     vtk_data_array E name arr (w, out) =
       (None, (w', out @ [OpenTag ''DataArray''
                            [(''type'', array_type arr), (''Name'', name),
                             (''NumberOfComponents'', array_components arr),
                             (''format'', ''appended''),
                             (''Offset'', to_string (int (buffers_bytes (m_appended_data w))))],
                          CloseTag ''DataArray'']))
     \<and> m_appended_data w' = m_appended_data w @ [buffer])
   \<and> m_appended_data new_VtkWriter = []
   \<and> m_appended_data (fst (snd (open_file file_type (w, out)))) = m_appended_data w
   \<and> m_appended_data (fst (close_file (w, out))) = m_appended_data w"
proof -
  have 1: "\<exists>buffer w'.
     vtk_data_array E name arr (w, out) =
       (None, (w', out @ [OpenTag ''DataArray''
                            [(''type'', array_type arr), (''Name'', name),
                             (''NumberOfComponents'', array_components arr),
                             (''format'', ''appended''),
                             (''Offset'', to_string (int (buffers_bytes (m_appended_data w))))],
                          CloseTag ''DataArray'']))
     \<and> m_appended_data w' = m_appended_data w @ [buffer]"
    using assms
    by (simp add: vtk_data_array_def vtk_data_array_format_options_def
        appended_data_bytelength_eq open_tag_def xml_open_tag_def close_tag_def xml_close_tag_def
        vtk_data_array_generate_buffer_def Let_def)
  have 2: "m_appended_data new_VtkWriter = []"
    by (simp add: new_VtkWriter_def)
  have 3: "m_appended_data (fst (snd (open_file file_type (w, out)))) = m_appended_data w"
    by (cases file_type)
      (simp_all add: open_file_def xml_header_def vtk_unstructured_file_header_def open_tag_def
        xml_open_tag_def Let_def)
  have 4: "m_appended_data (fst (close_file (w, out))) = m_appended_data w"
    by (simp add: close_file_def close_tag_def xml_close_tag_def open_tag_def xml_open_tag_def
        put_chars_def Let_def split: list.splits)
  show ?thesis using 1 2 3 4 by (intro conjI)
qed

lemma to_string_0: "to_string 0 = ''0''"
  by (simp add: to_string_def nat_to_string.simps digit_char_def)

lemma to_string_4: "to_string 4 = ''4''"
  by (simp add: to_string_def nat_to_string.simps digit_char_def)

theorem appended_offset_witness:
  "appended new_VtkWriter \<and> \<not> ascii new_VtkWriter
   \<and> int (buffers_bytes (m_appended_data new_VtkWriter)) \<le> INT_MAX
   \<and> data_array_offsets
        (snd (snd (vtk_data_array demo_codec ''types'' (Integers [5]) (new_VtkWriter, []))))
       = [Some ''0'']
   \<and> data_array_offsets
        (snd (snd (vtk_data_array demo_codec ''types'' (Integers [5])
                     (new_VtkWriter\<lparr>m_appended_data := [''abcd'']\<rparr>, []))))
       = [Some ''4'']"
proof -
  have a: "appended new_VtkWriter" "\<not> ascii new_VtkWriter"
    "int (buffers_bytes (m_appended_data new_VtkWriter)) \<le> INT_MAX"
    by (simp_all add: new_VtkWriter_def buffers_bytes_def INT_MAX_def)
  have b: "appended (new_VtkWriter\<lparr>m_appended_data := [''abcd'']\<rparr>)"
    "\<not> ascii (new_VtkWriter\<lparr>m_appended_data := [''abcd'']\<rparr>)"
    "int (buffers_bytes (m_appended_data (new_VtkWriter\<lparr>m_appended_data := [''abcd'']\<rparr>))) \<le> INT_MAX"
    by (simp_all add: new_VtkWriter_def buffers_bytes_def INT_MAX_def)
  from appended_offset[OF a, of demo_codec "''types''" "Integers [5]" "[]", THEN conjunct1]
  have 1: "data_array_offsets
        (snd (snd (vtk_data_array demo_codec ''types'' (Integers [5]) (new_VtkWriter, []))))
       = [Some ''0'']"
    by (auto simp: new_VtkWriter_def buffers_bytes_def to_string_0)
  from appended_offset[OF b, of demo_codec "''types''" "Integers [5]" "[]", THEN conjunct1]
  have 2: "data_array_offsets
        (snd (snd (vtk_data_array demo_codec ''types'' (Integers [5])
                     (new_VtkWriter\<lparr>m_appended_data := [''abcd'']\<rparr>, []))))
       = [Some ''4'']"
    by (auto simp: buffers_bytes_def to_string_4)
  show ?thesis using a 1 2 by simp
qed

text \<open>
  Claim C5 as stated, at a second session: the writer that wrote and closed one file
  (four arrays, 144 bytes of buffers) opens a second file and writes the same piece
  again. No buffer was submitted in the second session before its first array, and the
  \<open>Offset\<close> of that array is 144, where the first session had 0.
\<close>

theorem second_session_offset:
  "fst (open_file UnstructuredGrid (fst first_session, [])) = None
   \<and> m_appended_data (fst second_open) = m_appended_data (fst demo_session)
   \<and> fst (write_piece True demo_codec demo_dataset second_open) = None
   \<and> data_array_offsets (snd demo_session) = [Some ''0'', Some ''80'', Some ''96'', Some ''112'']
   \<and> data_array_offsets (snd second_session)
       = [Some ''144'', Some ''224'', Some ''240'', Some ''256'']"
  by code_simp

text \<open>
  Claim C6, amended. \<open>close_file\<close>, called with the grid container tag innermost and the
  document tag around it (and no more buffers than an \<open>int\<close> counts), closes the grid
  container tag, then writes the trailer element if and only if the writer holds a
  buffer, then closes the document tag. The trailer is one \<open>AppendedData\<close> element, its
  encoding attribute \<open>ascii\<close> or \<open>base64\<close> after the writer's setting, holding the
  underscore that marks the start of appended data and then the characters of all the
  buffers that the writer holds, in the order of submission. \<open>close_file\<close> leaves the
  buffers with the writer, so they are those submitted since the writer was
  constructed, in this session or an earlier one.
\<close>

theorem close_file_trailer:
  assumes "m_xml_writer w = grid # doc # others"
    and "int (length (m_appended_data w)) \<le> INT_MAX"
  shows "snd (close_file (w, out)) =
     out @ [CloseTag grid]
         @ (if m_appended_data w = [] then []
            else [OpenTag ''AppendedData''
                    [(''encoding'', if ascii w then ''ascii'' else ''base64'')], Ch CHR ''_'']
                 @ map Ch (concat (m_appended_data w))
                 @ [CloseTag ''AppendedData''])
         @ [CloseTag doc]
   \<and> m_appended_data (fst (close_file (w, out))) = m_appended_data w"
proof -
  have "int32 (int (length (m_appended_data w))) = int (length (m_appended_data w))"
    using assms(2) by (intro int32_id_max) auto
  then show ?thesis
    using assms(1)
    by (simp add: close_file_def close_tag_def xml_close_tag_def open_tag_def xml_open_tag_def
        put_chars_def Let_def)
qed

lemmas writer_defs = write_piece_def vtk_unstructured_piece_def vtk_unstructured_mesh_def
      vtk_unstructured_cells_def vtk_unstructured_point_data_def vtk_unstructured_cell_data_def
      vtk_data_array_def vtk_data_array_format_options_def open_tag_def xml_open_tag_def
      close_tag_def xml_close_tag_def put_chars_def vtk_data_array_generate_buffer_def
      open_file_def xml_header_def xml_header_item_def vtk_unstructured_file_header_def
      seq_def Let_def

lemma demo_stack: "m_xml_writer (fst demo_session) = [''UnstructuredGrid'', ''VTKFile'']"
  by (simp add: demo_session_def new_VtkWriter_def demo_dataset_def writer_defs)

lemma demo_nbufs: "length (m_appended_data (fst demo_session)) = 4"
  by (simp add: demo_session_def new_VtkWriter_def demo_dataset_def writer_defs)

theorem close_file_trailer_witness:
  "m_xml_writer (fst demo_session) = ''UnstructuredGrid'' # ''VTKFile'' # []
   \<and> int (length (m_appended_data (fst demo_session))) \<le> INT_MAX
   \<and> m_appended_data (fst demo_session) \<noteq> []
   \<and> snd (close_file demo_session) =
       snd demo_session
         @ [CloseTag ''UnstructuredGrid'',
            OpenTag ''AppendedData'' [(''encoding'', ''base64'')], Ch CHR ''_'']
         @ map Ch (concat (m_appended_data (fst demo_session)))
         @ [CloseTag ''AppendedData'', CloseTag ''VTKFile'']
   \<and> snd (close_file (new_VtkWriter\<lparr>m_xml_writer := [''UnstructuredGrid'', ''VTKFile'']\<rparr>, [])) =
       [CloseTag ''UnstructuredGrid'', CloseTag ''VTKFile'']"
proof -
  have a: "m_xml_writer (fst demo_session) = ''UnstructuredGrid'' # ''VTKFile'' # []"
    by (rule demo_stack)
  have b: "int (length (m_appended_data (fst demo_session))) \<le> INT_MAX"
    by (simp add: demo_nbufs INT_MAX_def)
  have c: "m_appended_data (fst demo_session) \<noteq> []"
    using demo_nbufs by auto
  have d: "\<not> ascii (fst demo_session)"
    by (simp add: demo_session_def new_VtkWriter_def demo_dataset_def writer_defs)
  have e: "m_xml_writer (new_VtkWriter\<lparr>m_xml_writer := [''UnstructuredGrid'', ''VTKFile'']\<rparr>)
             = ''UnstructuredGrid'' # ''VTKFile'' # []"
    "int (length (m_appended_data (new_VtkWriter\<lparr>m_xml_writer := [''UnstructuredGrid'', ''VTKFile'']\<rparr>))) \<le> INT_MAX"
    by (simp_all add: new_VtkWriter_def INT_MAX_def)
  have "snd (close_file demo_session) =
       snd demo_session
         @ [CloseTag ''UnstructuredGrid'',
            OpenTag ''AppendedData'' [(''encoding'', ''base64'')], Ch CHR ''_'']
         @ map Ch (concat (m_appended_data (fst demo_session)))
         @ [CloseTag ''AppendedData'', CloseTag ''VTKFile'']"
    using close_file_trailer[OF a b, of "snd demo_session", THEN conjunct1] c d by simp
  moreover have "snd (close_file (new_VtkWriter\<lparr>m_xml_writer := [''UnstructuredGrid'', ''VTKFile'']\<rparr>, [])) =
       [CloseTag ''UnstructuredGrid'', CloseTag ''VTKFile'']"
    using close_file_trailer[OF e, of "[]", THEN conjunct1] by (simp add: new_VtkWriter_def)
  ultimately show ?thesis using a b c by simp
qed

text \<open>
  Claim C6 as stated, at a second session: the writer that wrote and closed one file
  opens a second file and closes it at once. No buffer was submitted in the second
  session, and \<open>close_file\<close> writes a trailer all the same: the underscore and the 144
  bytes of the four buffers of the first session.
\<close>

theorem stale_trailer:
  "m_appended_data (fst second_open) = m_appended_data (fst demo_session)
   \<and> length (concat (m_appended_data (fst demo_session))) = 144
   \<and> snd (close_file second_open) =
       [XmlHeader ''1.0'' ''UTF-8'',
        OpenTag ''VTKFile'' [(''type'', ''UnstructuredGrid''), (''version'', ''1.0''),
                             (''byte_order'', ''LittleEndian''), (''header_type'', ''UInt64'')],
        OpenTag ''UnstructuredGrid'' [],
        CloseTag ''UnstructuredGrid'',
        OpenTag ''AppendedData'' [(''encoding'', ''base64'')], Ch CHR ''_'']
       @ map Ch (concat (m_appended_data (fst demo_session)))
       @ [CloseTag ''AppendedData'', CloseTag ''VTKFile'']"
  by code_simp

text \<open>
  Claim C7. With ascii and appended both selected, \<open>write_piece\<close> does not return: it
  ends with a failure (the failed \<open>assert\<close> in a build with assertions; otherwise the
  exception for a file that is not open as an unstructured grid, or, on an open file,
  \<open>std::terminate\<close> from the \<open>throw;\<close> of \<open>vtk_data_array_format_options\<close>). What it has
  written by then holds no \<open>DataArray\<close> tag and no character of a payload, and no buffer
  was submitted.
\<close>

theorem ascii_appended_rejected:
  assumes "ascii w" and "appended w"
  shows "fst (write_piece ndebug E data (w, out)) =
           Some (if \<not> ndebug then AssertFailed
                 else if m_file_type w \<noteq> UnstructuredGrid
                   then StdException ''HBTK::Vtk::VtkWriter::write_piece''
                 else Terminate)
    \<and> take (length out) (snd (snd (write_piece ndebug E data (w, out)))) = out
    \<and> list_all (\<lambda>item. \<not> is_array_output item)
         (drop (length out) (snd (snd (write_piece ndebug E data (w, out)))))
    \<and> m_appended_data (fst (snd (write_piece ndebug E data (w, out)))) = m_appended_data w"
  using assms
  by (simp add: write_piece_def vtk_unstructured_piece_def vtk_unstructured_mesh_def
      vtk_data_array_def vtk_data_array_format_options_def open_tag_def xml_open_tag_def
      seq_def Let_def)

theorem ascii_appended_rejected_witness:
  "ascii demo_ascii_appended \<and> appended demo_ascii_appended
   \<and> fst (write_piece True demo_codec demo_dataset (demo_ascii_appended, [])) = Some Terminate
   \<and> fst (write_piece False demo_codec demo_dataset (demo_ascii_appended, [])) = Some AssertFailed
   \<and> data_array_offsets
        (snd (snd (write_piece True demo_codec demo_dataset (demo_ascii_appended, [])))) = []"
proof -
  have a: "ascii demo_ascii_appended" "appended demo_ascii_appended"
    by (simp_all add: demo_ascii_appended_def new_VtkWriter_def)
  have t: "m_file_type demo_ascii_appended = UnstructuredGrid"
    by (simp add: demo_ascii_appended_def)
  have "fst (write_piece True demo_codec demo_dataset (demo_ascii_appended, [])) = Some Terminate"
    using ascii_appended_rejected[OF a, of True demo_codec demo_dataset "[]"] t by simp
  moreover
  have "fst (write_piece False demo_codec demo_dataset (demo_ascii_appended, [])) = Some AssertFailed"
    using ascii_appended_rejected[OF a, of False demo_codec demo_dataset "[]"] by simp
  moreover
  have "data_array_offsets
        (snd (snd (write_piece True demo_codec demo_dataset (demo_ascii_appended, [])))) = []"
    using a t by (simp add: writer_defs demo_dataset_def)
  ultimately show ?thesis using a by simp
qed

section \<open>The writer: a whole piece\<close>

lemma data_array_offsets_append:
  "data_array_offsets (xs @ ys) = data_array_offsets xs @ data_array_offsets ys"
  by (induction xs rule: data_array_offsets.induct) auto

lemma buffers_bytes_take_le: "buffers_bytes (take k bufs) \<le> buffers_bytes bufs"
proof -
  have "buffers_bytes bufs = buffers_bytes (take k bufs) + buffers_bytes (drop k bufs)"
    unfolding buffers_bytes_def by (metis append_take_drop_id map_append sum_list_append)
  then show ?thesis by simp
qed

lemma appended_step_seq:
  assumes "appended_step f" and "appended_step g"
  shows "appended_step (\<lambda>s. seq (f s) g)"
  unfolding appended_step_def
proof (intro allI impI)
  fix s :: wstate
  assume m: "appended (fst s) \<and> \<not> ascii (fst s)"
  obtain r s1 where f: "f s = (r, s1)" by (metis prod.exhaust)
  from assms(1) m f have f1: "appended (fst s1) \<and> \<not> ascii (fst s1)"
    and f2: "take (length (m_appended_data (fst s))) (m_appended_data (fst s1)) = m_appended_data (fst s)"
    and f3: "offsets_consistent s \<and> int (buffers_bytes (m_appended_data (fst s1))) \<le> INT_MAX
             \<longrightarrow> offsets_consistent s1"
    unfolding appended_step_def by (metis snd_conv)+
  show "appended (fst (snd (seq (f s) g))) \<and> \<not> ascii (fst (snd (seq (f s) g)))
        \<and> take (length (m_appended_data (fst s))) (m_appended_data (fst (snd (seq (f s) g))))
            = m_appended_data (fst s)
        \<and> (offsets_consistent s
             \<and> int (buffers_bytes (m_appended_data (fst (snd (seq (f s) g))))) \<le> INT_MAX
             \<longrightarrow> offsets_consistent (snd (seq (f s) g)))"
  proof (cases r)
    case (Some e)
    then show ?thesis using f f1 f2 f3 by (simp add: seq_def)
  next
    case None
    let ?s2 = "snd (g s1)"
    have sq: "snd (seq (f s) g) = ?s2" using f None by (simp add: seq_def)
    from assms(2) f1 have g1: "appended (fst ?s2) \<and> \<not> ascii (fst ?s2)"
      and g2: "take (length (m_appended_data (fst s1))) (m_appended_data (fst ?s2)) = m_appended_data (fst s1)"
      and g3: "offsets_consistent s1 \<and> int (buffers_bytes (m_appended_data (fst ?s2))) \<le> INT_MAX
             \<longrightarrow> offsets_consistent ?s2"
      unfolding appended_step_def by blast+
    have len: "length (m_appended_data (fst s)) \<le> length (m_appended_data (fst s1))"
      using arg_cong[OF f2, of length] by simp
    have t: "take (length (m_appended_data (fst s))) (m_appended_data (fst ?s2)) = m_appended_data (fst s)"
      using f2 g2 len by (metis min.absorb1 take_take)
    have le: "buffers_bytes (m_appended_data (fst s1)) \<le> buffers_bytes (m_appended_data (fst ?s2))"
      using buffers_bytes_take_le[of "length (m_appended_data (fst s1))" "m_appended_data (fst ?s2)"] g2
      by simp
    show ?thesis
      unfolding sq using g1 t f3 g3 le by auto
  qed
qed

lemma appended_step_quiet:
  assumes "\<And>s. fst (h s) = fst s\<lparr>m_xml_writer := m_xml_writer (fst (h s))\<rparr>"
    and "\<And>s. data_array_offsets (snd (h s)) = data_array_offsets (snd s)"
  shows "appended_step (\<lambda>s. (None, h s))"
  unfolding appended_step_def offsets_consistent_def
proof (intro allI impI)
  fix s :: wstate
  assume m: "appended (fst s) \<and> \<not> ascii (fst s)"
  have a: "appended (fst (h s)) = appended (fst s)" "ascii (fst (h s)) = ascii (fst s)"
    "m_appended_data (fst (h s)) = m_appended_data (fst s)"
    by (subst assms(1), simp)+
  show "appended (fst (snd (None, h s))) \<and> \<not> ascii (fst (snd (None, h s)))
     \<and> take (length (m_appended_data (fst s))) (m_appended_data (fst (snd (None, h s))))
         = m_appended_data (fst s)
     \<and> (data_array_offsets (snd s) =
          map (\<lambda>k. Some (to_string (int (buffers_bytes (take k (m_appended_data (fst s)))))))
            [0..<length (m_appended_data (fst s))]
          \<and> int (buffers_bytes (m_appended_data (fst (snd (None, h s))))) \<le> INT_MAX
         \<longrightarrow> data_array_offsets (snd (snd (None, h s))) =
          map (\<lambda>k. Some (to_string (int (buffers_bytes (take k (m_appended_data (fst (snd (None, h s)))))))))
            [0..<length (m_appended_data (fst (snd (None, h s))))])"
    using m a assms(2) by simp
qed

lemma open_tag_quiet:
  "fst (open_tag name attrs s) = fst s\<lparr>m_xml_writer := m_xml_writer (fst (open_tag name attrs s))\<rparr>"
  "name \<noteq> ''DataArray'' \<Longrightarrow>
     data_array_offsets (snd (open_tag name attrs s)) = data_array_offsets (snd s)"
  by (cases s; simp add: open_tag_def xml_open_tag_def data_array_offsets_append)+

lemma close_tag_quiet:
  "fst (close_tag s) = fst s\<lparr>m_xml_writer := m_xml_writer (fst (close_tag s))\<rparr>"
  "data_array_offsets (snd (close_tag s)) = data_array_offsets (snd s)"
  by (cases s; simp add: close_tag_def xml_close_tag_def data_array_offsets_append split: list.splits)+

lemma appended_step_close: "appended_step (\<lambda>s. (None, close_tag s))"
  by (rule appended_step_quiet) (rule close_tag_quiet)+

lemma appended_step_compose:
  assumes "appended_step f"
    and "\<And>s. fst (h s) = fst s\<lparr>m_xml_writer := m_xml_writer (fst (h s))\<rparr>"
    and "\<And>s. data_array_offsets (snd (h s)) = data_array_offsets (snd s)"
  shows "appended_step (\<lambda>s. f (h s))"
proof -
  have "appended_step (\<lambda>s. seq (None, h s) f)"
    by (rule appended_step_seq[OF appended_step_quiet[of h] assms(1)]) (rule assms(2) assms(3))+
  then show ?thesis by (simp add: seq_def)
qed


lemma appended_step_data_array: "appended_step (vtk_data_array E name arr)"
  unfolding appended_step_def
proof (intro allI impI)
  fix s :: wstate
  assume m: "appended (fst s) \<and> \<not> ascii (fst s)"
  obtain w out where s: "s = (w, out)" by (cases s)
  define buffer where
    "buffer = encode_base64 E (raw_buffer E arr) (int32 (int (length (raw_buffer E arr))))"
  define tag where "tag = OpenTag ''DataArray''
     [(''type'', array_type arr), (''Name'', name), (''NumberOfComponents'', array_components arr),
      (''format'', ''appended''), (''Offset'', to_string (appended_data_bytelength w))]"
  have r: "vtk_data_array E name arr (w, out) =
             (None, (w\<lparr>m_appended_data := m_appended_data w @ [buffer]\<rparr>,
                     out @ [tag, CloseTag ''DataArray'']))"
    using m unfolding s tag_def buffer_def
    by (simp add: vtk_data_array_def vtk_data_array_format_options_def open_tag_def
        xml_open_tag_def close_tag_def xml_close_tag_def vtk_data_array_generate_buffer_def Let_def)
  have c: "offsets_consistent (w\<lparr>m_appended_data := m_appended_data w @ [buffer]\<rparr>,
                               out @ [tag, CloseTag ''DataArray''])"
    if oc: "offsets_consistent (w, out)"
      and le: "int (buffers_bytes (m_appended_data w @ [buffer])) \<le> INT_MAX"
  proof -
    let ?bufs = "m_appended_data w"
    have "buffers_bytes ?bufs \<le> buffers_bytes (?bufs @ [buffer])"
      by (simp add: buffers_bytes_def)
    then have "int (buffers_bytes ?bufs) \<le> INT_MAX"
      using le by simp
    then have off: "appended_data_bytelength w = int (buffers_bytes ?bufs)"
      by (rule appended_data_bytelength_eq)
    have 1: "data_array_offsets (out @ [tag, CloseTag ''DataArray''])
            = data_array_offsets out @ [Some (to_string (int (buffers_bytes ?bufs)))]"
      by (simp add: data_array_offsets_append tag_def off)
    have 2: "map (\<lambda>k. Some (to_string (int (buffers_bytes (take k (?bufs @ [buffer]))))))
               [0..<length (?bufs @ [buffer])]
           = map (\<lambda>k. Some (to_string (int (buffers_bytes (take k ?bufs))))) [0..<length ?bufs]
             @ [Some (to_string (int (buffers_bytes ?bufs)))]"
      by simp
    have 3: "m_appended_data (w\<lparr>m_appended_data := ?bufs @ [buffer]\<rparr>) = ?bufs @ [buffer]"
      by simp
    show ?thesis
      using oc unfolding offsets_consistent_def fst_conv snd_conv 1 3 2
      by (rule arg_cong)
  qed
  show "appended (fst (snd (vtk_data_array E name arr s)))
        \<and> \<not> ascii (fst (snd (vtk_data_array E name arr s)))
        \<and> take (length (m_appended_data (fst s)))
             (m_appended_data (fst (snd (vtk_data_array E name arr s))))
            = m_appended_data (fst s)
        \<and> (offsets_consistent s
             \<and> int (buffers_bytes (m_appended_data (fst (snd (vtk_data_array E name arr s))))) \<le> INT_MAX
             \<longrightarrow> offsets_consistent (snd (vtk_data_array E name arr s)))"
    unfolding s r using m c by (simp add: s)
qed

lemma appended_step_data_arrays: "appended_step (data_arrays E arrs)"
proof (induction arrs)
  case Nil
  have "appended_step (\<lambda>s::wstate. (None, s))"
    by (rule appended_step_quiet[of "\<lambda>s. s"]) simp_all
  then show ?case by (simp add: data_arrays.simps[abs_def])
next
  case (Cons a arrs)
  have "appended_step (\<lambda>s. seq (vtk_data_array E (fst a) (snd a) s) (data_arrays E arrs))"
    by (rule appended_step_seq[OF appended_step_data_array Cons.IH])
  moreover have "data_arrays E (a # arrs) = (\<lambda>s. seq (vtk_data_array E (fst a) (snd a) s) (data_arrays E arrs))"
    by (rule ext) simp
  ultimately show ?case by simp
qed

lemma appended_step_cells: "appended_step (vtk_unstructured_cells E m)"
proof -
  have "appended_step (\<lambda>s. seq (seq (seq (vtk_data_array E ''types'' (Integers (cells_types m)) (open_tag ''Cells'' [] s))
                   (vtk_data_array E ''offsets'' (Integers (cells_offsets m))))
              (vtk_data_array E ''connectivity'' (Integers (cells_connectivity m))))
         (\<lambda>s. (None, close_tag s)))"
    by (intro appended_step_seq appended_step_close appended_step_data_array
        appended_step_compose[where h = "open_tag ''Cells'' []"] open_tag_quiet) simp
  then show ?thesis by (simp add: vtk_unstructured_cells_def[abs_def])
qed

lemma appended_step_mesh: "appended_step (vtk_unstructured_mesh E m)"
proof -
  have "appended_step (\<lambda>s. seq (seq (vtk_data_array E ''Points'' (Points (points m)) (open_tag ''Points'' [] s))
              (\<lambda>s. (None, close_tag s)))
         (vtk_unstructured_cells E m))"
    by (intro appended_step_seq appended_step_close appended_step_data_array appended_step_cells
        appended_step_compose[where h = "open_tag ''Points'' []"] open_tag_quiet) simp
  then show ?thesis by (simp add: vtk_unstructured_mesh_def[abs_def])
qed

lemma appended_step_point_data: "appended_step (vtk_unstructured_point_data E data)"
proof -
  have "appended_step (\<lambda>s. seq (seq (seq (data_arrays E (map (\<lambda>(n, a). (n, Integers a)) (integer_point_data data))
                      (open_tag ''PointData'' [] s))
                   (data_arrays E (map (\<lambda>(n, a). (n, Scalars a)) (scalar_point_data data))))
              (data_arrays E (map (\<lambda>(n, a). (n, Vectors a)) (vector_point_data data))))
         (\<lambda>s. (None, close_tag s)))"
    by (intro appended_step_seq appended_step_close appended_step_data_arrays
        appended_step_compose[where h = "open_tag ''PointData'' []"] open_tag_quiet) simp
  then show ?thesis by (simp add: vtk_unstructured_point_data_def[abs_def])
qed

lemma appended_step_cell_data: "appended_step (vtk_unstructured_cell_data E data)"
proof -
  have "appended_step (\<lambda>s. seq (seq (seq (data_arrays E (map (\<lambda>(n, a). (n, Integers a)) (integer_cell_data data))
                      (open_tag ''CellData'' [] s))
                   (data_arrays E (map (\<lambda>(n, a). (n, Scalars a)) (scalar_cell_data data))))
              (data_arrays E (map (\<lambda>(n, a). (n, Vectors a)) (vector_cell_data data))))
         (\<lambda>s. (None, close_tag s)))"
    by (intro appended_step_seq appended_step_close appended_step_data_arrays
        appended_step_compose[where h = "open_tag ''CellData'' []"] open_tag_quiet) simp
  then show ?thesis by (simp add: vtk_unstructured_cell_data_def[abs_def])
qed


lemma appended_step_fail: "appended_step (\<lambda>s. (Some e, s))"
  unfolding appended_step_def by simp

lemma appended_step_write_piece: "appended_step (write_piece ndebug E data)"
proof -
  define body where "body = (\<lambda>s. seq (seq (seq (vtk_unstructured_mesh E (mesh data)
                         (vtk_unstructured_piece (int32 (int (length (points (mesh data)))))
                            (int32 (int (length (cells (mesh data))))) s))
                      (vtk_unstructured_point_data E data))
                 (vtk_unstructured_cell_data E data))
            (\<lambda>s. (None, close_tag s)))"
  have b: "appended_step body"
    unfolding body_def vtk_unstructured_piece_def
    by (intro appended_step_seq appended_step_close appended_step_mesh appended_step_point_data
        appended_step_cell_data appended_step_compose[where f = "vtk_unstructured_mesh E (mesh data)"]
        open_tag_quiet) simp
  show ?thesis
    unfolding appended_step_def
  proof (intro allI impI)
    fix s :: wstate
    assume m: "appended (fst s) \<and> \<not> ascii (fst s)"
    have "write_piece ndebug E data s = body s \<or> (\<exists>e. write_piece ndebug E data s = (Some e, s))"
      by (simp add: write_piece_def body_def)
    then show "appended (fst (snd (write_piece ndebug E data s)))
        \<and> \<not> ascii (fst (snd (write_piece ndebug E data s)))
        \<and> take (length (m_appended_data (fst s)))
             (m_appended_data (fst (snd (write_piece ndebug E data s))))
            = m_appended_data (fst s)
        \<and> (offsets_consistent s
             \<and> int (buffers_bytes (m_appended_data (fst (snd (write_piece ndebug E data s))))) \<le> INT_MAX
             \<longrightarrow> offsets_consistent (snd (write_piece ndebug E data s)))"
    proof
      assume e: "write_piece ndebug E data s = body s"
      show ?thesis
        unfolding e using b[unfolded appended_step_def, rule_format, OF m] by blast
    next
      assume "\<exists>e. write_piece ndebug E data s = (Some e, s)"
      then show ?thesis using m by auto
    qed
  qed
qed

text \<open>
  A whole piece in appended, non-ascii mode: if the \<open>Offset\<close> attributes written so far
  are the running totals of the buffers submitted so far, they still are after
  \<open>write_piece\<close>, as long as all buffers together are no longer than an \<open>int\<close> holds. A
  new writer starts with no tag and no buffer, and \<open>open_file\<close> adds none.
\<close>

lemma write_piece_offsets:
  assumes "appended w" and "\<not> ascii w" and "offsets_consistent (w, out)"
    and "int (buffers_bytes (m_appended_data (fst (snd (write_piece ndebug E data (w, out))))))
           \<le> INT_MAX"
  shows "offsets_consistent (snd (write_piece ndebug E data (w, out)))"
  using appended_step_write_piece[of ndebug E data] assms unfolding appended_step_def
  by (metis fst_conv)

lemma new_writer_offsets: "offsets_consistent (new_VtkWriter, [])"
  by (simp add: offsets_consistent_def new_VtkWriter_def)

lemma open_file_offsets:
  "offsets_consistent s \<Longrightarrow> offsets_consistent (snd (open_file file_type s))"
  by (cases s; cases file_type)
     (simp_all add: offsets_consistent_def open_file_def xml_header_def xml_header_item_def
       vtk_unstructured_file_header_def open_tag_def xml_open_tag_def Let_def
       data_array_offsets_append)

section \<open>The writer: the stack of open tags\<close>

lemma balanced_seq:
  assumes "balanced f" and "balanced g"
  shows "balanced (\<lambda>s. seq (f s) g)"
  unfolding balanced_def
proof (intro allI impI)
  fix s :: wstate
  assume n: "fst (seq (f s) g) = None"
  obtain r s1 where f: "f s = (r, s1)" by (metis prod.exhaust)
  have r: "r = None" using n f by (cases r) (simp_all add: seq_def)
  have g: "fst (g s1) = None" using n f r by (simp add: seq_def)
  have "m_xml_writer (fst s1) = m_xml_writer (fst s)"
    using assms(1) f r unfolding balanced_def by (metis fst_conv snd_conv)
  moreover have "m_xml_writer (fst (snd (g s1))) = m_xml_writer (fst s1)"
    using assms(2) g unfolding balanced_def by blast
  ultimately show "m_xml_writer (fst (snd (seq (f s) g))) = m_xml_writer (fst s)"
    using f r by (simp add: seq_def)
qed

lemma balanced_bracket:
  assumes "balanced f"
  shows "balanced (\<lambda>s. seq (f (open_tag name attrs s)) (\<lambda>s. (None, close_tag s)))"
  unfolding balanced_def
proof (intro allI impI)
  fix s :: wstate
  assume n: "fst (seq (f (open_tag name attrs s)) (\<lambda>s. (None, close_tag s))) = None"
  obtain r s1 where f: "f (open_tag name attrs s) = (r, s1)" by (metis prod.exhaust)
  have r: "r = None" using n f by (cases r) (simp_all add: seq_def)
  have "m_xml_writer (fst s1) = m_xml_writer (fst (open_tag name attrs s))"
    using assms f r unfolding balanced_def by (metis fst_conv snd_conv)
  also have "\<dots> = name # m_xml_writer (fst s)"
    by (cases s) (simp add: open_tag_def xml_open_tag_def)
  finally have "m_xml_writer (fst (close_tag s1)) = m_xml_writer (fst s)"
    by (cases s1) (simp add: close_tag_def xml_close_tag_def)
  then show "m_xml_writer (fst (snd (seq (f (open_tag name attrs s)) (\<lambda>s. (None, close_tag s)))))
             = m_xml_writer (fst s)"
    using f r by (simp add: seq_def)
qed

lemma balanced_data_array: "balanced (vtk_data_array E name arr)"
  unfolding balanced_def
  by (auto simp: vtk_data_array_def vtk_data_array_generate_buffer_def open_tag_def
      xml_open_tag_def close_tag_def xml_close_tag_def put_chars_def Let_def
      split: sum.splits prod.splits)

lemma balanced_data_arrays: "balanced (data_arrays E arrs)"
proof (induction arrs)
  case Nil
  then show ?case by (simp add: balanced_def)
next
  case (Cons a arrs)
  have "balanced (\<lambda>s. seq (vtk_data_array E (fst a) (snd a) s) (data_arrays E arrs))"
    by (rule balanced_seq[OF balanced_data_array Cons.IH])
  moreover have "data_arrays E (a # arrs) = (\<lambda>s. seq (vtk_data_array E (fst a) (snd a) s) (data_arrays E arrs))"
    by (rule ext) simp
  ultimately show ?case by simp
qed

lemma balanced_cells: "balanced (vtk_unstructured_cells E m)"
proof -
  have "balanced (\<lambda>s. seq (seq (vtk_data_array E ''types'' (Integers (cells_types m)) s)
                   (vtk_data_array E ''offsets'' (Integers (cells_offsets m))))
              (vtk_data_array E ''connectivity'' (Integers (cells_connectivity m))))"
    by (intro balanced_seq balanced_data_array)
  from balanced_bracket[OF this, of "''Cells''" "[]"]
  show ?thesis by (simp add: vtk_unstructured_cells_def[abs_def])
qed

lemma balanced_mesh: "balanced (vtk_unstructured_mesh E m)"
proof -
  have "balanced (\<lambda>s. seq (vtk_data_array E ''Points'' (Points (points m)) (open_tag ''Points'' [] s))
              (\<lambda>s. (None, close_tag s)))"
    by (rule balanced_bracket[OF balanced_data_array])
  from balanced_seq[OF this balanced_cells[of E m]]
  show ?thesis by (simp add: vtk_unstructured_mesh_def[abs_def])
qed

lemma balanced_point_data: "balanced (vtk_unstructured_point_data E data)"
proof -
  have "balanced (\<lambda>s. seq (seq (data_arrays E (map (\<lambda>(n, a). (n, Integers a)) (integer_point_data data)) s)
                   (data_arrays E (map (\<lambda>(n, a). (n, Scalars a)) (scalar_point_data data))))
              (data_arrays E (map (\<lambda>(n, a). (n, Vectors a)) (vector_point_data data))))"
    by (intro balanced_seq balanced_data_arrays)
  from balanced_bracket[OF this, of "''PointData''" "[]"]
  show ?thesis by (simp add: vtk_unstructured_point_data_def[abs_def])
qed

lemma balanced_cell_data: "balanced (vtk_unstructured_cell_data E data)"
proof -
  have "balanced (\<lambda>s. seq (seq (data_arrays E (map (\<lambda>(n, a). (n, Integers a)) (integer_cell_data data)) s)
                   (data_arrays E (map (\<lambda>(n, a). (n, Scalars a)) (scalar_cell_data data))))
              (data_arrays E (map (\<lambda>(n, a). (n, Vectors a)) (vector_cell_data data))))"
    by (intro balanced_seq balanced_data_arrays)
  from balanced_bracket[OF this, of "''CellData''" "[]"]
  show ?thesis by (simp add: vtk_unstructured_cell_data_def[abs_def])
qed

lemma balanced_write_piece: "balanced (write_piece ndebug E data)"
proof -
  have "balanced (\<lambda>s. seq (seq (vtk_unstructured_mesh E (mesh data) s)
                      (vtk_unstructured_point_data E data))
                 (vtk_unstructured_cell_data E data))"
    by (intro balanced_seq balanced_mesh balanced_point_data balanced_cell_data)
  from balanced_bracket[OF this, of "''Piece''"]
  have b: "balanced (\<lambda>s. seq (seq (seq (vtk_unstructured_mesh E (mesh data)
                         (vtk_unstructured_piece (int32 (int (length (points (mesh data)))))
                            (int32 (int (length (cells (mesh data))))) s))
                      (vtk_unstructured_point_data E data))
                 (vtk_unstructured_cell_data E data))
            (\<lambda>s. (None, close_tag s)))"
    by (simp add: vtk_unstructured_piece_def)
  show ?thesis
    unfolding balanced_def
  proof (intro allI impI)
    fix s :: wstate
    assume n: "fst (write_piece ndebug E data s) = None"
    define body where "body = (\<lambda>s. seq (seq (seq (vtk_unstructured_mesh E (mesh data)
                         (vtk_unstructured_piece (int32 (int (length (points (mesh data)))))
                            (int32 (int (length (cells (mesh data))))) s))
                      (vtk_unstructured_point_data E data))
                 (vtk_unstructured_cell_data E data))
            (\<lambda>s. (None, close_tag s)))"
    have e: "write_piece ndebug E data s = body s"
      using n by (auto simp: write_piece_def body_def split: if_splits)
    have "fst (body s) = None" using n e by simp
    then have "m_xml_writer (fst (snd (body s))) = m_xml_writer (fst s)"
      using b[folded body_def, unfolded balanced_def, rule_format, of s] by simp
    then show "m_xml_writer (fst (snd (write_piece ndebug E data s))) = m_xml_writer (fst s)"
      by (simp add: e)
  qed
qed

text \<open>
  After \<open>open_file\<close> the grid container tag is innermost and the document tag around
  it, and a piece that is written leaves them so: the state in which \<open>close_file\<close>
  writes the trailer between the two closing tags.
\<close>

lemma open_file_stack:
  "open_file UnstructuredGrid (w, out) = (r, s1) \<Longrightarrow>
   r = None \<and> m_xml_writer (fst s1) = ''UnstructuredGrid'' # ''VTKFile'' # m_xml_writer w
   \<and> m_appended_data (fst s1) = m_appended_data w"
  by (auto simp: open_file_def xml_header_def xml_header_item_def vtk_unstructured_file_header_def
      open_tag_def xml_open_tag_def Let_def split: if_splits)

lemma write_piece_stack:
  "write_piece ndebug E data s = (None, s1) \<Longrightarrow> m_xml_writer (fst s1) = m_xml_writer (fst s)"
  using balanced_write_piece[of ndebug E data] unfolding balanced_def by (metis fst_conv snd_conv)

section \<open>The parser: registered functions\<close>

lemma run_functions_spy:
  "run_functions (map spy fs) blk (w, seen) =
     (run_functions fs blk w, seen @ replicate (invocations fs blk w) blk)"
proof (induction fs arbitrary: w seen)
  case Nil
  then show ?case by simp
next
  case (Cons f fs)
  obtain c b' w' where f: "f blk w = (c, b', w')" by (cases "f blk w") auto
  show ?case
    using Cons.IH[of w' "seen @ [blk]"]
    by (simp add: spy_def f replicate_app_Cons_same)
qed

lemma run_loggers_from:
  "run_functions (map (\<lambda>n. logger n (ps ! n) g) [k..<length ps]) blk w =
     w @ map (\<lambda>n. (n, blk)) [k..<min (length ps) (Suc (k + length (takeWhile (\<lambda>p. p blk) (drop k ps))))]"
proof (induction "length ps - k" arbitrary: k w)
  case 0
  then show ?case by simp
next
  case (Suc d)
  then have k: "k < length ps" by simp
  have upt: "[k..<length ps] = k # [Suc k..<length ps]" using k by (simp add: upt_conv_Cons)
  have dr: "drop k ps = ps ! k # drop (Suc k) ps" using k by (simp add: Cons_nth_drop_Suc)
  show ?case
  proof (cases "(ps ! k) blk")
    case True
    have "run_functions (map (\<lambda>n. logger n (ps ! n) g) [k..<length ps]) blk w =
          run_functions (map (\<lambda>n. logger n (ps ! n) g) [Suc k..<length ps]) blk (w @ [(k, blk)])"
      using True by (simp add: upt logger_def)
    also have "\<dots> = (w @ [(k, blk)]) @ map (\<lambda>n. (n, blk))
        [Suc k..<min (length ps) (Suc (Suc k + length (takeWhile (\<lambda>p. p blk) (drop (Suc k) ps))))]"
      using Suc.hyps(2) k by (intro Suc.hyps(1)) simp
    also have "\<dots> = w @ map (\<lambda>n. (n, blk))
        [k..<min (length ps) (Suc (k + length (takeWhile (\<lambda>p. p blk) (drop k ps))))]"
      using True k by (simp add: dr upt_conv_Cons)
    finally show ?thesis .
  next
    case False
    then show ?thesis using k by (simp add: upt dr logger_def upt_conv_Cons)
  qed
qed

lemma run_loggers:
  "run_functions (loggers ps g) blk w = w @ map (\<lambda>n. (n, blk)) [0..<called ps blk]"
  using run_loggers_from[of ps g 0 blk w] by (simp add: loggers_def called_def)


lemma fold_add_2D:
  "m_mesh_2d_functions (fold add_2D_block_function fs P) = m_mesh_2d_functions P @ fs"
  "m_mesh_3d_functions (fold add_2D_block_function fs P) = m_mesh_3d_functions P"
  "single_block (fold add_2D_block_function fs P) = single_block P"
  by (induction fs arbitrary: P) (simp_all add: add_2D_block_function_def)

lemma fold_add_3D:
  "m_mesh_3d_functions (fold add_3D_block_function fs P) = m_mesh_3d_functions P @ fs"
  "m_mesh_2d_functions (fold add_3D_block_function fs P) = m_mesh_2d_functions P"
  "single_block (fold add_3D_block_function fs P) = single_block P"
  by (induction fs arbitrary: P) (simp_all add: add_3D_block_function_def)

lemma registered_functions:
  "m_mesh_2d_functions (registered fs2 fs3 P) = m_mesh_2d_functions P @ fs2"
  "m_mesh_3d_functions (registered fs2 fs3 P) = m_mesh_3d_functions P @ fs3"
  "single_block (registered fs2 fs3 P) = single_block P"
  by (simp_all add: registered_def fold_add_2D fold_add_3D)

lemma ascii_block_step:
  "ascii_read_block L d ext st = (r, (st1, blk)) \<Longrightarrow>
   ascii_block L P d ext (st, w) =
     (r, (st1, if r = None
               then fan_out (m_mesh_2d_functions P) (m_mesh_3d_functions P) (given d ext blk) w
               else w))"
  by (cases r) (simp_all add: ascii_block_def dispatch_def fan_out_def given_def)

lemma binary_block_step:
  "binary_read_block L d ext st = (r, (st1, blk)) \<Longrightarrow>
   binary_block L P d ext (st, w) =
     (if r = None
      then (fst (record_close st1),
            (snd (record_close st1),
             fan_out (m_mesh_2d_functions P) (m_mesh_3d_functions P) (given d ext blk) w))
      else (r, (st1, w)))"
  by (cases r) (simp_all add: binary_block_def dispatch_def fan_out_def given_def Let_def split: prod.splits)

lemma ascii_blocks_fan:
  "for_each (ascii_block L P d) exts (st, w) =
     (case ascii_read_blocks L d exts st of
        (r, st', blks) \<Rightarrow>
          (r, (st', foldl (\<lambda>w b. fan_out (m_mesh_2d_functions P) (m_mesh_3d_functions P) b w) w blks)))"
proof (induction exts arbitrary: st w)
  case Nil
  then show ?case by simp
next
  case (Cons ext exts)
  obtain r st1 blk where rb: "ascii_read_block L d ext st = (r, (st1, blk))"
    by (metis prod.exhaust)
  show ?case
    by (cases r) (simp_all add: ascii_block_step[OF rb] rb seq_def Cons.IH split: prod.splits)
qed

lemma binary_blocks_fan:
  "for_each (binary_block L P d) exts (st, w) =
     (case binary_read_blocks L d exts st of
        (r, st', blks) \<Rightarrow>
          (r, (st', foldl (\<lambda>w b. fan_out (m_mesh_2d_functions P) (m_mesh_3d_functions P) b w) w blks)))"
proof (induction exts arbitrary: st w)
  case Nil
  then show ?case by simp
next
  case (Cons ext exts)
  obtain r st1 blk where rb: "binary_read_block L d ext st = (r, (st1, blk))"
    by (metis prod.exhaust)
  obtain rc st2 where rc: "record_close st1 = (rc, st2)" by (metis prod.exhaust)
  show ?case
    by (cases r; cases rc)
       (simp_all add: binary_block_step[OF rb] rb rc seq_def Cons.IH split: prod.splits)
qed

lemma ascii_number_of_blocks_settings:
  "ascii_number_of_blocks (P :: ('d, 'w) Plot3DParser) st
     = ascii_number_of_blocks (settings (single_block P) :: ('d, unit) Plot3DParser) st"
  by (simp add: ascii_number_of_blocks_def settings_def)

lemma binary_number_of_blocks_settings:
  "binary_number_of_blocks (P :: ('d, 'w) Plot3DParser) st
     = binary_number_of_blocks (settings (single_block P) :: ('d, unit) Plot3DParser) st"
  by (simp add: binary_number_of_blocks_def settings_def)

lemma parse_ascii_fan:
  "snd (snd (parse_ascii L P d (s, w))) =
     foldl (\<lambda>w b. fan_out (m_mesh_2d_functions P) (m_mesh_3d_functions P) b w) w
       (ascii_blocks L (single_block P) d s)"
  by (simp add: parse_ascii_def ascii_blocks_def ascii_blocks_fan
      ascii_number_of_blocks_settings[of P]
      split: prod.splits sum.splits option.splits)

lemma parse_binary_fan:
  "snd (snd (parse_binary L P d (s, w))) =
     foldl (\<lambda>w b. fan_out (m_mesh_2d_functions P) (m_mesh_3d_functions P) b w) w
       (binary_blocks L (single_block P) d s)"
  by (simp add: parse_binary_def binary_blocks_def binary_blocks_fan
      binary_number_of_blocks_settings[of P]
      split: prod.splits sum.splits option.splits)

lemma ascii_read_blocks_length:
  "ascii_read_blocks L d exts st = (None, st', blks) \<Longrightarrow> length blks = length exts"
proof (induction exts arbitrary: st blks)
  case Nil
  then show ?case by simp
next
  case (Cons ext exts)
  then show ?case
    by (auto split: prod.splits option.splits)
qed

lemma binary_read_blocks_length:
  "binary_read_blocks L d exts st = (None, st', blks) \<Longrightarrow> length blks = length exts"
proof (induction exts arbitrary: st blks)
  case Nil
  then show ?case by simp
next
  case (Cons ext exts)
  then show ?case
    by (auto split: prod.splits option.splits)
qed

lemma ascii_extents_length:
  "ascii_extents L d n st = (Inr exts, st') \<Longrightarrow> length exts = n"
proof (induction n arbitrary: st exts)
  case 0
  then show ?case by simp
next
  case (Suc n)
  then show ?case by (auto split: prod.splits sum.splits)
qed

lemma binary_extents_length:
  "binary_extents d n st = (Inr exts, st') \<Longrightarrow> length exts = n"
proof (induction n arbitrary: st exts)
  case 0
  then show ?case by simp
next
  case (Suc n)
  then show ?case by (auto split: prod.splits sum.splits)
qed

lemma parse_ascii_count:
  assumes "fst (parse_ascii L (P :: ('d::zero, 'w) Plot3DParser) d (s, w)) = None"
  shows "length (ascii_blocks L (single_block P) d s)
           = nat (fst (ascii_number_of_blocks P (new_locals s)))"
proof -
  obtain n st1 where nb: "ascii_number_of_blocks P (new_locals s) = (n, st1)"
    by (metis prod.exhaust)
  have nb': "ascii_number_of_blocks (settings (single_block P) :: ('d, unit) Plot3DParser)
               (new_locals s) = (n, st1)"
    using nb ascii_number_of_blocks_settings[of P] by simp
  have d: "d \<le> 3 \<and> 2 \<le> d" and n: "\<not> n < 0"
    using assms nb by (auto simp: parse_ascii_def split: if_splits)
  obtain r st2 where ex: "ascii_extents L d (nat n) st1 = (r, st2)" by (metis prod.exhaust)
  obtain exts where r: "r = Inr exts"
    using assms nb d n ex by (cases r) (auto simp: parse_ascii_def)
  obtain rb st3 blks where rb: "ascii_read_blocks L d exts st2 = (rb, st3, blks)"
    by (metis prod.exhaust)
  have "rb = None"
    using assms nb d n ex r rb by (cases rb) (auto simp: parse_ascii_def ascii_blocks_fan)
  then have "length blks = length exts"
    using rb ascii_read_blocks_length by blast
  moreover have "length exts = nat n"
    using ex r ascii_extents_length by blast
  ultimately show ?thesis
    using d n by (simp add: ascii_blocks_def nb nb' ex r rb)
qed

lemma parse_binary_count:
  assumes "fst (parse_binary L (P :: ('d::zero, 'w) Plot3DParser) d (s, w)) = None"
  shows "\<exists>n. fst (binary_number_of_blocks P (new_locals s)) = Inr n
           \<and> length (binary_blocks L (single_block P) d s) = nat n"
proof -
  obtain q st1 where nb: "binary_number_of_blocks P (new_locals s) = (q, st1)"
    by (metis prod.exhaust)
  have nb': "binary_number_of_blocks (settings (single_block P) :: ('d, unit) Plot3DParser)
               (new_locals s) = (q, st1)"
    using nb binary_number_of_blocks_settings[of P] by simp
  have d: "1 < d \<and> d \<le> 3"
    using assms by (auto simp: parse_binary_def split: if_splits)
  obtain n where q: "q = Inr n"
    using assms nb d by (cases q) (auto simp: parse_binary_def)
  obtain ro st2 where ro: "record_open st1 = (ro, st2)" by (metis prod.exhaust)
  have ro': "ro = None"
    using assms nb d q ro by (cases ro) (auto simp: parse_binary_def)
  obtain r st3 where ex: "binary_extents d (nat n) st2 = (r, st3)" by (metis prod.exhaust)
  obtain exts where r: "r = Inr exts"
    using assms nb d q ro ro' ex by (cases r) (auto simp: parse_binary_def)
  obtain rc st4 where rc: "record_close st3 = (rc, st4)" by (metis prod.exhaust)
  have rc': "rc = None"
    using assms nb d q ro ro' ex r rc by (cases rc) (auto simp: parse_binary_def)
  obtain rb st5 blks where rb: "binary_read_blocks L d exts st4 = (rb, st5, blks)"
    by (metis prod.exhaust)
  have "rb = None"
    using assms nb d q ro ro' ex r rc rc' rb
    by (cases rb) (auto simp: parse_binary_def binary_blocks_fan)
  then have "length blks = length exts"
    using rb binary_read_blocks_length by blast
  moreover have "length exts = nat n"
    using ex r binary_extents_length by blast
  ultimately have "length (binary_blocks L (single_block P) d s) = nat n"
    using d by (simp add: binary_blocks_def nb' q ro ro' ex r rc rc' rb)
  then show ?thesis using nb q by simp
qed

lemma two_blocks_ascii:
  "map (\<lambda>b. case b of Inl m \<Rightarrow> Some (coords2 m (0, 0)) | Inr m \<Rightarrow> None)
     (ascii_blocks demo_conversions False 2 (new_istream two_blocks_2d))
   = [Some [5, 6], Some [7, 8]]"
  by code_simp

lemma two_blocks_binary:
  "map (\<lambda>b. case b of Inl m \<Rightarrow> Some (coords2 m (0, 0)) | Inr m \<Rightarrow> None)
     (binary_blocks demo_conversions False 2 (new_istream binary_two_blocks))
   = [Some [5, 6], Some [7, 8]]"
  by code_simp

lemma two_blocks_return:
  "fst (parse_ascii demo_conversions (registered three_loggers [] new_Plot3DParser) 2
          (new_istream two_blocks_2d, [])) = None"
  "fst (parse_binary demo_conversions (registered three_loggers [] new_Plot3DParser) 2
          (new_istream binary_two_blocks, [])) = None"
  by code_simp+

text \<open>
  Claim C3. Let the functions \<open>fs2\<close> and \<open>fs3\<close> be registered, in this order, with a
  parser that holds the functions \<open>m_mesh_2d_functions P\<close> and \<open>m_mesh_3d_functions P\<close>
  already. What a parse (ascii or binary, 2D or 3D, whether it ends normally or with a
  failure) does to the state of the registered functions is then: for every block
  that the loop over the blocks completes, in order, one run of the loop over the
  functions of the block's kind, those registered earlier first, and each run starts
  at the first function again. The blocks are those that the reading code yields,
  whatever the functions return; a parse that returns normally has completed as many
  blocks as the block count says. And a run of the loop calls the functions in the
  order of the list, up to and including the first that returns false: with the
  functions \<open>loggers ps g\<close> it adds to the log the numbers \<open>0, ..., called ps blk - 1\<close>,
  each with the block.
\<close>

theorem consumers_fan_out:
  "snd (snd (parse_ascii L (registered fs2 fs3 P) d (s, w))) =
     foldl (\<lambda>w b. fan_out (m_mesh_2d_functions P @ fs2) (m_mesh_3d_functions P @ fs3) b w) w
       (ascii_blocks L (single_block P) d s)
   \<and> snd (snd (parse_binary L (registered fs2 fs3 P) d (s, w))) =
     foldl (\<lambda>w b. fan_out (m_mesh_2d_functions P @ fs2) (m_mesh_3d_functions P @ fs3) b w) w
       (binary_blocks L (single_block P) d s)
   \<and> (fst (parse_ascii L (registered fs2 fs3 P) d (s, w)) = None \<longrightarrow>
        length (ascii_blocks L (single_block P) d s)
          = nat (fst (ascii_number_of_blocks P (new_locals s))))
   \<and> (fst (parse_binary L (registered fs2 fs3 P) d (s, w)) = None \<longrightarrow>
        (\<exists>n. fst (binary_number_of_blocks P (new_locals s)) = Inr n
           \<and> length (binary_blocks L (single_block P) d s) = nat n))
   \<and> run_functions (loggers ps g) blk l = l @ map (\<lambda>n. (n, blk)) [0..<called ps blk]"
proof -
  let ?R = "registered fs2 fs3 P"
  have na: "ascii_number_of_blocks ?R st = ascii_number_of_blocks P st" for st
    by (simp add: ascii_number_of_blocks_def registered_functions)
  have nb: "binary_number_of_blocks ?R st = binary_number_of_blocks P st" for st
    by (simp add: binary_number_of_blocks_def registered_functions)
  have 1: "snd (snd (parse_ascii L ?R d (s, w))) =
     foldl (\<lambda>w b. fan_out (m_mesh_2d_functions P @ fs2) (m_mesh_3d_functions P @ fs3) b w) w
       (ascii_blocks L (single_block P) d s)"
    using parse_ascii_fan[of L ?R d s w] by (simp add: registered_functions)
  have 2: "snd (snd (parse_binary L ?R d (s, w))) =
     foldl (\<lambda>w b. fan_out (m_mesh_2d_functions P @ fs2) (m_mesh_3d_functions P @ fs3) b w) w
       (binary_blocks L (single_block P) d s)"
    using parse_binary_fan[of L ?R d s w] by (simp add: registered_functions)
  have 3: "fst (parse_ascii L ?R d (s, w)) = None \<longrightarrow>
        length (ascii_blocks L (single_block P) d s)
          = nat (fst (ascii_number_of_blocks P (new_locals s)))"
    using parse_ascii_count[of L ?R d s w] by (simp add: registered_functions na)
  have 4: "fst (parse_binary L ?R d (s, w)) = None \<longrightarrow>
        (\<exists>n. fst (binary_number_of_blocks P (new_locals s)) = Inr n
           \<and> length (binary_blocks L (single_block P) d s) = nat n)"
    using parse_binary_count[of L ?R d s w] by (simp add: registered_functions nb)
  have 5: "run_functions (loggers ps g) blk l = l @ map (\<lambda>n. (n, blk)) [0..<called ps blk]"
    by (rule run_loggers)
  show ?thesis using 1 2 3 4 5 by (intro conjI)
qed

theorem consumers_fan_out_witness:
  "fst (parse_ascii demo_conversions (registered three_loggers [] new_Plot3DParser) 2
          (new_istream two_blocks_2d, [])) = None
   \<and> map (\<lambda>(n, m). (n, coords2 m (0, 0)))
       (snd (snd (parse_ascii demo_conversions (registered three_loggers [] new_Plot3DParser) 2
                    (new_istream two_blocks_2d, []))))
     = [(0, [5, 6]), (1, [5, 6]), (0, [7, 8]), (1, [7, 8]), (2, [7, 8])]
   \<and> fst (parse_binary demo_conversions (registered three_loggers [] new_Plot3DParser) 2
          (new_istream binary_two_blocks, [])) = None
   \<and> map (\<lambda>(n, m). (n, coords2 m (0, 0)))
       (snd (snd (parse_binary demo_conversions (registered three_loggers [] new_Plot3DParser) 2
                    (new_istream binary_two_blocks, []))))
     = [(0, [5, 6]), (1, [5, 6]), (0, [7, 8]), (1, [7, 8]), (2, [7, 8])]
   \<and> length (ascii_blocks demo_conversions False 2 (new_istream two_blocks_2d)) = 2"
proof -
  define ps :: "(int StructuredMeshBlock2D \<Rightarrow> bool) list" where
    "ps = [\<lambda>block. True, \<lambda>block. coords2 block (0, 0) \<noteq> [5, 6], \<lambda>block. True]"
  define P0 :: "(int, (nat \<times> int StructuredMeshBlock2D) list) Plot3DParser" where
    "P0 = new_Plot3DParser"
  have P0: "m_mesh_2d_functions P0 = []" "m_mesh_3d_functions P0 = []" "single_block P0 = False"
    by (simp_all add: P0_def new_Plot3DParser_def)
  have tl: "three_loggers = loggers ps (\<lambda>block. block)"
    by (simp add: three_loggers_def ps_def)
  have run: "run_functions three_loggers m l = l @ map (\<lambda>n. (n, m)) [0..<called ps m]" for m l
    unfolding tl
    by (rule consumers_fan_out[THEN conjunct2, THEN conjunct2, THEN conjunct2, THEN conjunct2])
  have c1: "called ps m = 2" if "coords2 m (0, 0) = [5, 6]" for m
    using that by (simp add: called_def ps_def)
  have c2: "called ps m = 3" if "coords2 m (0, 0) = [7, 8]" for m
    using that by (simp add: called_def ps_def)
  have fan: "map (\<lambda>(n, m). (n, coords2 m (0, 0)))
               (foldl (\<lambda>w b. fan_out (m_mesh_2d_functions P0 @ three_loggers)
                                (m_mesh_3d_functions P0 @ []) b w) [] blocks)
             = [(0, [5, 6]), (1, [5, 6]), (0, [7, 8]), (1, [7, 8]), (2, [7, 8])]"
    if e: "map (\<lambda>b. case b of Inl m \<Rightarrow> Some (coords2 m (0, 0)) | Inr m \<Rightarrow> None) blocks
             = [Some [5, 6], Some [7, 8]]"
    for blocks :: "(int StructuredMeshBlock2D + int StructuredMeshBlock3D) list"
  proof -
    have "length (map (\<lambda>b. case b of Inl m \<Rightarrow> Some (coords2 m (0, 0)) | Inr m \<Rightarrow> None) blocks) = 2"
      unfolding e by simp
    then have "length blocks = 2" by simp
    then obtain x y where xy: "blocks = [x, y]"
      by (auto simp: length_Suc_conv numeral_2_eq_2)
    obtain m1 where m1: "x = Inl m1" "coords2 m1 (0, 0) = [5, 6]"
      using e xy by (cases x) auto
    obtain m2 where m2: "y = Inl m2" "coords2 m2 (0, 0) = [7, 8]"
      using e xy by (cases y) auto
    have u2: "[0..<2] = [0, Suc 0]" and u3: "[0..<3] = [0, Suc 0, 2]"
      by (simp_all add: upt_rec numeral_2_eq_2 numeral_3_eq_3)
    show ?thesis
      by (simp add: xy m1 m2 P0 fan_out_def run c1[OF m1(2)] c2[OF m2(2)] u2 u3)
  qed
  have a: "snd (snd (parse_ascii demo_conversions (registered three_loggers [] P0) 2
                    (new_istream two_blocks_2d, [])))
           = foldl (\<lambda>w b. fan_out (m_mesh_2d_functions P0 @ three_loggers)
                                (m_mesh_3d_functions P0 @ []) b w) []
               (ascii_blocks demo_conversions (single_block P0) 2 (new_istream two_blocks_2d))"
    by (rule consumers_fan_out[THEN conjunct1])
  have b: "snd (snd (parse_binary demo_conversions (registered three_loggers [] P0) 2
                    (new_istream binary_two_blocks, [])))
           = foldl (\<lambda>w b. fan_out (m_mesh_2d_functions P0 @ three_loggers)
                                (m_mesh_3d_functions P0 @ []) b w) []
               (binary_blocks demo_conversions (single_block P0) 2 (new_istream binary_two_blocks))"
    by (rule consumers_fan_out[THEN conjunct2, THEN conjunct1])
  have 1: "map (\<lambda>(n, m). (n, coords2 m (0, 0)))
       (snd (snd (parse_ascii demo_conversions (registered three_loggers [] P0) 2
                    (new_istream two_blocks_2d, []))))
     = [(0, [5, 6]), (1, [5, 6]), (0, [7, 8]), (1, [7, 8]), (2, [7, 8])]"
    unfolding a P0(3) by (rule fan[OF two_blocks_ascii])
  have 2: "map (\<lambda>(n, m). (n, coords2 m (0, 0)))
       (snd (snd (parse_binary demo_conversions (registered three_loggers [] P0) 2
                    (new_istream binary_two_blocks, []))))
     = [(0, [5, 6]), (1, [5, 6]), (0, [7, 8]), (1, [7, 8]), (2, [7, 8])]"
    unfolding b P0(3) by (rule fan[OF two_blocks_binary])
  have 3: "length (ascii_blocks demo_conversions False 2 (new_istream two_blocks_2d)) = 2"
    using arg_cong[OF two_blocks_ascii, of length] by simp
  show ?thesis
    using 1 2 3 two_blocks_return unfolding P0_def by (intro conjI)
qed

text \<open>
  Claim C10. Whatever the registered functions are and whatever they do to their own
  parameter, each function that the loop calls is called with the block of the parser
  itself: if every function is wrapped so that it writes down the block it is given,
  the run adds as many copies of the parser's block as functions are called, and the
  wrapping changes nothing else.
\<close>

theorem consumers_get_the_block:
  "run_functions (map spy fs) blk (w, seen) =
     (run_functions fs blk w, seen @ replicate (invocations fs blk w) blk)"
  by (rule run_functions_spy)

theorem consumers_get_the_block_witness:
  "snd (run_functions
          (map spy [\<lambda>block w. (True, block + 100, w + 1), \<lambda>block w. (False, 0, w + block),
                    \<lambda>block w. (True, block, w)])
          (7 :: int) (0 :: int, []))
   = [7, 7]"
proof -
  have "invocations [\<lambda>block w. (True, block + 100, w + 1), \<lambda>block w. (False, 0, w + block),
                    \<lambda>block w. (True, block, w)] (7 :: int) (0 :: int) = 2"
    by simp
  then show ?thesis
    using consumers_get_the_block[of "[\<lambda>block w. (True, block + 100, w + 1),
        \<lambda>block w. (False, 0, w + block), \<lambda>block w. (True, block, w)]" "7 :: int" "0 :: int" "[]"]
    by (simp add: numeral_2_eq_2)
qed


section \<open>The parser: the block count and the line number of a failure\<close>

lemma next_line_count:
  "line_number (next_line st) = line_number st + 1"
  "getline_count (input_stream (next_line st)) = Suc (getline_count (input_stream st))"
  by (simp_all add: next_line_def getline_def getline_count_def Let_def split: prod.splits)

lemma line_inv_next_line: "line_inv st \<Longrightarrow> line_inv (next_line st)"
  by (simp add: line_inv_def next_line_count)

lemma line_inv_extents_line:
  "line_inv st \<Longrightarrow> line_inv (snd (ascii_extents_line L d st))"
  by (simp add: ascii_extents_line_def Let_def line_inv_next_line)

lemma line_inv_extents:
  "line_inv st \<Longrightarrow> line_inv (snd (ascii_extents L d n st))"
proof (induction n arbitrary: st)
  case 0
  then show ?case by simp
next
  case (Suc n)
  obtain r st1 where l: "ascii_extents_line L d st = (r, st1)" by (metis prod.exhaust)
  have i1: "line_inv st1" using line_inv_extents_line[OF Suc.prems, of L d] l by simp
  show ?case
  proof (cases r)
    case (Inl e)
    then show ?thesis using i1 l by simp
  next
    case (Inr ext)
    obtain r2 st2 where l2: "ascii_extents L d n st1 = (r2, st2)" by (metis prod.exhaust)
    have "line_inv st2" using Suc.IH[OF i1] l2 by simp
    then show ?thesis using l l2 Inr by (cases r2) simp_all
  qed
qed

lemma extract_double_count:
  "getline_count (snd (extract_double f s)) = getline_count s"
  by (simp add: extract_double_def getline_count_def Let_def split: prod.splits option.splits)

lemma read_bin_ascii_count:
  "getline_count (fst (snd (read_bin_ascii L c ijk (s, blk)))) = getline_count s"
  using extract_double_count[of "num_get L" s]
  by (auto simp: read_bin_ascii_def Let_def split: prod.splits)

lemma for_each_read_bin_ascii_count:
  "getline_count (fst (snd (for_each (read_bin_ascii L c) idxs (s, blk)))) = getline_count s"
proof (induction idxs arbitrary: s blk)
  case Nil
  then show ?case by simp
next
  case (Cons ijk idxs)
  obtain r s1 blk1 where st: "read_bin_ascii L c ijk (s, blk) = (r, (s1, blk1))"
    by (metis prod.exhaust)
  have "getline_count s1 = getline_count s"
    using read_bin_ascii_count[of L c ijk s blk] st by simp
  then show ?case using Cons.IH[of s1 blk1] st by (cases r) (simp_all add: seq_def)
qed

lemma ascii_read_block_count:
  "line_inv st \<Longrightarrow> line_inv (fst (snd (ascii_read_block L d ext st)))"
proof -
  assume inv: "line_inv st"
  define i where "i = ext ! 0"
  define j where "j = ext ! 1"
  define k where "k = (if d = 3 then ext ! 2 else 1)"
  define blk0 :: "'a StructuredMeshBlock3D" where "blk0 = set_extent3 (i, j, k) new_block3"
  obtain r1 s1 b1 where p1: "for_each (read_bin_ascii L 0) (kji_order i j k) (input_stream st, blk0) = (r1, (s1, b1))"
    by (metis prod.exhaust)
  obtain r2 s2 b2 where p2: "for_each (read_bin_ascii L 1) (kji_order i j k) (s1, b1) = (r2, (s2, b2))"
    by (metis prod.exhaust)
  obtain r3 s3 b3 where p3: "for_each (read_bin_ascii L 2) (kji_order i j k) (s2, b2) = (r3, (s3, b3))"
    by (metis prod.exhaust)
  have c1: "getline_count s1 = getline_count (input_stream st)"
    using for_each_read_bin_ascii_count[of L 0 "kji_order i j k" "input_stream st" blk0] p1 by simp
  have c2: "getline_count s2 = getline_count s1"
    using for_each_read_bin_ascii_count[of L 1 "kji_order i j k" s1 b1] p2 by simp
  have c3: "getline_count s3 = getline_count s2"
    using for_each_read_bin_ascii_count[of L 2 "kji_order i j k" s2 b2] p3 by simp
  show ?thesis
    using inv c1 c2 c3 p1 p2 p3
    unfolding ascii_read_block_def apply_function_to_input_array_def Let_def
      i_def[symmetric] j_def[symmetric] k_def[symmetric] blk0_def[symmetric]
    by (cases r1; cases r2; cases r3) (simp_all add: seq_def line_inv_def)
qed

lemma ascii_block_inv:
  "line_inv st \<Longrightarrow> line_inv (fst (snd (ascii_block L P d ext (st, w))))"
  using ascii_read_block_count[of st L d ext]
  by (auto simp: ascii_block_def split: prod.splits option.splits)

lemma ascii_blocks_inv:
  "line_inv st \<Longrightarrow> line_inv (fst (snd (for_each (ascii_block L P d) exts (st, w))))"
proof (induction exts arbitrary: st w)
  case Nil
  then show ?case by simp
next
  case (Cons ext exts)
  obtain r st1 w1 where b: "ascii_block L P d ext (st, w) = (r, (st1, w1))" by (metis prod.exhaust)
  have "line_inv st1" using ascii_block_inv[OF Cons.prems, of L P d ext w] b by simp
  then show ?case using Cons.IH[of st1 w1] b by (cases r) (simp_all add: seq_def)
qed

lemma line_inv_start: "getline_count s = 0 \<Longrightarrow> line_inv (new_locals s)"
  by (simp add: line_inv_def new_locals_def)

lemma line_inv_number_of_blocks:
  "line_inv st \<Longrightarrow> line_inv (snd (ascii_number_of_blocks P st))"
  by (simp add: ascii_number_of_blocks_def Let_def line_inv_next_line)

text \<open>
  Whenever \<open>parse_ascii\<close> (with 2 or 3 dimensions, on a stream on which \<open>std::getline\<close>
  has not been called before) ends with a failure, what it throws is its line counter,
  which starts at 1 and is incremented after every \<open>std::getline\<close>: one more than the
  number of lines asked of the input so far.
\<close>

lemma ascii_failure_counter:
  assumes "2 \<le> d" and "d \<le> 3" and "getline_count s = 0"
    and "parse_ascii L P d (s, w) = (Some e, (s', w'))"
  shows "e = ThrowInt (1 + int (getline_count s'))"
proof -
  obtain n st1 where nb: "ascii_number_of_blocks P (new_locals s) = (n, st1)"
    by (metis prod.exhaust)
  have i1: "line_inv st1"
    using line_inv_number_of_blocks[OF line_inv_start[OF assms(3)], of P] nb by simp
  show ?thesis
  proof (cases "n < 0")
    case True
    then show ?thesis using assms i1 nb by (auto simp: parse_ascii_def line_inv_def)
  next
    case False
    obtain r st2 where ex: "ascii_extents L d (nat n) st1 = (r, st2)" by (metis prod.exhaust)
    have i2: "line_inv st2" using line_inv_extents[OF i1, of L d "nat n"] ex by simp
    show ?thesis
    proof (cases r)
      case (Inl x)
      then show ?thesis using assms nb ex False i2 by (auto simp: parse_ascii_def line_inv_def)
    next
      case (Inr exts)
      obtain r3 st3 w3 where bl: "for_each (ascii_block L P d) exts (st2, w) = (r3, (st3, w3))"
        by (metis prod.exhaust)
      have "line_inv st3" using ascii_blocks_inv[OF i2, of L P d exts w] bl by simp
      then show ?thesis
        using assms nb ex False Inr bl by (cases r3) (auto simp: parse_ascii_def line_inv_def)
    qed
  qed
qed


lemma short_header_fails:
  "fst (parse_ascii demo_conversions two_loggers_2d 2 (new_istream short_header, []))
     = Some (ThrowInt 4)"
  by code_simp

lemma bad_second_line_fails:
  "fst (parse_ascii demo_conversions two_loggers_2d 2 (new_istream bad_second_line, []))
     = Some (ThrowInt 3)"
  by code_simp

text \<open>
  Claim C9 at a malformed first line: the single-block 3D parser, on a file whose first
  (and only) line is \<open>1 x 1\<close>, calls \<open>std::getline\<close> once, fails in \<open>std::stoi\<close> on the
  second token of that line, and throws 2, not the number 1 of the line it has
  reached. (By the lemma above the number thrown is always one more than the number of
  lines read, so it is never 1; a malformed second line gives 3, and a file that ends
  after its second line gives 4.)
\<close>

theorem malformed_first_line:
  "fst (parse_ascii demo_conversions one_logger_3d 3 (new_istream bad_first_line, []))
     = Some (ThrowInt 2)
   \<and> getline_count
        (fst (snd (parse_ascii demo_conversions one_logger_3d 3 (new_istream bad_first_line, []))))
       = 1"
  by code_simp

section \<open>The parser: a block count below 1\<close>

lemma ascii_count_zero_accepted:
  assumes "\<not> single_block P" and "2 \<le> d" and "d \<le> 3"
    and "atoi (this_line (next_line (new_locals s))) = 0"
  shows "parse_ascii L P d (s, w) = (None, (input_stream (next_line (new_locals s)), w))"
  using assms by (simp add: parse_ascii_def ascii_number_of_blocks_def Let_def)

lemma ascii_count_negative_rejected:
  assumes "\<not> single_block P" and "2 \<le> d" and "d \<le> 3"
    and "atoi (this_line (next_line (new_locals s))) < 0"
  shows "parse_ascii L P d (s, w) =
           (Some (ThrowInt 2), (input_stream (next_line (new_locals s)), w))"
  using assms
  by (simp add: parse_ascii_def ascii_number_of_blocks_def Let_def next_line_count new_locals_def)

lemma binary_count_rejected:
  assumes "\<not> single_block P" and "1 < d" and "d \<le> 3"
    and "record_open (new_locals s) = (None, st1)"
    and "read_int st1 = (Inr n, st2)"
    and "n < 1"
  shows "fst (parse_binary L P d (s, w)) \<noteq> None
     \<and> snd (snd (parse_binary L P d (s, w))) = w
     \<and> fst (snd (parse_binary L P d (s, w))) = input_stream (snd (record_close st2))"
  using assms
  by (simp add: parse_binary_def binary_number_of_blocks_def split: prod.splits option.splits)

lemma zero_blocks_line:
  "atoi (this_line (next_line (new_locals (new_istream zero_blocks)))) = 0"
  "input_stream (next_line (new_locals (new_istream zero_blocks)))
     = \<lparr>chars = [], good = True, history = [Getline]\<rparr>"
  by code_simp+

text \<open>
  Claim C1 at the input \<open>0\<close>: with the single-block flag off, \<open>parse_ascii\<close> on a file
  whose first line is \<open>0\<close> returns normally, after one call of \<open>std::getline\<close>, with no
  block made and no registered function called. (\<open>parse_binary\<close> ends every count
  below 1 with \<open>throw -1\<close>, and \<open>parse_ascii\<close> ends a negative count with its line
  number, from the \<open>std::length_error\<close> of \<open>resize\<close>: the three lemmas above.)
\<close>

theorem ascii_zero_block_count:
  "parse_ascii demo_conversions two_loggers_2d 2 (new_istream zero_blocks, [])
     = (None, (\<lparr>chars = [], good = True, history = [Getline]\<rparr>, []))"
proof -
  have "\<not> single_block two_loggers_2d" by (simp add: two_loggers_2d_def)
  then show ?thesis
    using ascii_count_zero_accepted[of two_loggers_2d 2 "new_istream zero_blocks" demo_conversions "[]"]
      zero_blocks_line by simp
qed

lemma negative_blocks_fails:
  "fst (parse_ascii demo_conversions two_loggers_2d 2 (new_istream negative_blocks, []))
     = Some (ThrowInt 2)"
  by code_simp

lemma binary_zero_blocks_fails:
  "fst (parse_binary demo_conversions two_loggers_2d 2 (new_istream binary_zero_blocks, []))
     = Some (ThrowInt (- 1))"
  by code_simp

section \<open>The parser: record framing of binary input\<close>



















section \<open>The parser: the coordinates of a 3D block\<close>

lemma for_each_read_bin_ascii:
  "for_each (read_bin_ascii L c) idxs (s, blk) =
     (None, (snd (extract_n (num_get L) (length idxs) s),
             store_pass c idxs (fst (extract_n (num_get L) (length idxs) s)) blk))"
proof (induction idxs arbitrary: s blk)
  case Nil
  then show ?case by (simp add: store_pass_def)
next
  case (Cons ijk idxs)
  obtain v s1 where e: "extract_double (num_get L) s = (v, s1)" by (metis prod.exhaust)
  obtain vs s2 where n: "extract_n (num_get L) (length idxs) s1 = (vs, s2)" by (metis prod.exhaust)
  have step: "read_bin_ascii L c ijk (s, blk) = (None, (s1, set_coord3 ijk ((coord3 blk ijk)[c := v]) blk))"
    by (simp add: read_bin_ascii_def e Let_def)
  show ?case
    using Cons.IH[of s1 "set_coord3 ijk ((coord3 blk ijk)[c := v]) blk"]
    by (simp add: step seq_def e n store_pass_def)
qed

lemma store_pass_other:
  "ijk \<notin> set idxs \<Longrightarrow> coords3 (store_pass c idxs vs blk) ijk = coords3 blk ijk"
proof (induction idxs arbitrary: vs blk)
  case Nil
  then show ?case by (simp add: store_pass_def)
next
  case (Cons x idxs)
  show ?case
  proof (cases vs)
    case Nil
    then show ?thesis by (simp add: store_pass_def)
  next
    case (Cons v vs')
    have "store_pass c (x # idxs) vs blk
            = store_pass c idxs vs' (set_coord3 x ((coord3 blk x)[c := v]) blk)"
      by (simp add: store_pass_def Cons)
    then show ?thesis
      using Cons.IH[of vs' "set_coord3 x ((coord3 blk x)[c := v]) blk"] Cons.prems
      by (simp add: set_coord3_def)
  qed
qed

lemma store_pass_nth:
  "distinct idxs \<Longrightarrow> length vs = length idxs \<Longrightarrow> p < length idxs \<Longrightarrow>
   coords3 (store_pass c idxs vs blk) (idxs ! p) = (coords3 blk (idxs ! p))[c := vs ! p]"
proof (induction idxs arbitrary: vs blk p)
  case Nil
  then show ?case by simp
next
  case (Cons x idxs)
  from Cons.prems obtain v vs' where vs: "vs = v # vs'" by (cases vs) auto
  let ?blk1 = "set_coord3 x ((coord3 blk x)[c := v]) blk"
  have st: "store_pass c (x # idxs) vs blk = store_pass c idxs vs' ?blk1"
    by (simp add: store_pass_def vs)
  show ?case
  proof (cases p)
    case 0
    have "x \<notin> set idxs" using Cons.prems by simp
    then have "coords3 (store_pass c idxs vs' ?blk1) x = coords3 ?blk1 x"
      by (rule store_pass_other)
    then show ?thesis
      unfolding st by (simp add: 0 vs set_coord3_def coord3_def)
  next
    case (Suc q)
    have q: "q < length idxs" using Cons.prems Suc by simp
    have ne: "idxs ! q \<noteq> x" using Cons.prems q by auto
    show ?thesis
      using Cons.IH[of vs' q ?blk1] Cons.prems q ne
      unfolding st by (simp add: Suc vs set_coord3_def)
  qed
qed

lemma length_extract_n: "length (fst (extract_n f n s)) = n"
proof (induction n arbitrary: s)
  case 0
  then show ?case by simp
next
  case (Suc n)
  obtain v s1 where e: "extract_double f s = (v, s1)" by (metis prod.exhaust)
  obtain vs s2 where n: "extract_n f n s1 = (vs, s2)" by (metis prod.exhaust)
  show ?case using Suc.IH[of s1] by (simp add: e n)
qed

lemma kji_order_product:
  "kji_order i j k =
     map (\<lambda>(c, b, a). (a, b, c)) (List.product [0..k - 1] (List.product [0..j - 1] [0..i - 1]))"
  by (simp add: kji_order_def List.product_concat_map map_concat comp_def)

lemma distinct_kji_order: "distinct (kji_order i j k)"
proof -
  have "inj (\<lambda>(c::int, b::int, a::int). (a, b, c))" by (auto simp: inj_on_def)
  then show ?thesis
    unfolding kji_order_product
    by (intro iffD2[OF distinct_map] conjI distinct_product) (auto intro: inj_on_subset)
qed


lemma new_block3_coords: "coords3 (set_extent3 e (new_block3 :: ('d::zero) StructuredMeshBlock3D)) ijk = [0, 0, 0]"
  by (simp add: set_extent3_def new_block3_def)

lemma store_pass_extent: "extent3 (store_pass c idxs vs blk) = extent3 blk"
proof (induction idxs arbitrary: vs blk)
  case Nil
  then show ?case by (simp add: store_pass_def)
next
  case (Cons x idxs)
  show ?case
  proof (cases vs)
    case Nil
    then show ?thesis by (simp add: store_pass_def)
  next
    case (Cons v vs')
    have "store_pass c (x # idxs) vs blk
            = store_pass c idxs vs' (set_coord3 x ((coord3 blk x)[c := v]) blk)"
      by (simp add: store_pass_def Cons)
    then show ?thesis
      using Cons.IH[of vs' "set_coord3 x ((coord3 blk x)[c := v]) blk"]
      by (simp add: set_coord3_def)
  qed
qed

lemma ascii_read_block_3d:
  fixes L :: "('d::zero) conversions"
  defines "f \<equiv> num_get L"
  assumes idxs: "idxs = kji_order (ext ! 0) (ext ! 1) (ext ! 2)"
    and xs: "extract_n f (length idxs) (input_stream st) = (xs, s1)"
    and ys: "extract_n f (length idxs) s1 = (ys, s2)"
    and zs: "extract_n f (length idxs) s2 = (zs, s3)"
  shows "\<exists>blk. ascii_read_block L 3 ext st = (None, (st\<lparr>input_stream := s3\<rparr>, blk))
     \<and> extent3 blk = (ext ! 0, ext ! 1, ext ! 2)
     \<and> (\<forall>p < length idxs. coords3 blk (idxs ! p) = [xs ! p, ys ! p, zs ! p])"
proof -
  define blk0 :: "'d StructuredMeshBlock3D"
    where "blk0 = set_extent3 (ext ! 0, ext ! 1, ext ! 2) new_block3"
  define b1 where "b1 = store_pass 0 idxs xs blk0"
  define b2 where "b2 = store_pass 1 idxs ys b1"
  define b3 where "b3 = store_pass 2 idxs zs b2"
  have p1: "for_each (read_bin_ascii L 0) idxs (input_stream st, blk0) = (None, (s1, b1))"
    using for_each_read_bin_ascii[of L 0 idxs "input_stream st" blk0] xs
    by (simp add: f_def b1_def)
  have p2: "for_each (read_bin_ascii L 1) idxs (s1, b1) = (None, (s2, b2))"
    using for_each_read_bin_ascii[of L 1 idxs s1 b1] ys by (simp add: f_def b2_def)
  have p3: "for_each (read_bin_ascii L 2) idxs (s2, b2) = (None, (s3, b3))"
    using for_each_read_bin_ascii[of L 2 idxs s2 b2] zs by (simp add: f_def b3_def)
  have r: "ascii_read_block L 3 ext st = (None, (st\<lparr>input_stream := s3\<rparr>, b3))"
    unfolding ascii_read_block_def apply_function_to_input_array_def Let_def
    using p1[unfolded idxs blk0_def] p2[unfolded idxs] p3[unfolded idxs] by (simp add: seq_def)
  have d: "distinct idxs" unfolding idxs by (rule distinct_kji_order)
  have lx: "length xs = length idxs" using length_extract_n[of f "length idxs" "input_stream st"] xs by simp
  have ly: "length ys = length idxs" using length_extract_n[of f "length idxs" s1] ys by simp
  have lz: "length zs = length idxs" using length_extract_n[of f "length idxs" s2] zs by simp
  have c: "coords3 b3 (idxs ! p) = [xs ! p, ys ! p, zs ! p]" if p: "p < length idxs" for p
  proof -
    have "coords3 b1 (idxs ! p) = [0, 0, 0][0 := xs ! p]"
      unfolding b1_def using store_pass_nth[OF d lx p, of 0 blk0]
      by (simp add: blk0_def new_block3_coords)
    moreover have "coords3 b2 (idxs ! p) = (coords3 b1 (idxs ! p))[1 := ys ! p]"
      unfolding b2_def by (rule store_pass_nth[OF d ly p])
    moreover have "coords3 b3 (idxs ! p) = (coords3 b2 (idxs ! p))[2 := zs ! p]"
      unfolding b3_def by (rule store_pass_nth[OF d lz p])
    ultimately show ?thesis by simp
  qed
  have e: "extent3 b3 = (ext ! 0, ext ! 1, ext ! 2)"
    by (simp add: b3_def b2_def b1_def store_pass_extent blk0_def set_extent3_def)
  show ?thesis using r c e by blast
qed

lemma kji_order_nth:
  assumes "a < I" and "b < J" and "c < K"
  shows "kji_order (int I) (int J) (int K) ! ((c * J + b) * I + a) = (int a, int b, int c)"
proof -
  have lI: "length [0..int I - 1] = I" and lJ: "length [0..int J - 1] = J"
    and lK: "length [0..int K - 1] = K" by simp_all
  let ?q = "b * I + a"
  have q: "?q < J * I"
  proof -
    have "b * I + a < b * I + I" using assms(1) by simp
    also have "\<dots> = (Suc b) * I" by simp
    also have "\<dots> \<le> J * I" using assms(2) by (intro mult_le_mono1) simp
    finally show ?thesis .
  qed
  have p: "(c * J + b) * I + a = c * (J * I) + ?q" by (simp add: algebra_simps)
  have pl: "c * (J * I) + ?q < K * (J * I)"
  proof -
    have "c * (J * I) + ?q < c * (J * I) + J * I" using q by simp
    also have "\<dots> = (Suc c) * (J * I)" by simp
    also have "\<dots> \<le> K * (J * I)" using assms(3) by (intro mult_le_mono1) simp
    finally show ?thesis .
  qed
  have inner: "List.product [0..int J - 1] [0..int I - 1] ! ?q = (int b, int a)"
    using q assms by (simp add: product_nth lI lJ nth_upto)
  have "List.product [0..int K - 1] (List.product [0..int J - 1] [0..int I - 1]) ! (c * (J * I) + ?q)
        = (int c, int b, int a)"
    using pl q assms inner by (simp add: product_nth lI lJ lK nth_upto)
  then show ?thesis
    unfolding kji_order_product p using pl by (simp add: lI lJ lK)
qed

text \<open>
  \<open>parse_ascii\<close> of src/Plot3DParser.cpp, one turn of the loop over the blocks with 3
  dimensions: the turn never fails, and the block that goes to the registered 3D
  functions holds, at the \<open>p\<close>-th position in the order of the loops (\<open>k\<close> outermost, \<open>i\<close>
  innermost), the \<open>p\<close>-th value of the first pass, of the second pass and of the third
  pass.
\<close>

lemma ascii_block_3d:
  fixes L :: "('d::zero) conversions"
  assumes idxs: "idxs = kji_order (ext ! 0) (ext ! 1) (ext ! 2)"
    and xs: "extract_n (num_get L) (length idxs) (input_stream st) = (xs, s1)"
    and ys: "extract_n (num_get L) (length idxs) s1 = (ys, s2)"
    and zs: "extract_n (num_get L) (length idxs) s2 = (zs, s3)"
  shows "\<exists>blk. ascii_block L P 3 ext (st, w) =
            (None, (st\<lparr>input_stream := s3\<rparr>, run_functions (m_mesh_3d_functions P) blk w))
     \<and> extent3 blk = (ext ! 0, ext ! 1, ext ! 2)
     \<and> (\<forall>p < length idxs. coords3 blk (idxs ! p) = [xs ! p, ys ! p, zs ! p])"
proof -
  from ascii_read_block_3d[OF idxs xs ys zs] obtain blk where
    r: "ascii_read_block L 3 ext st = (None, (st\<lparr>input_stream := s3\<rparr>, blk))"
    and e: "extent3 blk = (ext ! 0, ext ! 1, ext ! 2)"
    and c: "\<forall>p < length idxs. coords3 blk (idxs ! p) = [xs ! p, ys ! p, zs ! p]"
    by blast
  have "ascii_block L P 3 ext (st, w) =
          (None, (st\<lparr>input_stream := s3\<rparr>, run_functions (m_mesh_3d_functions P) blk w))"
    by (simp add: ascii_block_def r dispatch_def)
  then show ?thesis using e c by blast
qed

lemma ascii_read_block_never_fails:
  "fst (ascii_read_block L d ext st) = None"
  unfolding ascii_read_block_def apply_function_to_input_array_def Let_def
  by (simp add: for_each_read_bin_ascii seq_def)


lemma one_point_3d_src:
  "fst (parse_ascii demo_conversions one_logger_3d 3 (new_istream one_point_3d, [])) = None"
  "map (\<lambda>(n, m). coords3 m (0, 0, 0))
     (snd (snd (parse_ascii demo_conversions one_logger_3d 3 (new_istream one_point_3d, []))))
   = [[1, 2, 3]]"
  by code_simp+

text \<open>
  Claim C2 at a single-block 3D file of one point \<open>(1, 2, 3)\<close>, for \<open>parse_ascii\<close> of
  HBTK/Plot3DParser.cpp: the parse returns normally, and the block given to the
  registered 3D function holds \<open>(1, 3, 0)\<close> if assignments to \<open>coord\<close> reach the block
  (the third pass stores into component 1 a second time, component 2 is never
  written), and \<open>(0, 0, 0)\<close> if \<open>coord\<close> is a copy. In neither case is its third
  component the value 3 read in the third pass. (\<open>parse_ascii\<close> of src/Plot3DParser.cpp
  gives \<open>(1, 2, 3)\<close>: the lemma above.)
\<close>

theorem HBTK_third_pass_stores_into_y:
  "fst (parse_ascii_HBTK demo_conversions True one_logger_3d 3 (new_istream one_point_3d, []))
     = None
   \<and> map (\<lambda>(n, m). coords3 m (0, 0, 0))
        (snd (snd (parse_ascii_HBTK demo_conversions True one_logger_3d 3
                     (new_istream one_point_3d, []))))
      = [[1, 3, 0]]
   \<and> fst (parse_ascii_HBTK demo_conversions False one_logger_3d 3 (new_istream one_point_3d, []))
     = None
   \<and> map (\<lambda>(n, m). coords3 m (0, 0, 0))
        (snd (snd (parse_ascii_HBTK demo_conversions False one_logger_3d 3
                     (new_istream one_point_3d, []))))
      = [[0, 0, 0]]"
  by code_simp

end
